(* ===== verification/Prelude.thy ===== *)
theory Prelude
  imports Main "HOL-Library.Word"
begin

text \<open>
  Shared notions of the development: the C++ error values every fallible model returns,
  the result type and its sequencing, machine-integer facts (\<open>int64_t\<close>, \<open>uint64_t\<close>,
  bytes), and little-endian byte strings. Lemma collections: \<open>cxx_simps\<close> (evaluation of
  the result type), \<open>word_facts\<close> (bit and size facts of machine words).
\<close>

unbundle bit_operations_syntax

named_theorems cxx_simps \<open>evaluation of results\<close>
named_theorems word_facts \<open>facts on machine words\<close>

section \<open>Errors and results\<close>

text \<open>
  What a C++ call can do besides returning: throw an exception with a message, fail an
  \<open>assert\<close>, or reach behaviour the language leaves undefined (signed overflow, a shift past
  the width, a null dereference, an access outside a buffer).
\<close>

datatype cxx_error =
    Thrown string
  | AssertFail
  | SignedOverflow
  | ShiftRange
  | NullDeref
  | OutOfRange
  | BufferOverflow

type_synonym 'a res = "cxx_error + 'a"

fun rbind :: "'e + 'a \<Rightarrow> ('a \<Rightarrow> 'e + 'b) \<Rightarrow> 'e + 'b" where
  "rbind (Inl e) f = Inl e"
| "rbind (Inr x) f = f x"

definition cxx_assert :: "bool \<Rightarrow> 'a res \<Rightarrow> 'a res" where
  "cxx_assert b k = (if b then k else Inl AssertFail)"

lemma rbind_simps [cxx_simps]: "rbind (Inl e) f = Inl e" "rbind (Inr x) f = f x"
  by simp_all

lemma rbind_Inr_iff: "rbind r f = Inr y \<longleftrightarrow> (\<exists>x. r = Inr x \<and> f x = Inr y)"
  by (cases r) auto

lemma rbind_Inr_right [simp]: "rbind r Inr = r"
  by (cases r) auto

lemma rbind_cong [fundef_cong]:
  "r = r' \<Longrightarrow> (\<And>x. r' = Inr x \<Longrightarrow> f x = g x) \<Longrightarrow> rbind r f = rbind r' g"
  by (cases r') auto

lemma rbind_assoc: "rbind (rbind r f) g = rbind r (\<lambda>x. rbind (f x) g)"
  by (cases r) auto

lemma cxx_assert_simps [simp, cxx_simps]:
  "cxx_assert True k = k" "cxx_assert False k = Inl AssertFail"
  by (simp_all add: cxx_assert_def)

lemma cxx_assert_Inr_iff: "cxx_assert b k = Inr y \<longleftrightarrow> b \<and> k = Inr y"
  by (simp add: cxx_assert_def)

section \<open>Machine integers\<close>

type_synonym byte = "8 word"
type_synonym i64 = "64 word"
type_synonym u64 = "64 word"
type_synonym u32 = "32 word"
type_synonym uint256 = "256 word"

definition i64_min :: int where "i64_min = - 9223372036854775808"
definition i64_max :: int where "i64_max = 9223372036854775807"
definition i32_min :: int where "i32_min = - 2147483648"
definition i32_max :: int where "i32_max = 2147483647"

definition fits_i64 :: "int \<Rightarrow> bool" where
  "fits_i64 x \<longleftrightarrow> i64_min \<le> x \<and> x \<le> i64_max"

lemmas i64_bounds = i64_min_def i64_max_def fits_i64_def

lemma sint_i64_range [word_facts]: "i64_min \<le> sint (w :: i64)" "sint (w :: i64) \<le> i64_max"
  using sint_ge [of w] sint_lt [of w] by (simp_all add: i64_bounds)

lemma fits_sint [simp]: "fits_i64 (sint (w :: i64))"
  by (simp add: fits_i64_def sint_i64_range)

lemma sint_of_int_fits: "fits_i64 x \<Longrightarrow> sint (word_of_int x :: i64) = x"
  by (simp add: i64_bounds sint_sbintrunc' signed_take_bit_int_eq_self)

lemma word_of_int_sint: "word_of_int (sint w) = (w :: i64)"
  by (simp add: scast_id)

lemma sint_add_fits: "fits_i64 (sint a + sint b) \<Longrightarrow> sint (a + b :: i64) = sint a + sint b"
  by (simp add: i64_bounds sint_word_add signed_take_bit_int_eq_self)

lemma sint_diff_fits: "fits_i64 (sint a - sint b) \<Longrightarrow> sint (a - b :: i64) = sint a - sint b"
  by (simp add: i64_bounds sint_word_diff signed_take_bit_int_eq_self)

lemma sint_neg_fits: "fits_i64 (- sint a) \<Longrightarrow> sint (- a :: i64) = - sint a"
  by (simp add: i64_bounds sint_word_minus signed_take_bit_int_eq_self)

lemma unat_byte_less [simp]: "unat (b :: byte) < 256"
  using unsigned_less [of b] by simp

lemma unat_byte_le [simp]: "unat (b :: byte) \<le> 255"
  using unat_byte_less [of b] by linarith

lemma sint_eq_unat_i64:
  assumes "unat (w :: i64) < 2 ^ 63"
  shows "sint w = int (unat w)"
proof -
  have "uint w < 2 ^ 63" using assms by (metis of_nat_less_iff of_nat_numeral of_nat_power uint_nat)
  then have "signed_take_bit 63 (uint w) = uint w"
    using uint_ge_0 [of w] by (intro signed_take_bit_int_eq_self) linarith+
  then show ?thesis by (simp add: sint_uint)
qed

lemma sint_small_range:
  assumes "unat (w :: i64) < 2 ^ 63"
  shows "0 \<le> sint w" "sint w < 2 ^ 63"
proof -
  have "int (unat w) < int (2 ^ 63)" using assms by (simp only: of_nat_less_iff)
  then show "0 \<le> sint w" "sint w < 2 ^ 63"
    unfolding sint_eq_unat_i64 [OF assms] by simp_all
qed

lemma unat_eq_sint_i64:
  assumes "0 \<le> sint (w :: i64)"
  shows "int (unat w) = sint w"
proof -
  have "uint w = take_bit 64 (sint w)" by (simp add: uint_sint)
  also have "\<dots> = sint w"
    using assms sint_i64_range(2) [of w] by (intro take_bit_int_eq_self) (simp_all add: i64_bounds)
  finally show ?thesis by simp
qed

lemma sint_i64_inject: "sint (a :: i64) = sint b \<Longrightarrow> a = b"
  by (simp add: signed_word_eqI)

section \<open>Bytes and bits\<close>

lemma bit_byte7: "(b :: byte) AND 0x80 \<noteq> 0 \<longleftrightarrow> 128 \<le> unat b"
proof -
  have "(b AND 0x80 \<noteq> 0) = bit b 7"
    by (simp add: bit_iff_and_push_bit_not_eq_0)
  also have "bit b 7 = bit (unat b) 7" by (simp add: bit_unsigned_iff)
  also have "\<dots> = (128 \<le> unat b)"
  proof -
    have "unat b div 128 = (if 128 \<le> unat b then 1 else 0)"
      using unat_byte_less [of b] by (auto intro: div_nat_eqI)
    then show ?thesis by (simp add: bit_iff_odd)
  qed
  finally show ?thesis .
qed

lemma unat_and_7f: "unat ((b :: byte) AND 0x7f) = unat b mod 128"
proof -
  have "b AND 0x7f = take_bit 7 b" by (simp add: take_bit_eq_mask mask_eq_exp_minus_1)
  then have "unat (b AND 0x7f) = take_bit 7 (unat b)" by (simp only: unsigned_take_bit_eq)
  then show ?thesis by (simp add: take_bit_eq_mod)
qed

lemma unat_byte_mod128: "unat (b :: byte) mod 128 = (if 128 \<le> unat b then unat b - 128 else unat b)"
proof (cases "128 \<le> unat b")
  case True
  then have "unat b mod 128 = (unat b - 128) mod 128" by (rule le_mod_geq)
  also have "\<dots> = unat b - 128" using unat_byte_less [of b] by (intro mod_less) linarith
  finally show ?thesis using True by simp
qed simp

lemma unat_or_80: "unat (b :: byte) < 128 \<Longrightarrow> unat (b OR 0x80) = unat b + 128"
proof -
  assume a: "unat b < 128"
  have "unat (b OR 0x80) = unat b OR push_bit 7 1" by (simp add: unsigned_or_eq)
  also have "\<dots> = unat b + push_bit 7 1"
  proof (rule disjunctive_add [symmetric])
    fix n
    have "unat b = take_bit 7 (unat b)" using a by (simp add: take_bit_nat_eq_self)
    then show "\<not> bit (unat b) n \<or> \<not> bit (push_bit 7 (1::nat)) n"
      by (metis bit_push_bit_iff bit_take_bit_iff linorder_not_le)
  qed
  finally show ?thesis by simp
qed

lemma unat_low_byte: "unat (ucast (w AND 0xff) :: byte) = unat (w :: i64) mod 256"
proof -
  have "w AND 0xff = take_bit 8 w" by (simp add: take_bit_eq_mask mask_eq_exp_minus_1)
  then have "unat (ucast (w AND 0xff) :: byte) = take_bit 8 (take_bit 8 (unat w))"
    by (simp only: unsigned_ucast_eq unsigned_take_bit_eq) simp
  then show ?thesis by (simp add: take_bit_eq_mod)
qed

lemma unat_shift8: "unat (drop_bit 8 (w :: i64)) = unat w div 256"
  by (simp only: unat_drop_bit_eq) (simp add: drop_bit_eq_div)

lemma byte_eq_iff: "(a :: byte) = b \<longleftrightarrow> unat a = unat b" by (simp add: word_unat_eq_iff)

lemma or_shifted_byte:
  assumes "unat (r :: i64) < 2 ^ (8 * i)" "i < 8"
  shows "unat (r OR push_bit (8 * i) (ucast (b :: byte))) = unat r + 2 ^ (8 * i) * unat b"
proof -
  have p: "unat (push_bit (8 * i) (ucast b :: i64)) = push_bit (8 * i) (unat b)"
  proof -
    have "2 ^ (8 * i) * unat b < 2 ^ (8 * i) * 2 ^ 8"
      using unat_byte_less [of b] by simp
    also have "\<dots> \<le> (2::nat) ^ 64" unfolding power_add [symmetric] using assms(2) by (intro power_increasing) simp_all
    finally have less: "push_bit (8 * i) (unat b) < 2 ^ 64" by (simp add: push_bit_eq_mult mult.commute)
    have "unat (push_bit (8 * i) (ucast b :: i64)) = take_bit 64 (push_bit (8 * i) (unat b))"
      by (simp only: unsigned_push_bit_eq unsigned_ucast_eq) (simp add: take_bit_push_bit)
    with less show ?thesis by (simp only: take_bit_nat_eq_self)
  qed
  have "unat (r OR push_bit (8 * i) (ucast b)) = unat r OR unat (push_bit (8 * i) (ucast b :: i64))"
    by (simp only: unsigned_or_eq)
  also have "\<dots> = unat r OR push_bit (8 * i) (unat b)" by (simp only: p)
  also have "\<dots> = unat r + push_bit (8 * i) (unat b)"
  proof (rule disjunctive_add [symmetric])
    fix n
    have "unat r = take_bit (8 * i) (unat r)" using assms(1) by (simp add: take_bit_nat_eq_self)
    then show "\<not> bit (unat r) n \<or> \<not> bit (push_bit (8 * i) (unat b)) n"
      by (metis bit_push_bit_iff bit_take_bit_iff linorder_not_le)
  qed
  finally show ?thesis by (simp add: push_bit_eq_mult mult.commute)
qed

lemma unat_clear_bit:
  assumes "bit (w :: i64) k"
  shows "unat (w AND NOT (push_bit k 1)) + 2 ^ k = unat w"
proof -
  have k: "k < 64" using bit_imp_le_length [OF assms] by simp
  have "w = (w AND NOT (push_bit k 1)) OR push_bit k 1"
  proof (rule bit_word_eqI)
    fix n assume "n < LENGTH(64)"
    then show "bit w n = bit (w AND NOT (push_bit k 1) OR push_bit k 1) n"
      using assms by (cases "n = k") (simp_all add: bit_and_iff bit_or_iff bit_not_iff bit_exp_iff)
  qed
  also have "unat \<dots> = unat (w AND NOT (push_bit k 1)) OR unat (push_bit k 1 :: i64)"
    by (simp only: unsigned_or_eq)
  also have "\<dots> = unat (w AND NOT (push_bit k 1)) + unat (push_bit k 1 :: i64)"
    by (rule disjunctive_add [symmetric]) (auto simp: bit_simps)
  also have "unat (push_bit k 1 :: i64) = 2 ^ k"
  proof -
    have "unat (push_bit k 1 :: i64) = take_bit 64 (push_bit k 1)"
      by (simp only: unsigned_push_bit_eq) simp
    moreover have "(2::nat) ^ k < 2 ^ 64" using k by (intro power_strict_increasing) simp_all
    ultimately show ?thesis using k by simp
  qed
  finally show ?thesis by simp
qed
section \<open>Little-endian byte strings\<close>

fun le_nat :: "byte list \<Rightarrow> nat" where
  "le_nat [] = 0"
| "le_nat (b # bs) = unat b + 256 * le_nat bs"

lemma le_nat_append: "le_nat (xs @ ys) = le_nat xs + 256 ^ length xs * le_nat ys"
  by (induction xs) (simp_all add: algebra_simps)

lemma le_nat_less: "le_nat bs < 256 ^ length bs"
proof (induction bs)
  case (Cons b bs)
  then have "le_nat bs + 1 \<le> 256 ^ length bs" by simp
  then have "256 * le_nat bs + 256 \<le> 256 * 256 ^ length bs" by linarith
  then show ?case using unat_byte_less [of b] unfolding le_nat.simps by (simp del: unat_byte_less)
qed simp

lemma le_nat_snoc: "bs \<noteq> [] \<Longrightarrow>
    le_nat bs = le_nat (butlast bs) + 256 ^ (length bs - 1) * unat (last bs)"
  using le_nat_append [of "butlast bs" "[last bs]"] by simp

lemma pow256: "(256::nat) ^ n = 2 ^ (8 * n)"
  by (simp add: power_mult)

end
