(* ===== verification/Codec.thy ===== *)
theory Codec
  imports Prelude
begin

text \<open>
  The contract of an encoder and a decoder that may both fail: what every encoding of the
  code promises. A \<open>codec\<close> reads back what it writes; a \<open>canonical_codec\<close> moreover accepts
  only what it would write, so that decoding is injective.
\<close>

locale codec =
  fixes enc :: "'a \<Rightarrow> 'e res"
    and dec :: "'e \<Rightarrow> 'a res"
    and valid :: "'a \<Rightarrow> bool"
  assumes dec_enc: "valid x \<Longrightarrow> \<exists>e. enc x = Inr e \<and> dec e = Inr x"
begin

lemma roundtrip: "valid x \<Longrightarrow> rbind (enc x) dec = Inr x"
  using dec_enc by fastforce

lemma enc_inject: "valid x \<Longrightarrow> valid y \<Longrightarrow> enc x = enc y \<Longrightarrow> x = y"
  using dec_enc by (metis Inr_inject)

end

locale canonical_codec = codec +
  assumes enc_dec: "dec e = Inr x \<Longrightarrow> valid x \<and> enc x = Inr e"
begin

lemma dec_iff: "dec e = Inr x \<longleftrightarrow> valid x \<and> enc x = Inr e"
proof
  assume "valid x \<and> enc x = Inr e"
  then obtain e' where "enc x = Inr e'" "dec e' = Inr x" "enc x = Inr e" using dec_enc by blast
  then show "dec e = Inr x" by simp
qed (rule enc_dec)

lemma dec_inject: "dec d = Inr x \<Longrightarrow> dec e = Inr x \<Longrightarrow> d = e"
  by (simp add: dec_iff)

end

end
