(* ===== verification/ScriptNum.thy ===== *)
theory ScriptNum
  imports Codec
begin

text \<open>
  The script number class \<open>CScriptNum\<close> of \<open>chainx-ui.id/script.h\<close>: an \<open>int64_t\<close> wrapped
  with the arithmetic the script interpreter allows and with its sign-magnitude byte
  encoding. Operations that C++ leaves undefined on overflow return \<open>SignedOverflow\<close>;
  failing assertions return \<open>AssertFail\<close>; the \<open>scriptnum_error\<close> exceptions are
  \<open>Thrown\<close> values.
\<close>

section \<open>The class and its constructors\<close>

record CScriptNum =
  m_value :: i64

definition nDefaultMaxNumSize :: nat where
  "nDefaultMaxNumSize = 4"

definition CScriptNum_of_int64 :: "i64 \<Rightarrow> CScriptNum" where
  "CScriptNum_of_int64 n = \<lparr>m_value = n\<rparr>"

text \<open>
  \<open>set_vch\<close>: the loop ORs each byte into place; a shift by 64 or more is undefined. The
  last byte's top bit is the sign.
\<close>

fun set_vch_loop :: "byte list \<Rightarrow> nat \<Rightarrow> i64 \<Rightarrow> i64 res" where
  "set_vch_loop [] i result = Inr result"
| "set_vch_loop (b # bs) i result =
     (if 64 \<le> 8 * i then Inl ShiftRange
      else set_vch_loop bs (Suc i) (result OR push_bit (8 * i) (ucast b)))"

definition set_vch :: "byte list \<Rightarrow> i64 res" where
  "set_vch vch =
     (if vch = [] then Inr 0
      else rbind (set_vch_loop vch 0 0) (\<lambda>result.
        if last vch AND 0x80 \<noteq> 0
        then Inr (- (result AND NOT (push_bit (8 * (length vch - 1)) 0x80)))
        else Inr result))"

definition CScriptNum_of_vch :: "byte list \<Rightarrow> bool \<Rightarrow> nat \<Rightarrow> CScriptNum res" where
  "CScriptNum_of_vch vch fRequireMinimal nMaxNumSize =
     (if nMaxNumSize < length vch then Inl (Thrown ''script number overflow'')
      else if fRequireMinimal \<and> 0 < length vch \<and> last vch AND 0x7f = 0 \<and>
              (length vch \<le> 1 \<or> vch ! (length vch - 2) AND 0x80 = 0)
      then Inl (Thrown ''non-minimally encoded script number'')
      else rbind (set_vch vch) (\<lambda>v. Inr \<lparr>m_value = v\<rparr>))"

section \<open>Comparison and arithmetic\<close>

definition num_eq :: "CScriptNum \<Rightarrow> i64 \<Rightarrow> bool" where "num_eq a rhs \<longleftrightarrow> m_value a = rhs"
definition num_ne :: "CScriptNum \<Rightarrow> i64 \<Rightarrow> bool" where "num_ne a rhs \<longleftrightarrow> m_value a \<noteq> rhs"
definition num_le :: "CScriptNum \<Rightarrow> i64 \<Rightarrow> bool" where "num_le a rhs \<longleftrightarrow> sint (m_value a) \<le> sint rhs"
definition num_lt :: "CScriptNum \<Rightarrow> i64 \<Rightarrow> bool" where "num_lt a rhs \<longleftrightarrow> sint (m_value a) < sint rhs"
definition num_ge :: "CScriptNum \<Rightarrow> i64 \<Rightarrow> bool" where "num_ge a rhs \<longleftrightarrow> sint (m_value a) \<ge> sint rhs"
definition num_gt :: "CScriptNum \<Rightarrow> i64 \<Rightarrow> bool" where "num_gt a rhs \<longleftrightarrow> sint (m_value a) > sint rhs"

text \<open>\<open>m_value + rhs\<close> on \<open>int64_t\<close>: defined only when the sum fits.\<close>

definition add64 :: "i64 \<Rightarrow> i64 \<Rightarrow> i64 res" where
  "add64 a b = (if fits_i64 (sint a + sint b) then Inr (a + b) else Inl SignedOverflow)"

definition sub64 :: "i64 \<Rightarrow> i64 \<Rightarrow> i64 res" where
  "sub64 a b = (if fits_i64 (sint a - sint b) then Inr (a - b) else Inl SignedOverflow)"

definition neg64 :: "i64 \<Rightarrow> i64 res" where
  "neg64 a = (if fits_i64 (- sint a) then Inr (- a) else Inl SignedOverflow)"

definition num_add :: "CScriptNum \<Rightarrow> i64 \<Rightarrow> CScriptNum res" where
  "num_add a rhs = rbind (add64 (m_value a) rhs) (\<lambda>v. Inr (CScriptNum_of_int64 v))"

definition num_sub :: "CScriptNum \<Rightarrow> i64 \<Rightarrow> CScriptNum res" where
  "num_sub a rhs = rbind (sub64 (m_value a) rhs) (\<lambda>v. Inr (CScriptNum_of_int64 v))"

definition num_and :: "CScriptNum \<Rightarrow> i64 \<Rightarrow> CScriptNum" where
  "num_and a rhs = CScriptNum_of_int64 (m_value a AND rhs)"

definition num_neg :: "CScriptNum \<Rightarrow> CScriptNum res" where
  "num_neg a = cxx_assert (sint (m_value a) \<noteq> i64_min)
     (rbind (neg64 (m_value a)) (\<lambda>v. Inr (CScriptNum_of_int64 v)))"

definition num_assign :: "CScriptNum \<Rightarrow> i64 \<Rightarrow> CScriptNum" where
  "num_assign a rhs = a\<lparr>m_value := rhs\<rparr>"

definition num_add_assign :: "CScriptNum \<Rightarrow> i64 \<Rightarrow> CScriptNum res" where
  "num_add_assign a rhs = cxx_assert
     (sint rhs = 0 \<or> (sint rhs > 0 \<and> sint (m_value a) \<le> i64_max - sint rhs) \<or>
                     (sint rhs < 0 \<and> sint (m_value a) \<ge> i64_min - sint rhs))
     (rbind (add64 (m_value a) rhs) (\<lambda>v. Inr (a\<lparr>m_value := v\<rparr>)))"

definition num_sub_assign :: "CScriptNum \<Rightarrow> i64 \<Rightarrow> CScriptNum res" where
  "num_sub_assign a rhs = cxx_assert
     (sint rhs = 0 \<or> (sint rhs > 0 \<and> sint (m_value a) \<ge> i64_min + sint rhs) \<or>
                     (sint rhs < 0 \<and> sint (m_value a) \<le> i64_max + sint rhs))
     (rbind (sub64 (m_value a) rhs) (\<lambda>v. Inr (a\<lparr>m_value := v\<rparr>)))"

definition num_and_assign :: "CScriptNum \<Rightarrow> i64 \<Rightarrow> CScriptNum" where
  "num_and_assign a rhs = a\<lparr>m_value := m_value a AND rhs\<rparr>"

definition getint :: "CScriptNum \<Rightarrow> int" where
  "getint a = (if i32_max < sint (m_value a) then i32_max
               else if sint (m_value a) < i32_min then i32_min
               else sint (m_value a))"

section \<open>Serialization\<close>

text \<open>The loop \<open>while (absvalue) { push_back(absvalue & 0xff); absvalue >>= 8; }\<close>.\<close>

function abs_bytes :: "u64 \<Rightarrow> byte list" where
  "abs_bytes absvalue =
     (if absvalue = 0 then [] else ucast (absvalue AND 0xff) # abs_bytes (drop_bit 8 absvalue))"
  by pat_completeness auto
termination
  by (relation "measure unat") (simp_all only: in_measure unat_shift8, simp_all add: unat_gt_0)

declare abs_bytes.simps [simp del]

definition serialize :: "i64 \<Rightarrow> byte list res" where
  "serialize value =
     (if value = 0 then Inr []
      else let neg = sint value < 0 in
        rbind (if neg then neg64 value else Inr value) (\<lambda>absvalue.
          let result = abs_bytes absvalue in
          if last result AND 0x80 \<noteq> 0
          then Inr (result @ [if neg then 0x80 else 0])
          else if neg then Inr (butlast result @ [last result OR 0x80])
          else Inr result))"

definition getvch :: "CScriptNum \<Rightarrow> byte list res" where
  "getvch a = serialize (m_value a)"

section \<open>What the bytes mean\<close>

definition vch_value :: "byte list \<Rightarrow> int" where
  "vch_value vch =
     (if vch = [] then 0
      else let t = 128 * 256 ^ (length vch - 1) in
        if 128 \<le> unat (last vch) then - (int (le_nat vch) - t) else int (le_nat vch))"

definition minimal_vch :: "byte list \<Rightarrow> bool" where
  "minimal_vch vch \<longleftrightarrow> vch = [] \<or> last vch AND 0x7f \<noteq> 0 \<or>
     (1 < length vch \<and> vch ! (length vch - 2) AND 0x80 \<noteq> 0)"

lemma and_7f_eq_0: "(b :: byte) AND 0x7f = 0 \<longleftrightarrow> unat b = 0 \<or> unat b = 128"
proof -
  have "b AND 0x7f = 0 \<longleftrightarrow> unat b mod 128 = 0"
    by (simp add: byte_eq_iff unat_and_7f)
  moreover have "unat b mod 128 = 0 \<longleftrightarrow> unat b = 0 \<or> unat b = 128"
    using unat_byte_less [of b] by presburger
  ultimately show ?thesis by simp
qed

lemma set_vch_loop_ok:
  "unat r < 2 ^ (8 * i) \<Longrightarrow> i + length bs \<le> 8 \<Longrightarrow>
   \<exists>r'. set_vch_loop bs i r = Inr r' \<and> unat r' = unat r + 256 ^ i * le_nat bs"
proof (induction bs arbitrary: i r)
  case (Cons b bs)
  let ?r = "r OR push_bit (8 * i) (ucast b)"
  have u: "unat ?r = unat r + 256 ^ i * unat b"
    using Cons.prems by (subst or_shifted_byte) (simp_all add: power_mult)
  have "unat ?r < 2 ^ (8 * Suc i)"
  proof -
    have "unat r + 256 ^ i * unat b < 256 ^ i + 256 ^ i * 255"
      using Cons.prems(1) unat_byte_le [of b]
      by (intro add_less_le_mono mult_left_mono) (simp_all add: power_mult)
    then have "unat ?r < 256 ^ Suc i" by (simp add: u)
    then show ?thesis by (simp only: pow256)
  qed
  then obtain r' where "set_vch_loop bs (Suc i) ?r = Inr r'"
      "unat r' = unat ?r + 256 ^ Suc i * le_nat bs"
    using Cons.IH [of ?r "Suc i"] Cons.prems(2) by auto
  then show ?case using Cons.prems(2) u by (simp add: algebra_simps)
qed simp

lemma set_vch_loop_long: "i < 8 \<Longrightarrow> 8 < i + length bs \<Longrightarrow> set_vch_loop bs i r = Inl ShiftRange"
proof (induction bs arbitrary: i r)
  case (Cons b bs)
  show ?case
  proof (cases "Suc i < 8")
    case True
    then show ?thesis using Cons by simp
  next
    case False
    with Cons.prems obtain a as where "bs = a # as" by (cases bs) auto
    then show ?thesis using False Cons.prems(1) by simp
  qed
qed simp

lemma set_vch_long: "8 < length vch \<Longrightarrow> set_vch vch = Inl ShiftRange"
  by (auto simp: set_vch_def set_vch_loop_long)

lemma le_nat_top_bit:
  assumes "bs \<noteq> []" "128 \<le> unat (last bs)"
  shows "bit (le_nat bs) (8 * (length bs - 1) + 7)"
proof -
  let ?k = "8 * (length bs - 1)"
  have low: "le_nat (butlast bs) < 2 ^ ?k"
    using le_nat_less [of "butlast bs"] by (simp add: pow256)
  have "le_nat bs div 2 ^ ?k = unat (last bs)"
    using low assms(1) by (subst le_nat_snoc) (simp_all add: pow256)
  then have "le_nat bs div 2 ^ (?k + 7) = unat (last bs) div 128"
    by (simp add: power_add div_mult2_eq)
  also have "\<dots> = 1" using assms(2) unat_byte_less [of "last bs"] by (intro div_nat_eqI) simp_all
  finally show ?thesis by (simp add: bit_iff_odd)
qed

lemma le_nat_less_i64: "length bs \<le> 8 \<Longrightarrow> bs \<noteq> [] \<Longrightarrow> unat (last bs) < 128 \<Longrightarrow> le_nat bs < 2 ^ 63"
proof -
  assume a: "length bs \<le> 8" "bs \<noteq> []" "unat (last bs) < 128"
  let ?m = "256 ^ (length bs - 1) :: nat"
  have "?m * unat (last bs) \<le> ?m * 127" using a(3) by (intro mult_left_mono) simp_all
  moreover have "le_nat (butlast bs) < ?m" using le_nat_less [of "butlast bs"] by simp
  ultimately have "le_nat bs < ?m + ?m * 127"
    using le_nat_snoc [OF a(2)] by linarith
  also have "\<dots> = 128 * ?m" by simp
  also have "\<dots> \<le> 128 * 256 ^ 7" using a(1) by (intro mult_left_mono power_increasing) simp_all
  finally show ?thesis by simp
qed

lemma le_nat_clear_top_less:
  assumes "length bs \<le> 8" "bs \<noteq> []" "128 \<le> unat (last bs)"
  shows "128 * 256 ^ (length bs - 1) \<le> le_nat bs \<and>
         le_nat bs - 128 * 256 ^ (length bs - 1) < 2 ^ 63"
proof -
  let ?m = "256 ^ (length bs - 1) :: nat"
  have e: "le_nat bs = le_nat (butlast bs) + ?m * unat (last bs)"
    using assms(2) by (rule le_nat_snoc)
  have l: "le_nat (butlast bs) < ?m" using le_nat_less [of "butlast bs"] by simp
  have m1: "?m * 128 \<le> ?m * unat (last bs)" using assms(3) by (intro mult_left_mono) simp_all
  have m2: "?m * unat (last bs) \<le> ?m * 255" by (intro mult_left_mono) simp_all
  have "?m \<le> 256 ^ 7" using assms(1) by (intro power_increasing) simp_all
  then have m3: "128 * ?m \<le> 2 ^ 63" by simp
  show ?thesis using e l m1 m2 m3 by (intro conjI; linarith)
qed

lemma set_vch_value:
  assumes "length vch \<le> 8"
  shows "\<exists>w. set_vch vch = Inr w \<and> sint w = vch_value vch"
proof (cases "vch = []")
  case False
  let ?k = "8 * (length vch - 1)"
  obtain r where r: "set_vch_loop vch 0 0 = Inr r" "unat r = le_nat vch"
    using set_vch_loop_ok [of 0 0 vch] assms by auto
  have s80: "push_bit ?k 0x80 = push_bit (?k + 7) (1::i64)"
    by (simp add: push_bit_eq_mult power_add)
  show ?thesis
  proof (cases "128 \<le> unat (last vch)")
    case True
    let ?c = "r AND NOT (push_bit (?k + 7) 1)"
    have "bit r (?k + 7)"
    proof -
      have "bit (unat r) (?k + 7)" using le_nat_top_bit [OF False True] r(2) by simp
      then show ?thesis by (simp add: bit_unsigned_iff)
    qed
    then have c: "unat ?c + 128 * 256 ^ (length vch - 1) = le_nat vch"
    proof -
      have "128 * 256 ^ (length vch - 1) = (2::nat) ^ (?k + 7)" by (simp add: power_add pow256)
      then show ?thesis using unat_clear_bit [OF \<open>bit r (?k + 7)\<close>] r(2) by simp
    qed
    then have lt: "unat ?c < 2 ^ 63"
      using le_nat_clear_top_less [OF assms False True] by linarith
    have sc: "sint ?c = int (le_nat vch) - 128 * 256 ^ (length vch - 1)"
      using sint_eq_unat_i64 [OF lt] arg_cong [OF c, of int] by simp
    have "fits_i64 (- sint ?c)" using sint_small_range [OF lt] unfolding i64_bounds by simp
    then have "sint (- ?c) = vch_value vch"
      using False True sc by (simp add: sint_neg_fits vch_value_def Let_def)
    then show ?thesis using False True r(1) s80
      by (simp add: set_vch_def bit_byte7)
  next
    case ge: False
    then have "sint r = int (le_nat vch)"
      using le_nat_less_i64 [OF assms False] r(2) by (subst sint_eq_unat_i64) simp_all
    then show ?thesis using False ge r(1) bit_byte7 [of "last vch"]
      by (simp add: set_vch_def vch_value_def)
  qed
qed (simp add: set_vch_def vch_value_def)

section \<open>Serialization\<close>

lemma le_nat_abs_bytes: "le_nat (abs_bytes w) = unat w"
proof (induction w rule: abs_bytes.induct)
  case (1 w)
  then show ?case
    by (subst abs_bytes.simps) (simp add: unat_low_byte unat_shift8)
qed

lemma abs_bytes_0 [simp]: "abs_bytes 0 = []"
  by (simp add: abs_bytes.simps)

lemma abs_bytes_unique:
  "le_nat bs = unat w \<Longrightarrow> bs = [] \<or> last bs \<noteq> 0 \<Longrightarrow> abs_bytes w = bs"
proof (induction bs arbitrary: w)
  case Nil
  then have "w = 0" by (simp add: unat_0_iff)
  then show ?case by simp
next
  case (Cons b bs)
  have pos: "w \<noteq> 0"
  proof
    assume "w = 0"
    then have "le_nat (b # bs) = 0" using Cons.prems(1) by simp
    moreover have "0 < le_nat (b # bs)"
      using Cons.prems(2) le_nat_snoc [of "b # bs"] by (auto simp: unat_gt_0)
    ultimately show False by simp
  qed
  have "unat w = unat b + 256 * le_nat bs" using Cons.prems(1) by simp
  then have d: "unat (drop_bit 8 w) = le_nat bs" and m: "unat w mod 256 = unat b"
    by (simp_all only: unat_shift8) (simp_all add: div_eq_0_iff)
  have "abs_bytes (drop_bit 8 w) = bs"
    using Cons.prems(2) d by (intro Cons.IH) (auto split: if_splits)
  moreover have "ucast (w AND 0xff) = b" by (simp add: byte_eq_iff unat_low_byte m)
  ultimately show ?case using pos by (subst abs_bytes.simps) simp
qed

lemma last_abs_bytes: "w \<noteq> 0 \<Longrightarrow> abs_bytes w \<noteq> [] \<and> last (abs_bytes w) \<noteq> 0"
proof (induction w rule: abs_bytes.induct)
  case (1 w)
  show ?case
  proof (cases "drop_bit 8 w = 0")
    case True
    then have "unat w div 256 = 0" by (metis unat_0 unat_shift8)
    then have "unat w < 256" by (simp add: div_eq_0_iff)
    then have "ucast (w AND 0xff) \<noteq> (0::byte)"
      using "1.prems" by (simp add: byte_eq_iff unat_low_byte unat_0_iff)
    then show ?thesis using "1.prems" True by (subst abs_bytes.simps, subst (2) abs_bytes.simps) simp
  next
    case False
    then show ?thesis using "1.IH" "1.prems"
      by (subst abs_bytes.simps, subst (2) abs_bytes.simps) simp
  qed
qed


lemma length_abs_bytes: "length (abs_bytes w) \<le> 8"
proof (cases "w = 0")
  case False
  let ?bs = "abs_bytes w"
  have ne: "?bs \<noteq> []" "last ?bs \<noteq> 0" using last_abs_bytes [OF False] by auto
  have "256 ^ (length ?bs - 1) \<le> 256 ^ (length ?bs - 1) * unat (last ?bs)"
    using ne(2) by (simp add: Suc_le_eq unat_gt_0)
  also have "\<dots> \<le> le_nat ?bs" using le_nat_snoc [OF ne(1)] by simp
  also have "\<dots> < 256 ^ 8" using unsigned_less [of w] by (simp add: le_nat_abs_bytes)
  finally have "length ?bs - 1 < 8" by (rule power_less_imp_less_exp [rotated]) simp
  then show ?thesis by simp
qed simp

text \<open>
  Magnitude and sign, put back together: what the last lines of \<open>serialize\<close> do with the
  magnitude bytes.
\<close>

definition sign_bytes :: "bool \<Rightarrow> byte list \<Rightarrow> byte list" where
  "sign_bytes neg result =
     (if last result AND 0x80 \<noteq> 0 then result @ [if neg then 0x80 else 0]
      else if neg then butlast result @ [last result OR 0x80]
      else result)"

lemma sign_bytes_value:
  assumes "bs \<noteq> []"
  shows "vch_value (sign_bytes neg bs) = (if neg then - int (le_nat bs) else int (le_nat bs))"
proof (cases "last bs AND 0x80 \<noteq> 0")
  case True
  then show ?thesis by (simp add: sign_bytes_def vch_value_def Let_def le_nat_append)
next
  case False
  then have l: "unat (last bs) < 128" using bit_byte7 by (meson not_le)
  have o: "unat (last bs OR 0x80) = unat (last bs) + 128" by (rule unat_or_80 [OF l])
  have "le_nat (butlast bs @ [last bs OR 0x80]) = le_nat bs + 128 * 256 ^ (length bs - 1)"
    using le_nat_snoc [OF assms] o by (simp add: le_nat_append algebra_simps)
  then show ?thesis using False l o assms
    by (simp add: sign_bytes_def vch_value_def Let_def)
qed

lemma sign_bytes_minimal:
  assumes "bs \<noteq> []" "last bs \<noteq> 0"
  shows "minimal_vch (sign_bytes neg bs)"
proof (cases "last bs AND 0x80 \<noteq> 0")
  case True
  have "(bs @ [x]) ! (length bs - 1) = last bs" for x :: byte
    using assms(1) by (simp add: nth_append last_conv_nth)
  with True assms(1) show ?thesis
    by (auto simp: sign_bytes_def minimal_vch_def Suc_le_eq)
next
  case False
  then have l: "unat (last bs) < 128" using bit_byte7 by (meson not_le)
  then have "unat (last bs OR 0x80) = unat (last bs) + 128" by (rule unat_or_80)
  moreover have "unat (last bs) \<noteq> 0" using assms(2) by (simp add: unat_0_iff)
  moreover have "last bs \<noteq> 0" by (rule assms(2))
  ultimately have "(last bs OR 0x80) AND 0x7f \<noteq> 0" "last bs AND 0x7f \<noteq> 0"
    using l by (simp_all add: and_7f_eq_0)
  then show ?thesis using False by (simp add: sign_bytes_def minimal_vch_def)
qed

lemma serialize_eq:
  assumes "sint v \<noteq> i64_min"
  shows "serialize v = Inr (if v = 0 then []
           else sign_bytes (sint v < 0) (abs_bytes (if sint v < 0 then - v else v)))"
proof -
  have "fits_i64 (- sint v)"
    using assms sint_i64_range [of v] by (auto simp: i64_bounds)
  then show ?thesis by (simp add: serialize_def neg64_def Let_def sign_bytes_def)
qed

lemma magnitude:
  assumes "sint (v :: i64) \<noteq> i64_min"
  shows "int (unat (if sint v < 0 then - v else v)) = \<bar>sint v\<bar>"
proof (cases "sint v < 0")
  case True
  have "fits_i64 (- sint v)"
    using assms sint_i64_range [of v] by (auto simp: i64_bounds)
  then have "sint (- v) = - sint v" by (rule sint_neg_fits)
  then show ?thesis using True unat_eq_sint_i64 [of "- v"] by simp
next
  case False
  then show ?thesis using unat_eq_sint_i64 [of v] by simp
qed

lemma magnitude_less:
  assumes "sint (v :: i64) \<noteq> i64_min"
  shows "unat (if sint v < 0 then - v else v) < 2 ^ 63"
proof -
  have "\<bar>sint v\<bar> < 2 ^ 63" using assms sint_i64_range [of v] by (auto simp: i64_bounds)
  then have "int (unat (if sint v < 0 then - v else v)) < int (2 ^ 63)"
    unfolding magnitude [OF assms] by simp
  then show ?thesis by (simp only: of_nat_less_iff)
qed

lemma abs_bytes_top:
  assumes "unat w < 2 ^ 63" "last (abs_bytes w) AND 0x80 \<noteq> 0"
  shows "length (abs_bytes w) < 8"
proof (rule ccontr)
  let ?bs = "abs_bytes w"
  assume "\<not> length ?bs < 8"
  then have l: "length ?bs = 8" using length_abs_bytes [of w] by simp
  then have "?bs \<noteq> []" by auto
  then have "256 ^ 7 * unat (last ?bs) \<le> unat w"
    using le_nat_snoc [of ?bs] l by (simp add: le_nat_abs_bytes)
  moreover have "128 \<le> unat (last ?bs)" using assms(2) bit_byte7 by blast
  ultimately show False using assms(1) by simp
qed

lemma serialize_spec:
  assumes "sint v \<noteq> i64_min" "serialize v = Inr bs"
  shows "vch_value bs = sint v" "minimal_vch bs" "length bs \<le> 8"
proof -
  let ?m = "if sint v < 0 then - v else v"
  show v: "vch_value bs = sint v"
  proof (cases "v = 0")
    case False
    then have "?m \<noteq> 0" by simp
    then show ?thesis
      using assms False magnitude [OF assms(1)] sign_bytes_value [of "abs_bytes ?m" "sint v < 0"]
        last_abs_bytes [of ?m]
      by (auto simp: serialize_eq le_nat_abs_bytes abs_if split: if_splits)
  qed (use assms in \<open>simp add: serialize_eq vch_value_def\<close>)
  show "minimal_vch bs"
  proof (cases "v = 0")
    case False
    then have "?m \<noteq> 0" by simp
    then show ?thesis
      using assms False sign_bytes_minimal [of "abs_bytes ?m" "sint v < 0"] last_abs_bytes [of ?m]
      by (auto simp: serialize_eq split: if_splits)
  qed (use assms in \<open>simp add: serialize_eq minimal_vch_def\<close>)
  show "length bs \<le> 8"
    using assms length_abs_bytes [of ?m] abs_bytes_top [of ?m] magnitude_less [OF assms(1)]
      last_abs_bytes [of ?m]
    by (auto simp: serialize_eq sign_bytes_def split: if_splits)
qed

text \<open>The magnitude bytes of a minimal encoding, sign bit removed.\<close>

definition unsign_bytes :: "byte list \<Rightarrow> byte list" where
  "unsign_bytes vch =
     (if last vch AND 0x7f = 0 then butlast vch else butlast vch @ [last vch AND 0x7f])"

lemma le_nat_unsign:
  assumes "vch \<noteq> []"
  shows "le_nat (unsign_bytes vch) =
         le_nat (butlast vch) + 256 ^ (length vch - 1) * (unat (last vch) mod 128)"
proof (cases "last vch AND 0x7f = 0")
  case True
  then have "unat (last vch) mod 128 = 0" using and_7f_eq_0 [of "last vch"] by auto
  then show ?thesis using True by (simp add: unsign_bytes_def)
next
  case False
  then show ?thesis by (simp add: unsign_bytes_def le_nat_append unat_and_7f)
qed

lemma le_nat_unsign_less:
  assumes "vch \<noteq> []" "length vch \<le> 8"
  shows "le_nat (unsign_bytes vch) < 2 ^ 63"
proof -
  let ?m = "256 ^ (length vch - 1) :: nat"
  have "?m * (unat (last vch) mod 128) \<le> ?m * 127" by (intro mult_left_mono) simp_all
  moreover have "le_nat (butlast vch) < ?m" using le_nat_less [of "butlast vch"] by simp
  moreover have "128 * ?m \<le> 128 * 256 ^ 7"
    using assms(2) by (intro mult_left_mono power_increasing) simp_all
  moreover have "(128::nat) * 256 ^ 7 = 2 ^ 63" by simp
  ultimately show ?thesis using le_nat_unsign [OF assms(1)] by linarith
qed

lemma unsign_bytes_value:
  assumes "vch \<noteq> []"
  shows "\<bar>vch_value vch\<bar> = int (le_nat (unsign_bytes vch))"
    and "0 < le_nat (unsign_bytes vch) \<Longrightarrow> vch_value vch < 0 \<longleftrightarrow> 128 \<le> unat (last vch)"
proof -
  let ?l = "last vch" and ?m = "256 ^ (length vch - 1) :: nat"
  have v: "le_nat vch = le_nat (butlast vch) + ?m * unat ?l" using assms by (rule le_nat_snoc)
  note u = le_nat_unsign [OF assms]
  have e: "vch_value vch = (if 128 \<le> unat ?l then - int (le_nat (unsign_bytes vch))
                           else int (le_nat (unsign_bytes vch)))"
  proof (cases "128 \<le> unat ?l")
    case True
    then obtain k where k: "unat ?l = 128 + k" using le_Suc_ex by blast
    then have "unat ?l mod 128 = k" unfolding unat_byte_mod128 by simp
    then have "le_nat vch = le_nat (unsign_bytes vch) + 128 * ?m"
      using k unfolding u v by (simp add: algebra_simps)
    then show ?thesis using True assms by (simp add: vch_value_def Let_def)
  next
    case False
    then show ?thesis using u v assms by (simp add: vch_value_def Let_def unat_byte_mod128)
  qed
  show "\<bar>vch_value vch\<bar> = int (le_nat (unsign_bytes vch))" unfolding e by simp
  show "0 < le_nat (unsign_bytes vch) \<Longrightarrow> vch_value vch < 0 \<longleftrightarrow> 128 \<le> unat ?l"
    unfolding e by simp
qed

lemma unsign_bytes_nonempty:
  assumes "minimal_vch vch" "vch \<noteq> []"
  shows "unsign_bytes vch \<noteq> []" "last (unsign_bytes vch) \<noteq> 0"
    "last vch AND 0x7f = 0 \<Longrightarrow> last (unsign_bytes vch) AND 0x80 \<noteq> 0"
proof -
  have b: "butlast vch \<noteq> [] \<and> last (butlast vch) = vch ! (length vch - 2)" if "1 < length vch"
  proof -
    have "length (butlast vch) \<noteq> 0" using that by simp
    then have "butlast vch \<noteq> []" by (simp only: length_0_conv not_False_eq_True)
    then show ?thesis using that by (simp add: last_conv_nth nth_butlast numeral_2_eq_2)
  qed
  show "unsign_bytes vch \<noteq> []" "last (unsign_bytes vch) \<noteq> 0"
    "last vch AND 0x7f = 0 \<Longrightarrow> last (unsign_bytes vch) AND 0x80 \<noteq> 0"
    using assms b by (auto simp: unsign_bytes_def minimal_vch_def)
qed

lemma sign_unsign_bytes:
  assumes "minimal_vch vch" "vch \<noteq> []"
  shows "sign_bytes (128 \<le> unat (last vch)) (unsign_bytes vch) = vch"
proof (cases "last vch AND 0x7f = 0")
  case True
  then have "unat (last vch) = 0 \<or> unat (last vch) = 128" by (simp only: and_7f_eq_0)
  then have "last vch = (if 128 \<le> unat (last vch) then 0x80 else 0)"
    by (auto simp: byte_eq_iff)
  then show ?thesis using True unsign_bytes_nonempty(3) [OF assms True] assms(2)
    by (simp add: sign_bytes_def unsign_bytes_def)
next
  case False
  have l: "unat (last vch AND 0x7f) < 128" by (simp add: unat_and_7f)
  then have n: "(last vch AND 0x7f) AND 0x80 = 0" using bit_byte7 by (meson not_le)
  show ?thesis
  proof (cases "128 \<le> unat (last vch)")
    case True
    have "(last vch AND 0x7f) OR 0x80 = last vch"
      using True unat_byte_less [of "last vch"]
      by (simp add: byte_eq_iff unat_or_80 [OF l] unat_and_7f unat_byte_mod128)
    then show ?thesis using False True n assms(2)
      by (simp add: sign_bytes_def unsign_bytes_def)
  next
    case small: False
    then have "last vch AND 0x7f = last vch" by (simp add: byte_eq_iff unat_and_7f)
    then show ?thesis using False small n assms(2)
      by (simp add: sign_bytes_def unsign_bytes_def)
  qed
qed

lemma serialize_canonical:
  assumes "minimal_vch vch" "set_vch vch = Inr w"
  shows "sint w \<noteq> i64_min" "serialize w = Inr vch"
proof -
  have len: "length vch \<le> 8" using assms(2) set_vch_long [of vch] by (cases "8 < length vch") auto
  then have w: "sint w = vch_value vch" using set_vch_value [OF len] assms(2) by auto
  show min: "sint w \<noteq> i64_min"
  proof (cases "vch = []")
    case False
    have "le_nat (unsign_bytes vch) < 2 ^ 63" using False len by (rule le_nat_unsign_less)
    then show ?thesis using w unsign_bytes_value(1) [OF False] by (auto simp: i64_bounds)
  qed (use w in \<open>simp add: vch_value_def i64_bounds\<close>)
  show "serialize w = Inr vch"
  proof (cases "vch = []")
    case True
    then show ?thesis using assms(2) by (simp add: set_vch_def serialize_def)
  next
    case False
    note ne = unsign_bytes_nonempty [OF assms(1) False]
    let ?u = "unsign_bytes vch"
    have pos: "0 < le_nat ?u" using le_nat_snoc [OF ne(1)] ne(2) by (simp add: unat_gt_0)
    have sgn: "(sint w < 0) = (128 \<le> unat (last vch))"
      using unsign_bytes_value(2) [OF False pos] w by simp
    have m: "unat (if sint w < 0 then - w else w) = le_nat ?u"
      using magnitude [OF min] unsign_bytes_value(1) [OF False] unfolding w by (simp only: of_nat_eq_iff)
    have "abs_bytes (if sint w < 0 then - w else w) = ?u"
      using m ne by (intro abs_bytes_unique) simp_all
    moreover have "w \<noteq> 0" using pos m by auto
    ultimately show ?thesis
      using sign_unsign_bytes [OF assms(1) False] sgn by (simp add: serialize_eq [OF min])
  qed
qed

section \<open>The encoding as a codec\<close>

lemma CScriptNum_of_vch_eq:
  "CScriptNum_of_vch vch m n =
     (if n < length vch then Inl (Thrown ''script number overflow'')
      else if m \<and> \<not> minimal_vch vch then Inl (Thrown ''non-minimally encoded script number'')
      else rbind (set_vch vch) (\<lambda>v. Inr \<lparr>m_value = v\<rparr>))"
  by (auto simp: CScriptNum_of_vch_def minimal_vch_def)

lemma CScriptNum_of_serialized:
  assumes "sint v \<noteq> i64_min" "serialize v = Inr bs" "length bs \<le> n"
  shows "CScriptNum_of_vch bs fRequireMinimal n = Inr \<lparr>m_value = v\<rparr>"
proof -
  note spec = serialize_spec [OF assms(1,2)]
  obtain w where w: "set_vch bs = Inr w" "sint w = vch_value bs"
    using set_vch_value [OF spec(3)] by auto
  have "w = v" using w(2) spec(1) by (simp add: sint_i64_inject)
  then show ?thesis using assms(3) spec(2) w(1) by (simp add: CScriptNum_of_vch_eq)
qed

interpretation num: canonical_codec getvch "\<lambda>vch. CScriptNum_of_vch vch True 8"
  "\<lambda>a. sint (m_value a) \<noteq> i64_min"
proof unfold_locales
  fix a :: CScriptNum assume "sint (m_value a) \<noteq> i64_min"
  note min = this
  obtain bs where bs: "serialize (m_value a) = Inr bs" using serialize_eq [OF min] by blast
  then show "\<exists>e. getvch a = Inr e \<and> CScriptNum_of_vch e True 8 = Inr a"
    using CScriptNum_of_serialized [OF min bs serialize_spec(3) [OF min bs]]
    by (simp add: getvch_def)
next
  fix e a assume "CScriptNum_of_vch e True 8 = Inr a"
  then show "sint (m_value a) \<noteq> i64_min \<and> getvch a = Inr e"
    using serialize_canonical [of e]
    by (auto simp: CScriptNum_of_vch_eq getvch_def rbind_Inr_iff split: if_splits)
qed

lemma abs_vch_value_less:
  assumes "vch \<noteq> []"
  shows "\<bar>vch_value vch\<bar> < 128 * 256 ^ (length vch - 1)"
proof -
  let ?m = "256 ^ (length vch - 1) :: nat"
  have "?m * (unat (last vch) mod 128) \<le> ?m * 127" by (intro mult_left_mono) simp_all
  moreover have "le_nat (butlast vch) < ?m" using le_nat_less [of "butlast vch"] by simp
  ultimately have "le_nat (unsign_bytes vch) < 128 * ?m"
    using le_nat_unsign [OF assms] by linarith
  then have "int (le_nat (unsign_bytes vch)) < int (128 * ?m)" by (simp only: of_nat_less_iff)
  then show ?thesis using unsign_bytes_value(1) [OF assms] by simp
qed

lemma abs_vch_value_ge:
  assumes "minimal_vch vch" "2 \<le> length vch"
  shows "128 * 256 ^ (length vch - 2) \<le> \<bar>vch_value vch\<bar>"
proof -
  have ne: "vch \<noteq> []" using assms(2) by auto
  note u = unsign_bytes_nonempty [OF assms(1) ne]
  let ?u = "unsign_bytes vch"
  have "128 * 256 ^ (length vch - 2) \<le> le_nat ?u"
  proof (cases "last vch AND 0x7f = 0")
    case True
    then have "128 \<le> unat (last ?u)" using u(3) bit_byte7 by blast
    moreover have "length ?u - 1 = length vch - 2" using True by (simp add: unsign_bytes_def)
    ultimately show ?thesis using le_nat_snoc [OF u(1)]
      by (metis mult.commute mult_le_mono2 trans_le_add2)
  next
    case False
    then have "length ?u - 1 = length vch - 1" using ne by (simp add: unsign_bytes_def)
    then have "256 ^ (length vch - 1) * 1 \<le> le_nat ?u"
      using le_nat_snoc [OF u(1)] u(2) by (metis Suc_leI mult_le_mono2 One_nat_def trans_le_add2 unat_gt_0)
    moreover have "128 * 256 ^ (length vch - 2) \<le> (256::nat) ^ (length vch - 1)"
    proof -
      have "length vch - 1 = Suc (length vch - 2)" using assms(2) by simp
      then show ?thesis by simp
    qed
    ultimately show ?thesis by simp
  qed
  then have "int (128 * 256 ^ (length vch - 2)) \<le> int (le_nat ?u)" by (simp only: of_nat_le_iff)
  then show ?thesis using unsign_bytes_value(1) [OF ne] by simp
qed

section \<open>Properties\<close>

text \<open>
  C4: every \<open>CScriptNum\<close> but the one holding \<open>INT64_MIN\<close> is read back unchanged from its
  own bytes (\<open>getvch\<close>), whether or not the reader insists on minimal encodings.
\<close>

theorem num_roundtrip:
  assumes "sint (m_value a) \<noteq> i64_min"
  shows "rbind (getvch a) (\<lambda>vch. CScriptNum_of_vch vch fRequireMinimal 8) = Inr a"
proof -
  obtain bs where bs: "serialize (m_value a) = Inr bs" using serialize_eq [OF assms] by blast
  then show ?thesis
    using CScriptNum_of_serialized [OF assms bs serialize_spec(3) [OF assms bs]]
    by (simp add: getvch_def)
qed

theorem num_roundtrip_witness:
  "sint (m_value \<lparr>m_value = -255\<rparr>) \<noteq> i64_min \<and>
   rbind (getvch \<lparr>m_value = -255\<rparr>) (\<lambda>vch. CScriptNum_of_vch vch True 8) = Inr \<lparr>m_value = -255\<rparr>"
proof -
  have h: "sint (m_value \<lparr>m_value = -255\<rparr>) \<noteq> i64_min" by (simp add: i64_min_def)
  then show ?thesis using num_roundtrip [OF h] by blast
qed

text \<open>
  C5: encodings are canonical. A byte vector the minimal-encoding constructor accepts, at
  whatever size limit, is exactly the one \<open>getvch\<close> writes for the number read.
\<close>

theorem num_canonical:
  assumes "CScriptNum_of_vch vch True n = Inr a"
  shows "getvch a = Inr vch"
  using assms serialize_canonical(2) [of vch]
  by (auto simp: CScriptNum_of_vch_eq getvch_def rbind_Inr_iff split: if_splits)

theorem num_canonical_witness:
  "CScriptNum_of_vch [0xff, 0x80] True 4 = Inr \<lparr>m_value = -255\<rparr> \<and>
   getvch \<lparr>m_value = -255\<rparr> = Inr [0xff, 0x80]"
proof -
  have h: "CScriptNum_of_vch [0xff, 0x80] True 4 = Inr \<lparr>m_value = -255\<rparr>" by code_simp
  then show ?thesis using num_canonical [OF h] by blast
qed

text \<open>
  C35: The operand range. With the default limit of 4 bytes, exactly the values strictly
  between \<open>-2^31\<close> and \<open>2^31\<close> are accepted back; every other value is refused with the
  overflow error, and never silently changed. The least \<open>int64_t\<close>, whose serialization is
  undefined, is excepted.
\<close>

theorem num_operand_range:
  assumes "sint v \<noteq> i64_min"
  shows "rbind (serialize v) (\<lambda>vch. CScriptNum_of_vch vch fRequireMinimal nDefaultMaxNumSize) =
         (if \<bar>sint v\<bar> < 2 ^ 31 then Inr \<lparr>m_value = v\<rparr>
          else Inl (Thrown ''script number overflow''))"
proof -
  obtain bs where bs: "serialize v = Inr bs" using serialize_eq [OF assms] by blast
  note spec = serialize_spec [OF assms bs]
  have "length bs \<le> 4 \<longleftrightarrow> \<bar>sint v\<bar> < 2 ^ 31"
  proof
    assume l: "length bs \<le> 4"
    have "(256::int) ^ (length bs - 1) \<le> 256 ^ 3" using l by (intro power_increasing) simp_all
    then show "\<bar>sint v\<bar> < 2 ^ 31"
      using abs_vch_value_less [of bs] spec(1) by (cases "bs = []") (auto simp: vch_value_def)
  next
    assume v: "\<bar>sint v\<bar> < 2 ^ 31"
    show "length bs \<le> 4"
    proof (rule ccontr)
      assume l: "\<not> length bs \<le> 4"
      then have "(256::int) ^ 3 \<le> 256 ^ (length bs - 2)" by (intro power_increasing) simp_all
      then show False using abs_vch_value_ge [OF spec(2)] l v spec(1) by simp
    qed
  qed
  moreover have "4 < length bs \<Longrightarrow> CScriptNum_of_vch bs fRequireMinimal 4 =
      Inl (Thrown ''script number overflow'')"
    by (simp add: CScriptNum_of_vch_eq)
  ultimately show ?thesis using bs CScriptNum_of_serialized [OF assms bs, of 4]
    by (cases "length bs \<le> 4") (simp_all add: nDefaultMaxNumSize_def)
qed

theorem num_operand_range_witness:
  "sint (2147483648 :: i64) \<noteq> i64_min \<and>
   rbind (serialize 2147483648) (\<lambda>vch. CScriptNum_of_vch vch False nDefaultMaxNumSize) =
     Inl (Thrown ''script number overflow'')"
proof -
  have h: "sint (2147483648 :: i64) \<noteq> i64_min" by (simp add: i64_min_def)
  then show ?thesis using num_operand_range [OF h, of False] by simp
qed

text \<open>
  The compound assignments are exact or stop. The assertions of \<open>operator+=\<close> and
  \<open>operator-=\<close> hold precisely when the mathematical result fits \<open>int64_t\<close>, so the undefined
  overflow behind them is never reached.
\<close>

theorem num_assign_ops_exact:
  "num_add_assign a rhs =
     (if fits_i64 (sint (m_value a) + sint rhs)
      then Inr \<lparr>m_value = word_of_int (sint (m_value a) + sint rhs)\<rparr> else Inl AssertFail) \<and>
   num_sub_assign a rhs =
     (if fits_i64 (sint (m_value a) - sint rhs)
      then Inr \<lparr>m_value = word_of_int (sint (m_value a) - sint rhs)\<rparr> else Inl AssertFail)"
proof -
  note r = sint_i64_range [of "m_value a"] sint_i64_range [of rhs]
  have add: "(sint rhs = 0 \<or> (sint rhs > 0 \<and> sint (m_value a) \<le> i64_max - sint rhs) \<or>
       (sint rhs < 0 \<and> sint (m_value a) \<ge> i64_min - sint rhs)) = fits_i64 (sint (m_value a) + sint rhs)"
    using r unfolding fits_i64_def by linarith
  have sub: "(sint rhs = 0 \<or> (sint rhs > 0 \<and> sint (m_value a) \<ge> i64_min + sint rhs) \<or>
       (sint rhs < 0 \<and> sint (m_value a) \<le> i64_max + sint rhs)) = fits_i64 (sint (m_value a) - sint rhs)"
    using r unfolding fits_i64_def by linarith
  show ?thesis
    unfolding num_add_assign_def num_sub_assign_def add sub
    by (cases a) (simp add: add64_def sub64_def cxx_assert_def)
qed

text \<open>
  Arithmetic on operands read from at most 4 bytes is never undefined: sum, difference
  and negation are the exact integers, and \<open>getint\<close> returns the operand unclamped.
\<close>

theorem num_arith_safe:
  assumes "CScriptNum_of_vch va m nDefaultMaxNumSize = Inr a"
    and "CScriptNum_of_vch vb m' nDefaultMaxNumSize = Inr b"
  shows "num_add a (m_value b) = Inr \<lparr>m_value = word_of_int (vch_value va + vch_value vb)\<rparr> \<and>
         num_sub a (m_value b) = Inr \<lparr>m_value = word_of_int (vch_value va - vch_value vb)\<rparr> \<and>
         num_neg a = Inr \<lparr>m_value = word_of_int (- vch_value va)\<rparr> \<and>
         getint a = vch_value va"
proof -
  have op: "sint (m_value x) = vch_value v \<and> \<bar>vch_value v\<bar> < 2 ^ 31"
    if "CScriptNum_of_vch v k nDefaultMaxNumSize = Inr x" for v k x
  proof -
    have l: "length v \<le> 4" and s: "set_vch v = Inr (m_value x)"
      using that by (auto simp: CScriptNum_of_vch_def nDefaultMaxNumSize_def rbind_Inr_iff split: if_splits)
    have "(256::int) ^ (length v - 1) \<le> 256 ^ 3" using l by (intro power_increasing) simp_all
    then have "\<bar>vch_value v\<bar> < 2 ^ 31"
      using abs_vch_value_less [of v] by (cases "v = []") (auto simp: vch_value_def)
    then show ?thesis using set_vch_value [of v] l s by auto
  qed
  note a = op [OF assms(1)] and b = op [OF assms(2)]
  have "fits_i64 (vch_value va + vch_value vb)" "fits_i64 (vch_value va - vch_value vb)"
    "fits_i64 (- vch_value va)" "vch_value va \<noteq> i64_min"
    using a b by (auto simp: i64_bounds)
  moreover have "m_value a = word_of_int (vch_value va)" "m_value b = word_of_int (vch_value vb)"
    using a b word_of_int_sint [of "m_value a"] word_of_int_sint [of "m_value b"] by simp_all
  ultimately show ?thesis using a b
    by (simp add: num_add_def num_sub_def num_neg_def add64_def sub64_def neg64_def
        CScriptNum_of_int64_def getint_def i32_max_def i32_min_def abs_less_iff)
qed

theorem num_arith_safe_witness:
  "num_add \<lparr>m_value = 2147483647\<rparr> (m_value \<lparr>m_value = 1\<rparr>) = Inr \<lparr>m_value = 2147483648\<rparr>"
proof -
  have a: "CScriptNum_of_vch [0xff, 0xff, 0xff, 0x7f] True nDefaultMaxNumSize =
           Inr \<lparr>m_value = 2147483647\<rparr>" by code_simp
  have b: "CScriptNum_of_vch [1] True nDefaultMaxNumSize = Inr \<lparr>m_value = 1\<rparr>" by code_simp
  have "vch_value [0xff, 0xff, 0xff, 0x7f] + vch_value [1] = 2147483648"
    by (simp add: vch_value_def)
  then show ?thesis using num_arith_safe [OF a b] by simp
qed

end
