(* ===== verification/Opcodes.thy ===== *)
theory Opcodes
  imports Codec
begin

text \<open>
  The script opcodes of \<open>chainx-ui.id/script.h\<close>, the flags of \<open>chainx-ui.id/interpreter.h\<close>
  and the error texts of \<open>chainx-ui.id/scrypt/script_chainx.cpp\<close>. An \<open>opcodetype\<close> value is
  the integer of the C++ enum: the script reader casts any byte to it, named or not.
\<close>

type_synonym opcodetype = int

definition opcode_table :: "(string \<times> opcodetype) list" where
  "opcode_table = [
    (''OP_0'', 0x00), (''OP_FALSE'', 0x00), (''OP_PUSHDATA1'', 0x4c), (''OP_PUSHDATA2'', 0x4d),
    (''OP_PUSHDATA4'', 0x4e), (''OP_1NEGATE'', 0x4f), (''OP_RESERVED'', 0x50), (''OP_1'', 0x51),
    (''OP_TRUE'', 0x51), (''OP_2'', 0x52), (''OP_3'', 0x53), (''OP_4'', 0x54), (''OP_5'', 0x55),
    (''OP_6'', 0x56), (''OP_7'', 0x57), (''OP_8'', 0x58), (''OP_9'', 0x59), (''OP_10'', 0x5a),
    (''OP_11'', 0x5b), (''OP_12'', 0x5c), (''OP_13'', 0x5d), (''OP_14'', 0x5e),
    (''OP_15'', 0x5f), (''OP_16'', 0x60), (''OP_NOP'', 0x61), (''OP_VER'', 0x62),
    (''OP_IF'', 0x63), (''OP_NOTIF'', 0x64), (''OP_VERIF'', 0x65), (''OP_VERNOTIF'', 0x66),
    (''OP_ELSE'', 0x67), (''OP_ENDIF'', 0x68), (''OP_VERIFY'', 0x69), (''OP_RETURN'', 0x6a),
    (''OP_TOALTSTACK'', 0x6b), (''OP_FROMALTSTACK'', 0x6c), (''OP_2DROP'', 0x6d),
    (''OP_2DUP'', 0x6e), (''OP_3DUP'', 0x6f), (''OP_2OVER'', 0x70), (''OP_2ROT'', 0x71),
    (''OP_2SWAP'', 0x72), (''OP_IFDUP'', 0x73), (''OP_DEPTH'', 0x74), (''OP_DROP'', 0x75),
    (''OP_DUP'', 0x76), (''OP_NIP'', 0x77), (''OP_OVER'', 0x78), (''OP_PICK'', 0x79),
    (''OP_ROLL'', 0x7a), (''OP_ROT'', 0x7b), (''OP_SWAP'', 0x7c), (''OP_TUCK'', 0x7d),
    (''OP_CAT'', 0x7e), (''OP_SUBSTR'', 0x7f), (''OP_LEFT'', 0x80), (''OP_RIGHT'', 0x81),
    (''OP_SIZE'', 0x82), (''OP_INVERT'', 0x83), (''OP_AND'', 0x84), (''OP_OR'', 0x85),
    (''OP_XOR'', 0x86), (''OP_EQUAL'', 0x87), (''OP_EQUALVERIFY'', 0x88),
    (''OP_RESERVED1'', 0x89), (''OP_RESERVED2'', 0x8a), (''OP_1ADD'', 0x8b), (''OP_1SUB'', 0x8c),
    (''OP_2MUL'', 0x8d), (''OP_2DIV'', 0x8e), (''OP_NEGATE'', 0x8f), (''OP_ABS'', 0x90),
    (''OP_NOT'', 0x91), (''OP_0NOTEQUAL'', 0x92), (''OP_ADD'', 0x93), (''OP_SUB'', 0x94),
    (''OP_MUL'', 0x95), (''OP_DIV'', 0x96), (''OP_MOD'', 0x97), (''OP_LSHIFT'', 0x98),
    (''OP_RSHIFT'', 0x99), (''OP_BOOLAND'', 0x9a), (''OP_BOOLOR'', 0x9b),
    (''OP_NUMEQUAL'', 0x9c), (''OP_NUMEQUALVERIFY'', 0x9d), (''OP_NUMNOTEQUAL'', 0x9e),
    (''OP_LESSTHAN'', 0x9f), (''OP_GREATERTHAN'', 0xa0), (''OP_LESSTHANOREQUAL'', 0xa1),
    (''OP_GREATERTHANOREQUAL'', 0xa2), (''OP_MIN'', 0xa3), (''OP_MAX'', 0xa4),
    (''OP_WITHIN'', 0xa5), (''OP_RIPEMD160'', 0xa6), (''OP_SHA1'', 0xa7), (''OP_SHA256'', 0xa8),
    (''OP_HASH160'', 0xa9), (''OP_HASH256'', 0xaa), (''OP_CODESEPARATOR'', 0xab),
    (''OP_CHECKSIG'', 0xac), (''OP_CHECKSIGVERIFY'', 0xad), (''OP_CHECKMULTISIG'', 0xae),
    (''OP_CHECKMULTISIGVERIFY'', 0xaf), (''OP_NOP1'', 0xb0), (''OP_CHECKLOCKTIMEVERIFY'', 0xb1),
    (''OP_NOP2'', 0xb1), (''OP_CHECKSEQUENCEVERIFY'', 0xb2), (''OP_NOP3'', 0xb2),
    (''OP_NOP4'', 0xb3), (''OP_NOP5'', 0xb4), (''OP_NOP6'', 0xb5), (''OP_NOP7'', 0xb6),
    (''OP_NOP8'', 0xb7), (''OP_NOP9'', 0xb8), (''OP_NOP10'', 0xb9), (''OP_SMALLINTEGER'', 0xfa),
    (''OP_PUBKEYS'', 0xfb), (''OP_PUBKEYHASH'', 0xfd), (''OP_PUBKEY'', 0xfe),
    (''OP_INVALIDOPCODE'', 0xff)]"

definition OP_0 :: opcodetype where "OP_0 = 0x00"
definition OP_PUSHDATA1 :: opcodetype where "OP_PUSHDATA1 = 0x4c"
definition OP_PUSHDATA2 :: opcodetype where "OP_PUSHDATA2 = 0x4d"
definition OP_PUSHDATA4 :: opcodetype where "OP_PUSHDATA4 = 0x4e"
definition OP_1NEGATE :: opcodetype where "OP_1NEGATE = 0x4f"
definition OP_1 :: opcodetype where "OP_1 = 0x51"
definition OP_16 :: opcodetype where "OP_16 = 0x60"
definition OP_RETURN :: opcodetype where "OP_RETURN = 0x6a"
definition OP_INVALIDOPCODE :: opcodetype where "OP_INVALIDOPCODE = 0xff"

lemmas opcode_defs = OP_0_def OP_PUSHDATA1_def OP_PUSHDATA2_def OP_PUSHDATA4_def
  OP_1NEGATE_def OP_1_def OP_16_def OP_RETURN_def OP_INVALIDOPCODE_def

lemma opcode_table_consistent:
  "map_of opcode_table ''OP_0'' = Some OP_0"
  "map_of opcode_table ''OP_PUSHDATA1'' = Some OP_PUSHDATA1"
  "map_of opcode_table ''OP_PUSHDATA2'' = Some OP_PUSHDATA2"
  "map_of opcode_table ''OP_PUSHDATA4'' = Some OP_PUSHDATA4"
  "map_of opcode_table ''OP_1NEGATE'' = Some OP_1NEGATE"
  "map_of opcode_table ''OP_1'' = Some OP_1"
  "map_of opcode_table ''OP_16'' = Some OP_16"
  "map_of opcode_table ''OP_RETURN'' = Some OP_RETURN"
  "map_of opcode_table ''OP_INVALIDOPCODE'' = Some OP_INVALIDOPCODE"
  by (simp_all add: opcode_table_def opcode_defs)

lemma opcode_table_bytes: "list_all (\<lambda>(n, v). 0 \<le> v \<and> v \<le> 0xff) opcode_table"
  by (simp add: opcode_table_def)

section \<open>Script errors\<close>

text \<open>
  The cases of \<open>ScriptErrorString\<close>; the enum itself is declared in \<open>script_error.h\<close>, which
  is not part of the repository. The last two cases fall through to the default text.
\<close>

datatype ScriptError =
    SCRIPT_ERR_OK
  | SCRIPT_ERR_EVAL_FALSE
  | SCRIPT_ERR_VERIFY
  | SCRIPT_ERR_EQUALVERIFY
  | SCRIPT_ERR_CHECKMULTISIGVERIFY
  | SCRIPT_ERR_CHECKSIGVERIFY
  | SCRIPT_ERR_NUMEQUALVERIFY
  | SCRIPT_ERR_SCRIPT_SIZE
  | SCRIPT_ERR_PUSH_SIZE
  | SCRIPT_ERR_OP_COUNT
  | SCRIPT_ERR_STACK_SIZE
  | SCRIPT_ERR_SIG_COUNT
  | SCRIPT_ERR_PUBKEY_COUNT
  | SCRIPT_ERR_BAD_OPCODE
  | SCRIPT_ERR_DISABLED_OPCODE
  | SCRIPT_ERR_INVALID_STACK_OPERATION
  | SCRIPT_ERR_INVALID_ALTSTACK_OPERATION
  | SCRIPT_ERR_OP_RETURN
  | SCRIPT_ERR_UNBALANCED_CONDITIONAL
  | SCRIPT_ERR_NEGATIVE_LOCKTIME
  | SCRIPT_ERR_UNSATISFIED_LOCKTIME
  | SCRIPT_ERR_SIG_HASHTYPE
  | SCRIPT_ERR_SIG_DER
  | SCRIPT_ERR_MINIMALDATA
  | SCRIPT_ERR_SIG_PUSHONLY
  | SCRIPT_ERR_SIG_HIGH_S
  | SCRIPT_ERR_SIG_NULLDUMMY
  | SCRIPT_ERR_DISCOURAGE_UPGRADABLE_NOPS
  | SCRIPT_ERR_PUBKEYTYPE
  | SCRIPT_ERR_UNKNOWN_ERROR
  | SCRIPT_ERR_ERROR_COUNT

fun ScriptErrorString :: "ScriptError \<Rightarrow> string" where
  "ScriptErrorString SCRIPT_ERR_OK = ''No error''"
| "ScriptErrorString SCRIPT_ERR_EVAL_FALSE =
     ''Script evaluated without error but finished with a false/empty top stack element''"
| "ScriptErrorString SCRIPT_ERR_VERIFY = ''Script failed an OP_VERIFY operation''"
| "ScriptErrorString SCRIPT_ERR_EQUALVERIFY = ''Script failed an OP_EQUALVERIFY operation''"
| "ScriptErrorString SCRIPT_ERR_CHECKMULTISIGVERIFY =
     ''Script failed an OP_CHECKMULTISIGVERIFY operation''"
| "ScriptErrorString SCRIPT_ERR_CHECKSIGVERIFY =
     ''Script failed an OP_CHECKSIGVERIFY operation''"
| "ScriptErrorString SCRIPT_ERR_NUMEQUALVERIFY =
     ''Script failed an OP_NUMEQUALVERIFY operation''"
| "ScriptErrorString SCRIPT_ERR_SCRIPT_SIZE = ''Script is too big''"
| "ScriptErrorString SCRIPT_ERR_PUSH_SIZE = ''Push value size limit exceeded''"
| "ScriptErrorString SCRIPT_ERR_OP_COUNT = ''Operation limit exceeded''"
| "ScriptErrorString SCRIPT_ERR_STACK_SIZE = ''Stack size limit exceeded''"
| "ScriptErrorString SCRIPT_ERR_SIG_COUNT =
     ''Signature count negative or greater than pubkey count''"
| "ScriptErrorString SCRIPT_ERR_PUBKEY_COUNT = ''Pubkey count negative or limit exceeded''"
| "ScriptErrorString SCRIPT_ERR_BAD_OPCODE = ''Opcode missing or not understood''"
| "ScriptErrorString SCRIPT_ERR_DISABLED_OPCODE = ''Attempted to use a disabled opcode''"
| "ScriptErrorString SCRIPT_ERR_INVALID_STACK_OPERATION =
     ''Operation not valid with the current stack size''"
| "ScriptErrorString SCRIPT_ERR_INVALID_ALTSTACK_OPERATION =
     ''Operation not valid with the current altstack size''"
| "ScriptErrorString SCRIPT_ERR_OP_RETURN = ''OP_RETURN was encountered''"
| "ScriptErrorString SCRIPT_ERR_UNBALANCED_CONDITIONAL = ''Invalid OP_IF construction''"
| "ScriptErrorString SCRIPT_ERR_NEGATIVE_LOCKTIME = ''Negative locktime''"
| "ScriptErrorString SCRIPT_ERR_UNSATISFIED_LOCKTIME = ''Locktime requirement not satisfied''"
| "ScriptErrorString SCRIPT_ERR_SIG_HASHTYPE = ''Signature hash type missing or not understood''"
| "ScriptErrorString SCRIPT_ERR_SIG_DER = ''Non-canonical DER signature''"
| "ScriptErrorString SCRIPT_ERR_MINIMALDATA = ''Data push larger than necessary''"
| "ScriptErrorString SCRIPT_ERR_SIG_PUSHONLY = ''Only non-push operators allowed in signatures''"
| "ScriptErrorString SCRIPT_ERR_SIG_HIGH_S =
     ''Non-canonical signature: S value is unnecessarily high''"
| "ScriptErrorString SCRIPT_ERR_SIG_NULLDUMMY = ''Dummy CHECKMULTISIG argument must be zero''"
| "ScriptErrorString SCRIPT_ERR_DISCOURAGE_UPGRADABLE_NOPS =
     ''NOPx reserved for soft-fork upgrades''"
| "ScriptErrorString SCRIPT_ERR_PUBKEYTYPE =
     ''Public key is neither compressed or uncompressed''"
| "ScriptErrorString SCRIPT_ERR_UNKNOWN_ERROR = ''unknown error''"
| "ScriptErrorString SCRIPT_ERR_ERROR_COUNT = ''unknown error''"

definition known_errors :: "ScriptError list" where
  "known_errors = [SCRIPT_ERR_OK, SCRIPT_ERR_EVAL_FALSE, SCRIPT_ERR_VERIFY, SCRIPT_ERR_EQUALVERIFY, 
     SCRIPT_ERR_CHECKMULTISIGVERIFY, SCRIPT_ERR_CHECKSIGVERIFY, SCRIPT_ERR_NUMEQUALVERIFY, 
     SCRIPT_ERR_SCRIPT_SIZE, SCRIPT_ERR_PUSH_SIZE, SCRIPT_ERR_OP_COUNT, 
     SCRIPT_ERR_STACK_SIZE, SCRIPT_ERR_SIG_COUNT, SCRIPT_ERR_PUBKEY_COUNT, 
     SCRIPT_ERR_BAD_OPCODE, SCRIPT_ERR_DISABLED_OPCODE, SCRIPT_ERR_INVALID_STACK_OPERATION, 
     SCRIPT_ERR_INVALID_ALTSTACK_OPERATION, SCRIPT_ERR_OP_RETURN, 
     SCRIPT_ERR_UNBALANCED_CONDITIONAL, SCRIPT_ERR_NEGATIVE_LOCKTIME, 
     SCRIPT_ERR_UNSATISFIED_LOCKTIME, SCRIPT_ERR_SIG_HASHTYPE, SCRIPT_ERR_SIG_DER, 
     SCRIPT_ERR_MINIMALDATA, SCRIPT_ERR_SIG_PUSHONLY, SCRIPT_ERR_SIG_HIGH_S, 
     SCRIPT_ERR_SIG_NULLDUMMY, SCRIPT_ERR_DISCOURAGE_UPGRADABLE_NOPS, 
     SCRIPT_ERR_PUBKEYTYPE]"

lemma known_errors_cases:
  "e \<in> set known_errors \<or> e = SCRIPT_ERR_UNKNOWN_ERROR \<or> e = SCRIPT_ERR_ERROR_COUNT"
  by (cases e) (simp_all add: known_errors_def)

lemma ScriptErrorString_distinct:
  "distinct (map ScriptErrorString (SCRIPT_ERR_UNKNOWN_ERROR # known_errors))"
  by (simp add: known_errors_def)

section \<open>Verification flags\<close>

definition SIGHASH_ALL :: int where "SIGHASH_ALL = 1"
definition SIGHASH_NONE :: int where "SIGHASH_NONE = 2"
definition SIGHASH_SINGLE :: int where "SIGHASH_SINGLE = 3"
definition SIGHASH_ANYONECANPAY :: int where "SIGHASH_ANYONECANPAY = 0x80"

definition SCRIPT_VERIFY_NONE :: u32 where "SCRIPT_VERIFY_NONE = 0"

definition verify_flag_table :: "(string \<times> u32) list" where
  "verify_flag_table = [
     (''SCRIPT_VERIFY_P2SH'', push_bit 0 1),
     (''SCRIPT_VERIFY_STRICTENC'', push_bit 1 1),
     (''SCRIPT_VERIFY_DERSIG'', push_bit 2 1),
     (''SCRIPT_VERIFY_LOW_S'', push_bit 3 1),
     (''SCRIPT_VERIFY_NULLDUMMY'', push_bit 4 1),
     (''SCRIPT_VERIFY_SIGPUSHONLY'', push_bit 5 1),
     (''SCRIPT_VERIFY_MINIMALDATA'', push_bit 6 1),
     (''SCRIPT_VERIFY_DISCOURAGE_UPGRADABLE_NOPS'', push_bit 7 1),
     (''SCRIPT_VERIFY_CLEANSTACK'', push_bit 8 1),
     (''SCRIPT_VERIFY_CHECKLOCKTIMEVERIFY'', push_bit 9 1),
     (''SCRIPT_VERIFY_CHECKSEQUENCEVERIFY'', push_bit 10 1)]"

lemma verify_flag_single_bits:
  "map snd verify_flag_table = map (\<lambda>k. push_bit k 1) [0..<11]"
  by (simp add: verify_flag_table_def upt_rec)

section \<open>Small integers as opcodes\<close>

definition DecodeOP_N :: "opcodetype \<Rightarrow> int res" where
  "DecodeOP_N opcode =
     (if opcode = OP_0 then Inr 0
      else cxx_assert (OP_1 \<le> opcode \<and> opcode \<le> OP_16) (Inr (opcode - (OP_1 - 1))))"

definition EncodeOP_N :: "int \<Rightarrow> opcodetype res" where
  "EncodeOP_N n = cxx_assert (0 \<le> n \<and> n \<le> 16)
     (if n = 0 then Inr OP_0 else Inr (OP_1 + n - 1))"

interpretation opn: canonical_codec EncodeOP_N DecodeOP_N "\<lambda>n. 0 \<le> n \<and> n \<le> 16"
  by unfold_locales
    (auto simp: EncodeOP_N_def DecodeOP_N_def cxx_assert_def opcode_defs split: if_splits)

text \<open>
  The small-integer opcodes are a bijection. \<open>DecodeOP_N\<close> returns \<open>n\<close> exactly when \<open>n\<close>
  is between 0 and 16 and \<open>EncodeOP_N\<close> maps it to that opcode; every other opcode fails the
  assertion.
\<close>

theorem opn_bijection: "DecodeOP_N opcode = Inr n \<longleftrightarrow> (0 \<le> n \<and> n \<le> 16) \<and> EncodeOP_N n = Inr opcode"
  by (rule opn.dec_iff)

end
