(* ===== verification/Script.thy ===== *)
theory Script
  imports ScriptNum Opcodes
begin

text \<open>
  The script class \<open>CScript\<close> of \<open>chainx-ui.id/script.h\<close>: the bytes of a script, the
  operators that append to it, the instruction reader \<open>GetOp2\<close>, and the two routines that
  walk over the instructions, \<open>FindAndDelete\<close> and \<open>Find\<close>. An iterator is an index into the
  bytes. The little-endian helpers \<open>ReadLE16\<close>, \<open>ReadLE32\<close>, \<open>WriteLE16\<close> and \<open>WriteLE32\<close> come
  from \<open>crypto/common.h\<close>, which is not part of the repository: they are the argument
  \<open>io\<close> of the operations, and \<open>le_io_ok\<close> states what their documentation promises.
\<close>

type_synonym CScript = "byte list"

definition MAX_SCRIPT_ELEMENT_SIZE :: nat where "MAX_SCRIPT_ELEMENT_SIZE = 520"
definition MAX_OPS_PER_SCRIPT :: nat where "MAX_OPS_PER_SCRIPT = 201"
definition MAX_PUBKEYS_PER_MULTISIG :: nat where "MAX_PUBKEYS_PER_MULTISIG = 20"
definition LOCKTIME_THRESHOLD :: nat where "LOCKTIME_THRESHOLD = 500000000"

definition ToByteVector :: "byte list \<Rightarrow> byte list" where
  "ToByteVector xs = xs"

section \<open>The little-endian helpers\<close>

record le_io =
  ReadLE16 :: "byte list \<Rightarrow> 16 word"
  ReadLE32 :: "byte list \<Rightarrow> 32 word"
  WriteLE16 :: "16 word \<Rightarrow> byte list"
  WriteLE32 :: "32 word \<Rightarrow> byte list"

definition le_io_ok :: "le_io \<Rightarrow> bool" where
  "le_io_ok io \<longleftrightarrow>
     (\<forall>w. length (WriteLE16 io w) = 2 \<and> ReadLE16 io (WriteLE16 io w) = w) \<and>
     (\<forall>w. length (WriteLE32 io w) = 4 \<and> ReadLE32 io (WriteLE32 io w) = w)"

definition le_reference :: le_io where
  "le_reference = \<lparr>
     ReadLE16 = (\<lambda>bs. of_nat (le_nat (take 2 bs))),
     ReadLE32 = (\<lambda>bs. of_nat (le_nat (take 4 bs))),
     WriteLE16 = (\<lambda>w. [ucast w, ucast (drop_bit 8 w)]),
     WriteLE32 = (\<lambda>w. [ucast w, ucast (drop_bit 8 w), ucast (drop_bit 16 w), ucast (drop_bit 24 w)])\<rparr>"

section \<open>Appending\<close>

definition push_opcode :: "CScript \<Rightarrow> opcodetype \<Rightarrow> CScript res" where
  "push_opcode s opcode =
     (if opcode < 0 \<or> opcode > 0xff
      then Inl (Thrown ''CScript::operator<<(): invalid opcode'')
      else Inr (s @ [word_of_int opcode]))"

definition push_vch :: "le_io \<Rightarrow> CScript \<Rightarrow> byte list \<Rightarrow> CScript" where
  "push_vch io s b =
     (if int (length b) < OP_PUSHDATA1 then s @ [of_nat (length b)]
      else if length b \<le> 0xff then s @ [word_of_int OP_PUSHDATA1] @ [of_nat (length b)]
      else if length b \<le> 0xffff
      then s @ [word_of_int OP_PUSHDATA2] @ WriteLE16 io (of_nat (length b))
      else s @ [word_of_int OP_PUSHDATA4] @ WriteLE32 io (of_nat (length b))) @ b"

definition push_int64 :: "le_io \<Rightarrow> CScript \<Rightarrow> i64 \<Rightarrow> CScript res" where
  "push_int64 io s n =
     (if sint n = -1 \<or> (1 \<le> sint n \<and> sint n \<le> 16)
      then Inr (s @ [word_of_int (sint n + (OP_1 - 1))])
      else if n = 0 then Inr (s @ [word_of_int OP_0])
      else rbind (serialize n) (\<lambda>vch. Inr (push_vch io s vch)))"

definition push_num :: "le_io \<Rightarrow> CScript \<Rightarrow> CScriptNum \<Rightarrow> CScript res" where
  "push_num io s b = rbind (getvch b) (\<lambda>vch. Inr (push_vch io s vch))"

definition push_script :: "CScript \<Rightarrow> CScript \<Rightarrow> CScript res" where
  "push_script s b = cxx_assert False (Inr s)"

definition script_append :: "CScript \<Rightarrow> CScript \<Rightarrow> CScript" where
  "script_append a b = a @ b"

definition CScript_of_int64 :: "le_io \<Rightarrow> i64 \<Rightarrow> CScript res" where
  "CScript_of_int64 io b = push_int64 io [] b"

definition CScript_of_opcode :: "opcodetype \<Rightarrow> CScript res" where
  "CScript_of_opcode b = push_opcode [] b"

definition CScript_of_num :: "le_io \<Rightarrow> CScriptNum \<Rightarrow> CScript res" where
  "CScript_of_num io b = push_num io [] b"

definition CScript_of_vch :: "le_io \<Rightarrow> byte list \<Rightarrow> CScript" where
  "CScript_of_vch io b = push_vch io [] b"

section \<open>Reading one instruction\<close>

text \<open>
  The size of an immediate operand. \<open>pc\<close> is just behind the opcode byte. \<open>Inl pc\<close> is a
  \<open>return false\<close> that leaves the iterator at \<open>pc\<close>.
\<close>

definition read_push_size :: "le_io \<Rightarrow> CScript \<Rightarrow> nat \<Rightarrow> int \<Rightarrow> nat + (nat \<times> nat)" where
  "read_push_size io s pc opcode =
     (if opcode < OP_PUSHDATA1 then Inr (nat opcode, pc)
      else if opcode = OP_PUSHDATA1 then
        (if length s - pc < 1 then Inl pc else Inr (unat (s ! pc), pc + 1))
      else if opcode = OP_PUSHDATA2 then
        (if length s - pc < 2 then Inl pc
         else Inr (unat (ReadLE16 io (take 2 (drop pc s))), pc + 2))
      else if length s - pc < 4 then Inl pc
        else Inr (unat (ReadLE32 io (take 4 (drop pc s))), pc + 4))"

text \<open>
  \<open>GetOp2\<close> returns whether it read an instruction, the new iterator, the opcode, and the
  vector \<open>pvchRet\<close> points to when \<open>want\<close> says the pointer is not null. The iterator moves
  on some failing paths too. The remaining size is cast to 32 bits, as in the code.
\<close>

type_synonym getop_result = "bool \<times> nat \<times> opcodetype \<times> byte list option"

definition GetOp2 :: "le_io \<Rightarrow> CScript \<Rightarrow> nat \<Rightarrow> bool \<Rightarrow> getop_result" where
  "GetOp2 io s pc want =
     (let vch0 = (if want then Some [] else None) in
      if length s \<le> pc then (False, pc, OP_INVALIDOPCODE, vch0)
      else let opcode = uint (s ! pc) in
        if opcode \<le> OP_PUSHDATA4 then
          (case read_push_size io s (pc + 1) opcode of
             Inl pc' \<Rightarrow> (False, pc', OP_INVALIDOPCODE, vch0)
           | Inr (nSize, pc') \<Rightarrow>
               if length s < pc' \<or> (length s - pc') mod 2 ^ 32 < nSize
               then (False, pc', OP_INVALIDOPCODE, vch0)
               else (True, pc' + nSize, opcode,
                     if want then Some (take nSize (drop pc' s)) else None))
        else (True, pc + 1, opcode, vch0))"

definition GetOp_data :: "le_io \<Rightarrow> CScript \<Rightarrow> nat \<Rightarrow> getop_result" where
  "GetOp_data io s pc = GetOp2 io s pc True"

definition GetOp :: "le_io \<Rightarrow> CScript \<Rightarrow> nat \<Rightarrow> bool \<times> nat \<times> opcodetype" where
  "GetOp io s pc = (case GetOp2 io s pc False of (fRet, pc', opcode, _) \<Rightarrow> (fRet, pc', opcode))"

lemma read_push_size_bounds:
  "read_push_size io s pc opcode = Inr (n, pc') \<Longrightarrow> pc \<le> length s \<Longrightarrow> pc \<le> pc' \<and> pc' \<le> length s"
  by (auto simp: read_push_size_def split: if_splits)

lemma GetOp2_progress:
  assumes "GetOp2 io s pc want = (True, pc', opcode, vch)"
  shows "pc < pc' \<and> pc' \<le> length s"
proof -
  have le: "pc < length s"
    using assms by (simp add: GetOp2_def Let_def split: if_splits)
  show ?thesis
  proof (cases "uint (s ! pc) \<le> OP_PUSHDATA4")
    case False
    then show ?thesis using assms le by (auto simp: GetOp2_def Let_def)
  next
    case True
    then obtain n p where r: "read_push_size io s (pc + 1) (uint (s ! pc)) = Inr (n, p)"
        and p: "\<not> length s < p" "\<not> (length s - p) mod 2 ^ 32 < n" "pc' = p + n"
      using assms le by (auto simp: GetOp2_def Let_def split: sum.splits prod.splits if_splits)
    then show ?thesis
      using read_push_size_bounds [OF r] le mod_less_eq_dividend [of "length s - p" "2 ^ 32"] by linarith
  qed
qed

lemma GetOp_progress: "GetOp io s pc = (True, pc', opcode) \<Longrightarrow> pc < pc' \<and> pc' \<le> length s"
  by (auto simp: GetOp_def split: prod.splits dest: GetOp2_progress)

section \<open>Walking over the instructions\<close>

definition slice :: "CScript \<Rightarrow> nat \<Rightarrow> nat \<Rightarrow> byte list" where
  "slice s from to = take (to - from) (drop from s)"

text \<open>
  The inner loop of \<open>FindAndDelete\<close>: step over copies of \<open>b\<close>. The caller has returned
  already when \<open>b\<close> is empty.
\<close>

function skip_copies :: "CScript \<Rightarrow> CScript \<Rightarrow> nat \<Rightarrow> nat \<Rightarrow> nat \<times> nat" where
  "skip_copies s b pc nFound =
     (if b \<noteq> [] \<and> length b \<le> length s - pc \<and> slice s pc (pc + length b) = b
      then skip_copies s b (pc + length b) (nFound + 1)
      else (pc, nFound))"
  by pat_completeness auto
termination
  by (relation "measure (\<lambda>(s, b, pc, n). length s - pc)") (auto simp flip: length_greater_0_conv)

declare skip_copies.simps [simp del]

lemma skip_copies_le: "skip_copies s b pc n = (pc', n') \<Longrightarrow> pc \<le> pc' \<and> n \<le> n'"
proof (induction s b pc n rule: skip_copies.induct)
  case (1 s b pc n)
  then show ?case by (subst (asm) (2) skip_copies.simps) (force split: if_splits)
qed

text \<open>The outer loop; \<open>pc2\<close> is the start of the bytes not yet copied to \<open>result\<close>.\<close>

function fad_loop ::
    "le_io \<Rightarrow> CScript \<Rightarrow> CScript \<Rightarrow> nat \<Rightarrow> nat \<Rightarrow> CScript \<Rightarrow> nat \<Rightarrow> CScript \<times> nat \<times> nat" where
  "fad_loop io s b pc pc2 result nFound =
     (let result = result @ slice s pc2 pc;
          (pc, nFound) = skip_copies s b pc nFound;
          pc2 = pc;
          (more, pc', opcode) = GetOp io s pc
      in if more then fad_loop io s b pc' pc2 result nFound else (result, pc2, nFound))"
  by pat_completeness auto
termination
  by (relation "measure (\<lambda>(io, s, b, pc, pc2, r, n). length s - pc)")
     (auto dest!: skip_copies_le [OF sym] GetOp_progress [OF sym])

declare fad_loop.simps [simp del]

definition FindAndDelete :: "le_io \<Rightarrow> CScript \<Rightarrow> CScript \<Rightarrow> CScript \<times> nat" where
  "FindAndDelete io s b =
     (if b = [] then (s, 0)
      else case fad_loop io s b 0 0 [] 0 of (result, pc2, nFound) \<Rightarrow>
        if 0 < nFound then (result @ slice s pc2 (length s), nFound) else (s, nFound))"

function find_loop :: "le_io \<Rightarrow> CScript \<Rightarrow> opcodetype \<Rightarrow> nat \<Rightarrow> nat \<Rightarrow> nat" where
  "find_loop io s op pc nFound =
     (if pc = length s then nFound
      else let (more, pc', opcode) = GetOp io s pc
        in if more then find_loop io s op pc' (if opcode = op then nFound + 1 else nFound)
           else nFound)"
  by pat_completeness auto
termination
  by (relation "measure (\<lambda>(io, s, op, pc, n). length s - pc)")
     (auto dest!: GetOp_progress [OF sym])

declare find_loop.simps [simp del]

definition Find :: "le_io \<Rightarrow> CScript \<Rightarrow> opcodetype \<Rightarrow> nat" where
  "Find io s op = find_loop io s op 0 0"

definition IsUnspendable :: "CScript \<Rightarrow> bool" where
  "IsUnspendable s \<longleftrightarrow> 0 < length s \<and> uint (s ! 0) = OP_RETURN"

definition script_clear :: "CScript \<Rightarrow> CScript" where
  "script_clear s = []"

record CReserveScript =
  reserveScript :: CScript

definition CReserveScript_init :: CReserveScript where
  "CReserveScript_init = \<lparr>reserveScript = []\<rparr>"

definition KeepScript :: "CReserveScript \<Rightarrow> CReserveScript" where
  "KeepScript r = r"

section \<open>Instructions\<close>

lemma drop_nth_0: "pc < length s \<Longrightarrow> drop pc s ! 0 = s ! pc"
  by simp

lemma read_push_size_drop:
  "pc + k \<le> length s \<Longrightarrow> read_push_size io s (pc + k) opcode =
     (case read_push_size io (drop pc s) k opcode of
        Inl p \<Rightarrow> Inl (pc + p) | Inr (n, p) \<Rightarrow> Inr (n, pc + p))"
  by (auto simp: read_push_size_def add.commute)

lemma GetOp2_drop:
  assumes "pc \<le> length s"
  shows "GetOp2 io s pc want =
    (case GetOp2 io (drop pc s) 0 want of (ok, d, opcode, vch) \<Rightarrow> (ok, pc + d, opcode, vch))"
proof (cases "pc = length s")
  case False
  then have less: "pc < length s" using assms by simp
  note r = read_push_size_drop [of pc 1 s io "uint (s ! pc)"]
  show ?thesis
  proof (cases "uint (s ! pc) \<le> OP_PUSHDATA4")
    case False
    then show ?thesis using less by (simp add: GetOp2_def)
  next
    case True
    show ?thesis
    proof (cases "read_push_size io (drop pc s) 1 (uint (s ! pc))")
      case (Inl p)
      then show ?thesis using less True r by (simp add: GetOp2_def)
    next
      case (Inr np)
      obtain n p where np: "np = (n, p)" by (cases np)
      have "p \<le> length s - pc"
        using read_push_size_bounds [of io "drop pc s" 1 _ n p] Inr np less by simp
      moreover have "read_push_size io s (Suc pc) (uint (s ! pc)) = Inr (n, pc + p)"
        using r Inr np less by simp
      moreover from calculation(1) have "\<not> length s < p + pc" using less by linarith
      ultimately show ?thesis using less True Inr np
        by (simp add: GetOp2_def drop_drop add_ac)
    qed
  qed
qed (simp add: GetOp2_def Let_def)

lemma GetOp_drop:
  "pc \<le> length s \<Longrightarrow> GetOp io s pc =
    (case GetOp io (drop pc s) 0 of (ok, d, opcode) \<Rightarrow> (ok, pc + d, opcode))"
  by (simp add: GetOp_def GetOp2_drop [of pc s] split: prod.splits)

lemma GetOp2_want:
  "GetOp2 io s pc want = (ok, pc', opcode, v) \<Longrightarrow>
     \<exists>v'. GetOp2 io s pc want' = (ok, pc', opcode, v')"
  by (auto simp: GetOp2_def Let_def split: sum.splits if_splits)

datatype script_instr = PushData "byte list" | Oper opcodetype

fun instr_ok :: "script_instr \<Rightarrow> bool" where
  "instr_ok (PushData d) \<longleftrightarrow> length d < 2 ^ 32"
| "instr_ok (Oper opcode) \<longleftrightarrow> OP_PUSHDATA4 < opcode \<and> opcode \<le> 0xff"

fun append_instr :: "le_io \<Rightarrow> CScript \<Rightarrow> script_instr \<Rightarrow> CScript res" where
  "append_instr io s (PushData d) = Inr (push_vch io s d)"
| "append_instr io s (Oper opcode) = push_opcode s opcode"

fun assemble :: "le_io \<Rightarrow> CScript \<Rightarrow> script_instr list \<Rightarrow> CScript res" where
  "assemble io s [] = Inr s"
| "assemble io s (i # is) = rbind (append_instr io s i) (\<lambda>s'. assemble io s' is)"

fun instr_bytes :: "le_io \<Rightarrow> script_instr \<Rightarrow> byte list" where
  "instr_bytes io (PushData d) = push_vch io [] d"
| "instr_bytes io (Oper opcode) = [word_of_int opcode]"

fun instr_read :: "script_instr \<Rightarrow> opcodetype \<times> byte list" where
  "instr_read (PushData d) =
     (if length d < 76 then int (length d) else if length d \<le> 0xff then OP_PUSHDATA1
      else if length d \<le> 0xffff then OP_PUSHDATA2 else OP_PUSHDATA4, d)"
| "instr_read (Oper opcode) = (opcode, [])"

lemma instr_read_inject: "instr_ok i \<Longrightarrow> instr_ok j \<Longrightarrow> instr_read i = instr_read j \<Longrightarrow> i = j"
  by (cases i; cases j) (auto simp: opcode_defs split: if_splits)

lemma push_vch_append: "push_vch io s d = s @ push_vch io [] d"
  by (simp add: push_vch_def)

lemma append_instr_bytes: "instr_ok i \<Longrightarrow> append_instr io s i = Inr (s @ instr_bytes io i)"
  by (cases i) (auto simp: push_opcode_def opcode_defs intro: push_vch_append)

lemma assemble_bytes:
  "list_all instr_ok is \<Longrightarrow> assemble io s is = Inr (s @ concat (map (instr_bytes io) is))"
  by (induction "is" arbitrary: s) (simp_all add: append_instr_bytes)

lemma uint_small_byte: "n < 256 \<Longrightarrow> uint (of_nat n :: byte) = int n"
  by (simp add: unsigned_of_nat take_bit_nat_eq_self)

lemma unat_small_byte: "n < 256 \<Longrightarrow> unat (of_nat n :: byte) = n"
  by (simp add: unsigned_of_nat take_bit_nat_eq_self)

lemma uint_of_opcode: "0 \<le> k \<Longrightarrow> k \<le> 0xff \<Longrightarrow> uint (word_of_int k :: byte) = k"
  by (simp add: unsigned_of_int take_bit_int_eq_self)

lemma take_app2: "length (xs) = n \<Longrightarrow> take n (xs @ ys) = xs" by simp

lemma GetOp2_instr:
  assumes io: "le_io_ok io" and ok: "instr_ok i"
    and len: "length (instr_bytes io i @ rest) < 2 ^ 32"
  shows "GetOp2 io (instr_bytes io i @ rest) 0 want =
    (True, length (instr_bytes io i), fst (instr_read i),
     if want then Some (snd (instr_read i)) else None)"
proof (cases i)
  case (Oper opcode)
  then have "uint (word_of_int opcode :: byte) = opcode" using ok by (auto intro: uint_of_opcode simp: opcode_defs)
  then show ?thesis using Oper ok by (simp add: GetOp2_def)
next
  case (PushData d)
  have m: "(length d + length rest) mod 2 ^ 32 = length d + length rest"
    using len PushData by (simp add: push_vch_def split: if_splits)
  consider "length d < 76" | "76 \<le> length d" "length d \<le> 255" | "255 < length d" "length d \<le> 65535"
    | "65535 < length d" by linarith
  then show ?thesis
  proof cases
    case 1
    then show ?thesis using PushData m
      by (simp add: GetOp2_def push_vch_def read_push_size_def opcode_defs uint_small_byte)
  next
    case 2
    then show ?thesis using PushData m
      by (simp add: GetOp2_def push_vch_def read_push_size_def opcode_defs unat_small_byte)
  next
    case 3
    then have w: "unat (of_nat (length d) :: 16 word) = length d"
      by (simp add: unsigned_of_nat take_bit_nat_eq_self)
    have l: "length (WriteLE16 io (of_nat (length d))) = 2"
      and r: "ReadLE16 io (WriteLE16 io (of_nat (length d))) = of_nat (length d)"
      using io by (simp_all add: le_io_ok_def)
    show ?thesis using PushData m 3 w l r
      by (simp add: GetOp2_def push_vch_def read_push_size_def opcode_defs)
  next
    case 4
    then have w: "unat (of_nat (length d) :: 32 word) = length d"
      using ok PushData by (simp add: unsigned_of_nat take_bit_nat_eq_self)
    have l: "length (WriteLE32 io (of_nat (length d))) = 4"
      and r: "ReadLE32 io (WriteLE32 io (of_nat (length d))) = of_nat (length d)"
      using io by (simp_all add: le_io_ok_def)
    show ?thesis using PushData m 4 w l r
      by (simp add: GetOp2_def push_vch_def read_push_size_def opcode_defs)
  qed
qed

section \<open>Reading a whole script\<close>

text \<open>
  The loop of every caller of \<open>GetOp\<close>: read instructions until the reader fails. It returns
  what was read and whether the script was read to its end.
\<close>

function read_all :: "le_io \<Rightarrow> CScript \<Rightarrow> nat \<Rightarrow> (opcodetype \<times> byte list) list \<times> bool" where
  "read_all io s pc =
     (if pc = length s then ([], True)
      else let (ok, pc', opcode, vch) = GetOp_data io s pc
        in if ok then let (is, fin) = read_all io s pc' in ((opcode, the vch) # is, fin)
           else ([], False))"
  by pat_completeness auto
termination
  by (relation "measure (\<lambda>(io, s, pc). length s - pc)")
     (auto simp: GetOp_data_def dest!: GetOp2_progress [OF sym])

declare read_all.simps [simp del]

lemma GetOp2_instr_at:
  assumes io: "le_io_ok io" and ok: "instr_ok i" and s: "s = pre @ instr_bytes io i @ rest"
    and len: "length s < 2 ^ 32"
  shows "GetOp2 io s (length pre) want =
    (True, length (pre @ instr_bytes io i), fst (instr_read i),
     if want then Some (snd (instr_read i)) else None)"
proof -
  have "GetOp2 io (instr_bytes io i @ rest) 0 want =
    (True, length (instr_bytes io i), fst (instr_read i),
     if want then Some (snd (instr_read i)) else None)"
    using len s by (intro GetOp2_instr [OF io ok]) simp
  then show ?thesis using s by (subst GetOp2_drop) simp_all
qed

lemma instr_bytes_nonempty [simp]: "instr_bytes io i \<noteq> []"
  by (cases i) (simp_all add: push_vch_def)

lemma push_vch_nonempty [simp]: "push_vch io s d \<noteq> []"
  by (simp add: push_vch_def)

lemma read_all_instrs:
  assumes "le_io_ok io" "list_all instr_ok is"
    "s = pre @ concat (map (instr_bytes io) is)" "length s < 2 ^ 32"
  shows "read_all io s (length pre) = (map instr_read is, True)"
  using assms(2,3)
proof (induction "is" arbitrary: pre)
  case Nil
  then show ?case by (simp add: read_all.simps)
next
  case (Cons i "is")
  have g: "GetOp2 io s (length pre) True =
      (True, length (pre @ instr_bytes io i), fst (instr_read i), Some (snd (instr_read i)))"
    using GetOp2_instr_at [OF assms(1) _ _ assms(4), of i pre "concat (map (instr_bytes io) is)" True]
      Cons.prems by simp
  have "read_all io s (length (pre @ instr_bytes io i)) = (map instr_read is, True)"
    using Cons.prems by (intro Cons.IH) simp_all
  moreover have "length pre \<noteq> length s" using Cons.prems(2) by simp
  ultimately show ?case using g
    by (subst read_all.simps) (simp add: GetOp_data_def)
qed

section \<open>Deleting at instruction boundaries\<close>

text \<open>
  What \<open>FindAndDelete\<close> is meant to compute, on the rest of the script at an instruction
  boundary: drop a copy that starts here, otherwise keep one instruction; bytes behind the
  last readable instruction stay.
\<close>

function delete_spec :: "le_io \<Rightarrow> CScript \<Rightarrow> CScript \<Rightarrow> CScript \<times> nat" where
  "delete_spec io b rest =
     (if b \<noteq> [] \<and> take (length b) rest = b
      then let (r, n) = delete_spec io b (drop (length b) rest) in (r, Suc n)
      else let (ok, d, opcode) = GetOp io rest 0
        in if ok then let (r, n) = delete_spec io b (drop d rest) in (take d rest @ r, n)
           else (rest, 0))"
  by pat_completeness auto
termination
proof (relation "measure (\<lambda>(io, b, rest). length rest)", goal_cases)
  case (2 io b rest)
  then show ?case by (cases rest) auto
qed (auto dest!: GetOp_progress [OF sym])

declare delete_spec.simps [simp del]

lemma delete_spec_none: "delete_spec io b rest = (r, 0) \<Longrightarrow> r = rest"
proof (induction io b rest arbitrary: r rule: delete_spec.induct)
  case (1 io b rest)
  then show ?case
    by (subst (asm) (3) delete_spec.simps) (auto split: if_splits prod.splits)
qed

lemma delete_spec_length:
  "delete_spec io b rest = (r, n) \<Longrightarrow> length r + n * length b = length rest"
proof (induction io b rest arbitrary: r n rule: delete_spec.induct)
  case (1 io b rest)
  show ?case
  proof (cases "b \<noteq> [] \<and> take (length b) rest = b")
    case True
    then have l: "length b \<le> length rest" by (metis length_take min.cobounded1 min.commute)
    obtain r' n' where d: "delete_spec io b (drop (length b) rest) = (r', n')" by fastforce
    then have "length r' + n' * length b = length (drop (length b) rest)"
      by (rule "1.IH"(1) [OF True])
    moreover have "(r, n) = (r', Suc n')"
      using "1.prems" True d by (subst (asm) delete_spec.simps) simp
    ultimately show ?thesis using l by simp
  next
    case False
    obtain ok d opcode where g: "GetOp io rest 0 = (ok, d, opcode)" using prod_cases3 by blast
    show ?thesis
    proof (cases ok)
      case True
      obtain r' n' where d': "delete_spec io b (drop d rest) = (r', n')" by fastforce
      have "length r' + n' * length b = length (drop d rest)"
        using "1.IH"(2) [OF False g [symmetric] refl refl True d'] by simp
      moreover have "(r, n) = (take d rest @ r', n')"
        using "1.prems" False True g d' by (subst (asm) delete_spec.simps) (auto simp: Let_def)
      moreover have "d \<le> length rest" using g True GetOp_progress by fastforce
      ultimately show ?thesis by simp
    next
      case no: False
      then show ?thesis using "1.prems" False g by (subst (asm) delete_spec.simps) (auto simp: Let_def)
    qed
  qed
qed

lemma slice_copy: "pc \<le> length s \<Longrightarrow>
    (length b \<le> length s - pc \<and> slice s pc (pc + length b) = b) = (take (length b) (drop pc s) = b)"
  by (auto simp: slice_def) (metis length_drop length_take min.cobounded1 min.commute)

lemma skip_copies_spec:
  "skip_copies s b pc n0 = (pc', n1) \<Longrightarrow> pc \<le> length s \<Longrightarrow> delete_spec io b (drop pc' s) = (r, n) \<Longrightarrow>
   pc' \<le> length s \<and> delete_spec io b (drop pc s) = (r, n1 - n0 + n) \<and> n0 \<le> n1 \<and>
   (b = [] \<or> take (length b) (drop pc' s) \<noteq> b)"
proof (induction s b pc n0 rule: skip_copies.induct)
  case (1 s b pc n0)
  show ?case
  proof (cases "b \<noteq> [] \<and> length b \<le> length s - pc \<and> slice s pc (pc + length b) = b")
    case True
    have sk: "skip_copies s b (pc + length b) (n0 + 1) = (pc', n1)"
      using True "1.prems"(1) by (subst (asm) skip_copies.simps) simp
    have ih: "pc' \<le> length s \<and> delete_spec io b (drop (pc + length b) s) = (r, n1 - (n0 + 1) + n) \<and>
        n0 + 1 \<le> n1 \<and> (b = [] \<or> take (length b) (drop pc' s) \<noteq> b)"
      using True "1.prems"(2,3) by (intro "1.IH" [OF True sk]) linarith+
    have "take (length b) (drop pc s) = b" using True slice_copy [OF "1.prems"(2)] by blast
    then have "delete_spec io b (drop pc s) = (r, Suc (n1 - (n0 + 1) + n))"
      using True ih by (subst delete_spec.simps) (simp add: add.commute)
    moreover have "Suc (n1 - (n0 + 1) + n) = n1 - n0 + n" using ih by linarith
    ultimately show ?thesis using ih by simp
  next
    case False
    then have "pc' = pc" "n1 = n0" using "1.prems"(1) skip_copies.simps [of s b pc n0] by auto
    then show ?thesis using "1.prems" False slice_copy [OF "1.prems"(2)] by auto
  qed
qed

lemma slice_append: "a \<le> b \<Longrightarrow> b \<le> c \<Longrightarrow> slice s a b @ slice s b c = slice s a c"
  using take_add [of "b - a" "c - b" "drop a s"] by (simp add: slice_def)

lemma slice_take: "pc \<le> c \<Longrightarrow> slice s pc c = take (c - pc) (drop pc s)"
  by (simp add: slice_def)

lemma slice_to_end: "slice s pc (length s) = drop pc s"
  by (simp add: slice_def)

lemma fad_loop_spec:
  "fad_loop io s b pc pc2 result n0 = (r', pc2', n1) \<Longrightarrow> pc2 \<le> pc \<Longrightarrow> pc \<le> length s \<Longrightarrow>
   delete_spec io b (drop pc s) = (r, n) \<Longrightarrow>
   r' @ slice s pc2' (length s) = result @ slice s pc2 pc @ r \<and> n1 = n0 + n"
proof (induction io s b pc pc2 result n0 arbitrary: r n rule: fad_loop.induct)
  case (1 io s b pc pc2 result n0)
  obtain p k where sk: "skip_copies s b pc n0 = (p, k)" by fastforce
  obtain more pn opcode where g: "GetOp io s p = (more, pn, opcode)" using prod_cases3 by blast
  obtain q m where d: "delete_spec io b (drop p s) = (q, m)" by fastforce
  have p: "p \<le> length s" "r = q" "n = k - n0 + m" "n0 \<le> k"
      "b = [] \<or> take (length b) (drop p s) \<noteq> b"
    using skip_copies_spec [OF sk "1.prems"(3) d] "1.prems"(4) by auto
  have loop: "fad_loop io s b pc pc2 result n0 =
      (if more then fad_loop io s b pn p (result @ slice s pc2 pc) k else (result @ slice s pc2 pc, p, k))"
    using sk g by (subst fad_loop.simps) simp
  have g0: "GetOp io (drop p s) 0 = (more, pn - p, opcode)" and pn: "p \<le> pn"
    using g GetOp_drop [OF p(1), of io] by (auto split: prod.splits)
  show ?case
  proof (cases more)
    case True
    obtain q' m' where d': "delete_spec io b (drop pn s) = (q', m')" by fastforce
    have "delete_spec io b (drop p s) = (take (pn - p) (drop p s) @ q', m')"
      using True g0 p(5) d' pn by (subst delete_spec.simps) auto
    then have q: "q = slice s p pn @ q'" "m = m'" using d by (simp_all add: slice_def)
    have "r' @ slice s pc2' (length s) = (result @ slice s pc2 pc) @ slice s p pn @ q' \<and> n1 = k + m'"
      using loop True "1.prems"(1) pn d' GetOp_progress [of io s p pn opcode] g
      by (intro "1.IH" [OF refl sk [symmetric] refl refl g [symmetric] refl refl True]) auto
    then show ?thesis using p q by simp
  next
    case False
    have "delete_spec io b (drop p s) = (drop p s, 0)"
      using False g0 p(5) by (subst delete_spec.simps) auto
    then show ?thesis using loop False "1.prems"(1) d p by (auto simp: slice_to_end)
  qed
qed

lemma FindAndDelete_spec: "b \<noteq> [] \<Longrightarrow> FindAndDelete io s b = delete_spec io b s"
proof -
  assume b: "b \<noteq> []"
  obtain r' pc2' n1 where f: "fad_loop io s b 0 0 [] 0 = (r', pc2', n1)" using prod_cases3 by blast
  obtain r n where d: "delete_spec io b s = (r, n)" by fastforce
  have "r' @ slice s pc2' (length s) = r \<and> n1 = n"
    using fad_loop_spec [OF f _ _, of r n] d by (simp add: slice_def)
  then show ?thesis using b f d delete_spec_none [of io b s r]
    by (auto simp: FindAndDelete_def)
qed

lemma instr_bytes_prefix:
  assumes io: "le_io_ok io" and ok: "instr_ok i" "instr_ok b"
    and len: "length (instr_bytes io i @ rest) < 2 ^ 32"
    and pre: "take (length (instr_bytes io b)) (instr_bytes io i @ rest) = instr_bytes io b"
  shows "i = b"
proof -
  obtain rest' where e: "instr_bytes io i @ rest = instr_bytes io b @ rest'"
    using pre append_take_drop_id [of "length (instr_bytes io b)" "instr_bytes io i @ rest"] by metis
  have len': "length (instr_bytes io b @ rest') < 2 ^ 32" using len unfolding e .
  have "instr_read i = instr_read b"
    using GetOp2_instr [OF io ok(1) len, of True] GetOp2_instr [OF io ok(2) len', of True]
    unfolding e by (auto intro: prod_eqI)
  then show ?thesis by (rule instr_read_inject [OF ok])
qed

lemma GetOp_instr:
  "le_io_ok io \<Longrightarrow> instr_ok i \<Longrightarrow> length (instr_bytes io i @ rest) < 2 ^ 32 \<Longrightarrow>
   GetOp io (instr_bytes io i @ rest) 0 = (True, length (instr_bytes io i), fst (instr_read i))"
  by (simp add: GetOp_def GetOp2_instr)

lemma delete_spec_instrs:
  assumes io: "le_io_ok io" and b: "instr_ok b"
  shows "list_all instr_ok is \<Longrightarrow> length (concat (map (instr_bytes io) is)) < 2 ^ 32 \<Longrightarrow>
    delete_spec io (instr_bytes io b) (concat (map (instr_bytes io) is)) =
      (concat (map (instr_bytes io) (filter (\<lambda>i. i \<noteq> b) is)), length (filter (\<lambda>i. i = b) is))"
proof (induction "is")
  case Nil
  then show ?case
    by (subst delete_spec.simps) (simp add: GetOp_def GetOp2_def instr_bytes_nonempty [symmetric])
next
  case (Cons i "is")
  let ?rest = "concat (map (instr_bytes io) is)"
  have len: "length (instr_bytes io i @ ?rest) < 2 ^ 32" using Cons.prems(2) by simp
  have ih: "delete_spec io (instr_bytes io b) ?rest =
      (concat (map (instr_bytes io) (filter (\<lambda>i. i \<noteq> b) is)), length (filter (\<lambda>i. i = b) is))"
    using Cons by simp
  show ?case
  proof (cases "i = b")
    case True
    then show ?thesis using ih by (subst delete_spec.simps) simp
  next
    case False
    then have n: "take (length (instr_bytes io b)) (instr_bytes io i @ ?rest) \<noteq> instr_bytes io b"
      using instr_bytes_prefix [OF io _ b len] Cons.prems(1) by auto
    have "GetOp io (instr_bytes io i @ ?rest) 0 = (True, length (instr_bytes io i), fst (instr_read i))"
      using Cons.prems(1) len by (intro GetOp_instr [OF io]) simp_all
    then have "delete_spec io (instr_bytes io b) (instr_bytes io i @ ?rest) =
        (instr_bytes io i @ concat (map (instr_bytes io) (filter (\<lambda>i. i \<noteq> b) is)),
         length (filter (\<lambda>i. i = b) is))"
      using n ih by (subst delete_spec.simps) (simp del: length_append)
    then show ?thesis using False by simp
  qed
qed

lemma find_loop_count:
  "find_loop io s op pc n = n + length (filter (\<lambda>(opcode, vch). opcode = op) (fst (read_all io s pc)))"
proof (induction io s op pc n rule: find_loop.induct)
  case (1 io s op pc n)
  obtain ok pc' opcode v where g: "GetOp2 io s pc True = (ok, pc', opcode, v)" using prod_cases4 by blast
  then have "GetOp io s pc = (ok, pc', opcode)"
    using GetOp2_want [OF g, of False] by (auto simp: GetOp_def)
  then show ?case using 1 g
    by (subst find_loop.simps, subst read_all.simps)
       (auto simp: GetOp_data_def Let_def split: prod.splits)
qed

section \<open>Properties\<close>

text \<open>
  The instruction reader is safe on every script and with whatever the little-endian
  helpers return. A successful read moves the iterator forward and not past the end, reports
  the byte at the old position as the opcode, and hands out bytes that end at the new
  position.
\<close>

theorem getop_safe:
  assumes "GetOp2 io s pc True = (True, pc', opcode, vch)"
  shows "pc < pc' \<and> pc' \<le> length s \<and> opcode = uint (s ! pc) \<and>
    (\<exists>d. vch = Some d \<and> pc + length d < pc' \<and> slice s (pc' - length d) pc' = d)"
proof (cases "uint (s ! pc) \<le> OP_PUSHDATA4")
  case False
  then show ?thesis using assms by (auto simp: GetOp2_def Let_def slice_def split: if_splits)
next
  case True
  then obtain n p where r: "read_push_size io s (pc + 1) (uint (s ! pc)) = Inr (n, p)"
      and p: "\<not> length s < p" "\<not> (length s - p) mod 2 ^ 32 < n" "pc' = p + n" "opcode = uint (s ! pc)"
        "vch = Some (take n (drop p s))" "pc < length s"
    using assms by (auto simp: GetOp2_def Let_def split: sum.splits prod.splits if_splits)
  have "n \<le> length s - p" using p(2) mod_less_eq_dividend [of "length s - p" "2 ^ 32"] by linarith
  then have "p + n \<le> length s" using p(1) by linarith
  then show ?thesis using p read_push_size_bounds [OF r] by (simp add: slice_def)
qed

theorem getop_safe_witness:
  "0 < (3::nat) \<and> (3::nat) \<le> length [2, 7, 8, 0x6a :: byte]"
proof -
  have g: "GetOp2 le_reference [2, 7, 8, 0x6a] 0 True = (True, 3, 2, Some [7, 8])"
    by (simp add: GetOp2_def, simp add: opcode_defs, simp add: read_push_size_def opcode_defs)
  show ?thesis using getop_safe [OF g] by blast
qed

text \<open>
  C2: a script assembled with the \<open>\<lless>\<close> operators reads back instruction by instruction.
  For a list of data pushes and non-push opcodes, appending succeeds and the \<open>GetOp\<close> loop
  returns each opcode with its data and stops at the end of the script, whatever push form
  the size selects.
\<close>

theorem assemble_read_all:
  assumes "le_io_ok io" "list_all instr_ok is" "assemble io [] is = Inr s" "length s < 2 ^ 32"
  shows "read_all io s 0 = (map instr_read is, True)"
  using read_all_instrs [OF assms(1,2), of s "[]"] assms(3,4)
  by (simp add: assemble_bytes [OF assms(2)])

lemma unat_ucast_byte: "unat (ucast w :: byte) = unat w mod 256"
  by (simp only: unsigned_ucast_eq take_bit_eq_mod) simp

lemma unat_drop: "unat (drop_bit n w) = unat (w :: 'a::len word) div 2 ^ n"
  by (simp only: unat_drop_bit_eq) (simp add: drop_bit_eq_div)

lemma nat_bytes4: "x mod 256 + 256 * (x div 2 ^ 8 mod 256 + 256 * (x div 2 ^ 16 mod 256 +
    256 * (x div 2 ^ 24 mod 256))) = x" if "x < 2 ^ 32" for x :: nat
proof -
  have "x = x mod 2 ^ 32" using that by simp
  also have "(2::nat) ^ 32 = 2 ^ 8 * (2 ^ 8 * (2 ^ 8 * 2 ^ 8))" by simp
  also have "x mod (2 ^ 8 * (2 ^ 8 * (2 ^ 8 * 2 ^ 8))) =
      x mod 256 + 256 * (x div 2 ^ 8 mod 256 + 256 * (x div 2 ^ 16 mod 256 + 256 * (x div 2 ^ 24 mod 256)))"
    unfolding mod_mult2_eq by (simp add: div_mult2_eq [symmetric] algebra_simps)
  finally show ?thesis by (rule sym)
qed

lemma le_reference_ok: "le_io_ok le_reference"
proof -
  have "of_nat (le_nat [ucast w, ucast (drop_bit 8 w)]) = w" for w :: "16 word"
  proof -
    have "unat w < 256 * 256" using unsigned_less [of w] by simp
    then have "unat w div 256 < 256" by (simp add: less_mult_imp_div_less)
    then have "le_nat [ucast w, ucast (drop_bit 8 w)] = unat w"
      by (simp only: le_nat.simps unat_ucast_byte unat_drop) simp
    then show ?thesis by simp
  qed
  moreover have "of_nat (le_nat [ucast w, ucast (drop_bit 8 w), ucast (drop_bit 16 w),
      ucast (drop_bit 24 w)]) = w" for w :: "32 word"
  proof -
    have "unat w < 2 ^ 32" using unsigned_less [of w] by simp
    then have "le_nat [ucast w, ucast (drop_bit 8 w), ucast (drop_bit 16 w), ucast (drop_bit 24 w)] = unat w"
      using nat_bytes4 [of "unat w"] by (simp only: le_nat.simps unat_ucast_byte unat_drop) simp
    then show ?thesis by simp
  qed
  ultimately show ?thesis by (simp add: le_io_ok_def le_reference_def del: le_nat.simps)
qed

lemma assemble_example:
  "assemble le_reference [] [PushData [7, 8], Oper 0x76] = Inr [2, 7, 8, 0x76]"
  by code_simp

theorem assemble_read_all_witness:
  "read_all le_reference [2, 7, 8, 0x76] 0 = (map instr_read [PushData [7, 8], Oper 0x76], True)"
proof -
  have ok: "list_all instr_ok [PushData [7, 8], Oper 0x76]" by (simp add: opcode_defs)
  have len: "length [2, 7, 8, 0x76 :: byte] < 2 ^ 32" by simp
  show ?thesis by (rule assemble_read_all [OF le_reference_ok ok assemble_example len])
qed

text \<open>
  C3: \<open>FindAndDelete\<close> is the deletion at instruction boundaries. For a non-empty pattern its
  result and its count are those of \<open>delete_spec\<close>, which looks for the pattern only where
  an instruction starts, and no byte appears or is lost but for the counted copies.
\<close>

theorem find_and_delete_refines:
  assumes "b \<noteq> []"
  shows "FindAndDelete io s b = delete_spec io b s \<and>
    length (fst (FindAndDelete io s b)) + snd (FindAndDelete io s b) * length b = length s"
  using FindAndDelete_spec [OF assms, of io s] delete_spec_length [of io b s] by (metis prod.collapse)

theorem find_and_delete_refines_witness:
  "FindAndDelete le_reference [1, 0xab, 0xab] [0xab] = ([1, 0xab], 1) \<and>
   length (fst (FindAndDelete le_reference [1, 0xab, 0xab] [0xab])) + 1 = 3"
proof -
  have ne: "[0xab :: byte] \<noteq> []" by simp
  have d0: "delete_spec le_reference [0xab] [] = ([], 0)"
    by (subst delete_spec.simps) (simp add: GetOp_def GetOp2_def)
  have d1: "delete_spec le_reference [0xab] [0xab] = ([], 1)"
    by (subst delete_spec.simps) (simp add: d0)
  have d: "delete_spec le_reference [0xab] [1, 0xab, 0xab] = ([1, 0xab], 1)"
    by (subst delete_spec.simps) (simp add: d1 GetOp_def GetOp2_def opcode_defs read_push_size_def)
  then show ?thesis using find_and_delete_refines [OF ne, of le_reference "[1, 0xab, 0xab]"] by simp
qed

text \<open>
  C1: deleting one instruction from an assembled script removes exactly its occurrences. The
  pattern is the bytes of a push or of an opcode; the result is the script assembled from the
  other instructions, and the count is the number of those removed. Data that happens to
  contain the pattern's bytes is not touched.
\<close>

theorem find_and_delete_instr:
  assumes "le_io_ok io" "list_all instr_ok is" "instr_ok b"
    and "assemble io [] is = Inr s" "append_instr io [] b = Inr pat" "length s < 2 ^ 32"
  shows "\<exists>s'. assemble io [] (filter (\<lambda>i. i \<noteq> b) is) = Inr s' \<and>
    FindAndDelete io s pat = (s', length (filter (\<lambda>i. i = b) is))"
proof -
  have s: "s = concat (map (instr_bytes io) is)" and pat: "pat = instr_bytes io b"
    using assms(4,5) by (simp_all add: assemble_bytes [OF assms(2)] append_instr_bytes [OF assms(3)])
  have "list_all instr_ok (filter (\<lambda>i. i \<noteq> b) is)" using assms(2) by (simp add: list_all_iff)
  then have "assemble io [] (filter (\<lambda>i. i \<noteq> b) is) =
      Inr (concat (map (instr_bytes io) (filter (\<lambda>i. i \<noteq> b) is)))"
    by (simp add: assemble_bytes)
  then show ?thesis
    using delete_spec_instrs [OF assms(1,3,2)] assms(6) by (simp add: FindAndDelete_spec s pat)
qed

theorem find_and_delete_instr_witness:
  "\<exists>s'. assemble le_reference [] [PushData [7, 8]] = Inr s' \<and>
     FindAndDelete le_reference [2, 7, 8, 0x76] [0x76] = (s', 1)"
proof -
  have ok: "list_all instr_ok [PushData [7, 8], Oper 0x76]" "instr_ok (Oper 0x76)"
    by (simp_all add: opcode_defs)
  have p: "append_instr le_reference [] (Oper 0x76) = Inr [0x76]" by code_simp
  have len: "length [2, 7, 8, 0x76 :: byte] < 2 ^ 32" by simp
  show ?thesis
    using find_and_delete_instr [OF le_reference_ok ok assemble_example p len] by simp
qed

text \<open>
  \<open>Find\<close> counts the occurrences of an opcode among the instructions that can be read,
  on every script.
\<close>

theorem find_counts:
  "Find io s op = length (filter (\<lambda>(opcode, vch). opcode = op) (fst (read_all io s 0)))"
  by (simp add: Find_def find_loop_count)

text \<open>
  An integer pushed on a script is read back. The one instruction \<open>push_int64\<close> appends
  is \<open>OP_1NEGATE\<close> for -1, the small-integer opcode for 0 to 16, and otherwise a push of bytes
  that the minimal-encoding constructor turns into the integer.
\<close>

theorem push_int64_readback:
  assumes "le_io_ok io" "sint n \<noteq> i64_min" "length s < 2 ^ 31"
  shows "\<exists>s' opcode d. push_int64 io s n = Inr s' \<and>
    GetOp2 io s' (length s) True = (True, length s', opcode, Some d) \<and>
    (if sint n = -1 then opcode = OP_1NEGATE
     else if 0 \<le> sint n \<and> sint n \<le> 16 then DecodeOP_N opcode = Inr (sint n)
     else CScriptNum_of_vch d True 8 = Inr \<lparr>m_value = n\<rparr>)"
proof -
  have step: ?thesis
    if i: "instr_ok i" "length (instr_bytes io i) \<le> 10"
      and s': "push_int64 io s n = Inr (s @ instr_bytes io i)"
      and num: "if sint n = -1 then fst (instr_read i) = OP_1NEGATE
         else if 0 \<le> sint n \<and> sint n \<le> 16 then DecodeOP_N (fst (instr_read i)) = Inr (sint n)
         else CScriptNum_of_vch (snd (instr_read i)) True 8 = Inr \<lparr>m_value = n\<rparr>" for i
  proof -
    have "length (s @ instr_bytes io i) < 2 ^ 32" using i(2) assms(3) by simp
    then show ?thesis
      using GetOp2_instr_at [OF assms(1) i(1), of "s @ instr_bytes io i" s "[]" True] s' num by auto
  qed
  consider "sint n = -1 \<or> (1 \<le> sint n \<and> sint n \<le> 16)" | "n = 0"
    | "n \<noteq> 0" "\<not> (sint n = -1 \<or> (1 \<le> sint n \<and> sint n \<le> 16))" by blast
  then show ?thesis
  proof cases
    case 1
    then show ?thesis
      by (intro step [of "Oper (sint n + (OP_1 - 1))"])
         (auto simp: opcode_defs push_int64_def DecodeOP_N_def)
  next
    case 2
    then show ?thesis
      by (intro step [of "PushData []"])
         (simp_all add: opcode_defs push_int64_def push_vch_def DecodeOP_N_def)
  next
    case 3
    have "sint n \<noteq> 0" using 3(1) by (metis sint_0 sint_i64_inject)
    then have c: "sint n \<noteq> -1" "\<not> (1 \<le> sint n \<and> sint n \<le> 16)" "\<not> (0 \<le> sint n \<and> sint n \<le> 16)"
      using 3(2) by auto
    obtain d where d: "serialize n = Inr d" using serialize_eq [OF assms(2)] by blast
    note spec = serialize_spec [OF assms(2) d]
    have "CScriptNum_of_vch d True 8 = Inr \<lparr>m_value = n\<rparr>"
      using CScriptNum_of_serialized [OF assms(2) d spec(3)] .
    moreover have "push_int64 io s n = Inr (s @ instr_bytes io (PushData d))"
      using 3(1) c d push_vch_append [of io s d] unfolding push_int64_def by (simp only: if_False) simp
    moreover have "length (instr_bytes io (PushData d)) \<le> 10"
      using spec(3) by (simp add: push_vch_def opcode_defs)
    ultimately show ?thesis using c(1,3) spec(3) by (intro step [of "PushData d"]) (simp_all only: if_False, simp_all)
  qed
qed

theorem push_int64_readback_witness:
  "push_int64 le_reference [] 1000 = Inr [2, 0xe8, 3] \<and>
   GetOp2 le_reference [2, 0xe8, 3] 0 True = (True, 3, 2, Some [0xe8, 3]) \<and>
   CScriptNum_of_vch [0xe8, 3] True 8 = Inr \<lparr>m_value = 1000\<rparr>"
proof -
  have m: "sint (1000 :: i64) \<noteq> i64_min" by (simp add: i64_min_def)
  have l: "length ([] :: byte list) < 2 ^ 31" by simp
  have p: "push_int64 le_reference [] 1000 = Inr [2, 0xe8, 3]" by code_simp
  have g: "GetOp2 le_reference [2, 0xe8, 3] 0 True = (True, 3, 2, Some [0xe8, 3])"
    by (simp add: GetOp2_def, simp add: opcode_defs, simp add: read_push_size_def opcode_defs)
  show ?thesis using push_int64_readback [OF le_reference_ok m l] p g by simp
qed

end
