(* ===== verification/StdMap.thy ===== *)
theory StdMap
  imports Prelude
begin

text \<open>
  \<open>std::map\<close> and \<open>std::set\<close> as the program uses them: key/value pairs in increasing key
  order, so that an iteration over the list visits the entries as the C++ iterator does.
  The locale \<open>map_store\<close> is the contract the components rely on; it is interpreted on these
  lists, and its facts are proved once.
\<close>

section \<open>The contract of a map\<close>

locale map_store =
  fixes ok :: "'m \<Rightarrow> bool"
    and get :: "'m \<Rightarrow> 'k \<Rightarrow> 'v option"
    and put :: "'m \<Rightarrow> 'k \<Rightarrow> 'v \<Rightarrow> 'm"
    and del :: "'m \<Rightarrow> 'k \<Rightarrow> 'm"
    and emp :: 'm
  assumes ok_emp: "ok emp"
    and ok_put: "ok m \<Longrightarrow> ok (put m k v)"
    and ok_del: "ok m \<Longrightarrow> ok (del m k)"
    and get_emp: "get emp k = None"
    and get_put: "ok m \<Longrightarrow> get (put m k v) k' = (if k' = k then Some v else get m k')"
    and get_del: "ok m \<Longrightarrow> get (del m k) k' = (if k' = k then None else get m k')"
    and get_ext: "ok m \<Longrightarrow> ok m' \<Longrightarrow> (\<And>k. get m k = get m' k) \<Longrightarrow> m = m'"
begin

lemma put_put: "ok m \<Longrightarrow> put (put m k v) k w = put m k w"
  by (rule get_ext) (simp_all add: ok_put get_put)

lemma put_commute: "ok m \<Longrightarrow> k \<noteq> k' \<Longrightarrow> put (put m k v) k' w = put (put m k' w) k v"
  by (rule get_ext) (simp_all add: ok_put get_put)

lemma put_same: "ok m \<Longrightarrow> get m k = Some v \<Longrightarrow> put m k v = m"
  by (rule get_ext) (simp_all add: ok_put get_put)

lemma del_put: "ok m \<Longrightarrow> get m k = None \<Longrightarrow> del (put m k v) k = m"
  by (rule get_ext) (simp_all add: ok_put ok_del get_put get_del)

lemma del_absent: "ok m \<Longrightarrow> get m k = None \<Longrightarrow> del m k = m"
  by (rule get_ext) (simp_all add: ok_del get_del)

lemma ok_fold: "ok m \<Longrightarrow> ok (fold (\<lambda>(k, v) m. put m k v) xs m)"
  by (induction xs arbitrary: m) (auto simp: ok_put)

lemma get_fold: "ok m \<Longrightarrow>
    get (fold (\<lambda>(k, v) m. put m k v) xs m) k = (case map_of (rev xs) k of Some v \<Rightarrow> Some v | None \<Rightarrow> get m k)"
  by (induction xs arbitrary: m) (auto simp: ok_put get_put map_add_def split: option.splits)

end

section \<open>Ordered lists of entries\<close>

type_synonym ('k, 'v) stdmap = "('k \<times> 'v) list"

definition smap_ok :: "('k::linorder, 'v) stdmap \<Rightarrow> bool" where
  "smap_ok m \<longleftrightarrow> sorted_wrt (<) (map fst m)"

fun smap_find :: "('k::linorder, 'v) stdmap \<Rightarrow> 'k \<Rightarrow> 'v option" where
  "smap_find [] k = None"
| "smap_find ((k', v) # m) k = (if k = k' then Some v else smap_find m k)"

fun smap_put :: "('k::linorder, 'v) stdmap \<Rightarrow> 'k \<Rightarrow> 'v \<Rightarrow> ('k, 'v) stdmap" where
  "smap_put [] k v = [(k, v)]"
| "smap_put ((k', v') # m) k v =
     (if k < k' then (k, v) # (k', v') # m
      else if k = k' then (k, v) # m
      else (k', v') # smap_put m k v)"

fun smap_erase :: "('k::linorder, 'v) stdmap \<Rightarrow> 'k \<Rightarrow> ('k, 'v) stdmap" where
  "smap_erase [] k = []"
| "smap_erase ((k', v) # m) k = (if k = k' then m else (k', v) # smap_erase m k)"

definition smap_has :: "('k::linorder, 'v) stdmap \<Rightarrow> 'k \<Rightarrow> bool" where
  "smap_has m k \<longleftrightarrow> smap_find m k \<noteq> None"

text \<open>\<open>std::map::insert\<close> keeps an entry that is there already.\<close>

definition smap_insert :: "('k::linorder, 'v) stdmap \<Rightarrow> 'k \<Rightarrow> 'v \<Rightarrow> ('k, 'v) stdmap" where
  "smap_insert m k v = (if smap_has m k then m else smap_put m k v)"

lemma smap_ok_Cons [simp]:
  "smap_ok ((k, v) # m) \<longleftrightarrow> (\<forall>p \<in> set m. k < fst p) \<and> smap_ok m"
  by (auto simp: smap_ok_def)

lemma smap_ok_Nil [simp]: "smap_ok []"
  by (simp add: smap_ok_def)

lemma smap_find_map_of: "smap_find m k = map_of m k"
  by (induction m k rule: smap_find.induct) auto

lemma smap_find_None_iff: "smap_find m k = None \<longleftrightarrow> k \<notin> fst ` set m"
  by (simp add: smap_find_map_of map_of_eq_None_iff)

lemma smap_find_SomeD: "smap_find m k = Some v \<Longrightarrow> (k, v) \<in> set m"
  by (simp add: smap_find_map_of map_of_SomeD)

lemma smap_ok_distinct: "smap_ok m \<Longrightarrow> distinct (map fst m)"
  unfolding smap_ok_def by (simp add: strict_sorted_iff)

lemma smap_find_in: "smap_ok m \<Longrightarrow> (k, v) \<in> set m \<Longrightarrow> smap_find m k = Some v"
  by (simp add: smap_find_map_of smap_ok_distinct map_of_is_SomeI)

lemma set_smap_put: "set (smap_put m k v) \<subseteq> insert (k, v) (set m)"
  by (induction m k v rule: smap_put.induct) auto

lemma set_smap_erase: "set (smap_erase m k) \<subseteq> set m"
  by (induction m k rule: smap_erase.induct) auto

lemma smap_ok_put [simp]: "smap_ok m \<Longrightarrow> smap_ok (smap_put m k v)"
  by (induction m k v rule: smap_put.induct) (use set_smap_put in fastforce)+

lemma smap_ok_erase [simp]: "smap_ok m \<Longrightarrow> smap_ok (smap_erase m k)"
  by (induction m k rule: smap_erase.induct) (use set_smap_erase in fastforce)+

lemma smap_find_less: "\<forall>p \<in> set m. k < fst p \<Longrightarrow> smap_find m k = None"
  by (auto simp: smap_find_None_iff)

lemma smap_find_put [simp]:
  "smap_find (smap_put m k v) k' = (if k' = k then Some v else smap_find m k')"
  by (induction m k v rule: smap_put.induct) auto

lemma smap_find_erase [simp]:
  "smap_ok m \<Longrightarrow> smap_find (smap_erase m k) k' = (if k' = k then None else smap_find m k')"
  by (induction m k rule: smap_erase.induct) (auto simp: smap_find_less)

lemma smap_ext:
  assumes "smap_ok m" "smap_ok m'" "\<And>k. smap_find m k = smap_find m' k"
  shows "m = m'"
proof (rule map_sorted_distinct_set_unique [where f = fst])
  show "sorted (map fst m)" "sorted (map fst m')"
    using assms(1,2) unfolding smap_ok_def by (simp_all add: strict_sorted_iff)
  show "distinct (map fst m)" "distinct (map fst m')"
    using assms(1,2) by (simp_all add: smap_ok_distinct)
  have "set m = {(k, v). smap_find m k = Some v}" if "smap_ok m" for m :: "('a \<times> 'b) list"
    using that by (auto dest: smap_find_SomeD intro: smap_find_in)
  then show "set m = set m'" using assms by simp
  show "inj_on fst (set m \<union> set m')"
    using \<open>set m = set m'\<close> assms(1) smap_ok_distinct
    by (metis distinct_map sup.idem)
qed

interpretation smap: map_store smap_ok smap_find smap_put smap_erase "[]"
  by unfold_locales (auto intro: smap_ext)

lemma smap_has_put [simp]: "smap_has (smap_put m k v) k' \<longleftrightarrow> k' = k \<or> smap_has m k'"
  by (simp add: smap_has_def)

lemma smap_ok_insert [simp]: "smap_ok m \<Longrightarrow> smap_ok (smap_insert m k v)"
  by (simp add: smap_insert_def)

lemma smap_find_insert [simp]:
  "smap_find (smap_insert m k v) k' =
     (if k' = k then (case smap_find m k of Some w \<Rightarrow> Some w | None \<Rightarrow> Some v) else smap_find m k')"
  by (auto simp: smap_insert_def smap_has_def split: option.splits)

lemma smap_put_notin_mem:
  "smap_ok m \<Longrightarrow> smap_find m k = None \<Longrightarrow> set (smap_put m k v) = insert (k, v) (set m)"
  by (induction m k v rule: smap_put.induct) (auto split: if_splits)

lemma map_of_rev_distinct:
  assumes "distinct (map fst m)"
  shows "map_of (rev m) k = map_of m k"
proof (rule option.expand)
  have "distinct (map fst (rev m))" using assms by (simp add: rev_map [symmetric])
  then have iff: "map_of (rev m) k = Some v \<longleftrightarrow> map_of m k = Some v" for v
    using assms by (simp add: map_of_eq_Some_iff)
  then show "(map_of (rev m) k = None) = (map_of m k = None)" by (metis not_Some_eq)
  show "the (map_of (rev m) k) = the (map_of m k)" if "map_of (rev m) k \<noteq> None"
    using that iff [of "the (map_of (rev m) k)"] by simp
qed

lemma length_smap_put:
  "length (smap_put m k v) = (if smap_has m k then length m else Suc (length m))" if "smap_ok m"
  using that by (induction m k v rule: smap_put.induct) (auto simp: smap_has_def smap_find_less order.strict_trans)

lemma length_smap_erase:
  "length (smap_erase m k) = (if smap_has m k then length m - 1 else length m)"
  by (induction m k rule: smap_erase.induct) (auto simp: smap_has_def dest!: smap_find_SomeD length_pos_if_in_set)

section \<open>Ordered sets\<close>

type_synonym 'k stdset = "'k list"

fun sset_insert :: "'k::linorder stdset \<Rightarrow> 'k \<Rightarrow> 'k stdset" where
  "sset_insert [] k = [k]"
| "sset_insert (x # s) k = (if k < x then k # x # s else if k = x then x # s else x # sset_insert s k)"

definition sset_ok :: "'k::linorder stdset \<Rightarrow> bool" where
  "sset_ok s \<longleftrightarrow> sorted_wrt (<) s"

lemma set_sset_insert [simp]: "set (sset_insert s k) = insert k (set s)"
  by (induction s k rule: sset_insert.induct) auto

lemma sset_ok_insert [simp]: "sset_ok s \<Longrightarrow> sset_ok (sset_insert s k)"
  by (induction s k rule: sset_insert.induct) (auto simp: sset_ok_def)

section \<open>Sets with a comparator\<close>

text \<open>
  \<open>std::set<K, Compare>\<close>: two keys are the same for the set when neither is less than the
  other. The locale is what \<open>Compare\<close> has to satisfy, with the laws of the operations.
\<close>

fun cset_insert :: "('k \<Rightarrow> 'k \<Rightarrow> bool) \<Rightarrow> 'k list \<Rightarrow> 'k \<Rightarrow> 'k list" where
  "cset_insert lt [] k = [k]"
| "cset_insert lt (x # s) k =
     (if lt k x then k # x # s else if lt x k then x # cset_insert lt s k else x # s)"

definition cset_erase :: "('k \<Rightarrow> 'k \<Rightarrow> bool) \<Rightarrow> 'k list \<Rightarrow> 'k \<Rightarrow> 'k list" where
  "cset_erase lt s k = filter (\<lambda>x. lt x k \<or> lt k x) s"

locale comparator =
  fixes lt :: "'k \<Rightarrow> 'k \<Rightarrow> bool"
  assumes irrefl: "\<not> lt a a"
    and trans: "lt a b \<Longrightarrow> lt b c \<Longrightarrow> lt a c"
    and total: "a \<noteq> b \<Longrightarrow> lt a b \<or> lt b a"
begin

lemma set_insert: "set (cset_insert lt s k) = insert k (set s)"
proof (induction s)
  case (Cons x s)
  then show ?case using total [of k x] by (auto simp: irrefl)
qed simp

lemma sorted_insert: "sorted_wrt lt s \<Longrightarrow> sorted_wrt lt (cset_insert lt s k)"
proof (induction s)
  case (Cons x s)
  then show ?case by (auto simp: set_insert intro: trans)
qed simp

lemma set_erase: "set (cset_erase lt s k) = set s - {k}"
  using total irrefl by (auto simp: cset_erase_def)

lemma sorted_erase: "sorted_wrt lt s \<Longrightarrow> sorted_wrt lt (cset_erase lt s k)"
  by (simp add: cset_erase_def sorted_wrt_filter)

lemma sorted_distinct: "sorted_wrt lt s \<Longrightarrow> distinct s"
  by (induction s) (auto simp: irrefl)

lemma sorted_unique:
  assumes "sorted_wrt lt s" "sorted_wrt lt t" "set s = set t"
  shows "s = t"
  using assms
proof (induction s arbitrary: t)
  case (Cons x s)
  then obtain y t' where t: "t = y # t'" by (cases t) auto
  have "\<not> lt x y \<and> \<not> lt y x"
  proof
    show "\<not> lt x y"
    proof
      assume "lt x y"
      moreover have "x \<in> set (y # t')" using Cons.prems(3) t by auto
      ultimately show False using Cons.prems(2) t irrefl trans by (metis list.set_cases set_ConsD sorted_wrt.simps(2))
    qed
    show "\<not> lt y x"
    proof
      assume "lt y x"
      moreover have "y \<in> set (x # s)" using Cons.prems(3) t by auto
      ultimately show False using Cons.prems(1) irrefl trans by (metis set_ConsD sorted_wrt.simps(2))
    qed
  qed
  then have x: "x = y" using total by blast
  have "x \<notin> set s" "y \<notin> set t'" using Cons.prems(1,2) t irrefl [of x] irrefl [of y] by auto
  then have "set s = set t'" using Cons.prems(3) t x by (metis insert_ident list.simps(15))
  then show ?case using Cons.IH [of t'] Cons.prems(1,2) t x by simp
qed simp

end

interpretation increasing: comparator "(<) :: 'k::linorder \<Rightarrow> 'k \<Rightarrow> bool"
  by unfold_locales auto

lemma cset_insert_increasing: "cset_insert (<) s k = sset_insert s k"
  by (induction s k rule: sset_insert.induct) (auto simp: not_less_iff_gr_or_eq)

end
