(* ===== verification/Json.thy ===== *)
theory Json
  imports StdMap "HOL-Library.List_Lexorder"
begin

text \<open>
  The JSON reader of \<open>Utility/json_spirit/json_spirit_reader_template.h\<close>: the decoding of
  string literals, and the semantic actions that build a value while the grammar (of
  boost::spirit, not part of the repository) recognises the text; and the helpers of
  \<open>Utility/json_spirit_utils.h\<close>. Characters are machine words of the width of the string
  type: \<open>std::string\<close> has 8 bits, \<open>std::wstring\<close> more.
\<close>

section \<open>Characters\<close>

definition chr :: "char \<Rightarrow> 'c::len word" where
  "chr c = of_nat (of_char c)"

definition lit :: "string \<Rightarrow> 'c::len word list" where
  "lit s = map chr s"

section \<open>Literals\<close>

text \<open>\<open>is_eq\<close> compares a range with a C string, whose end is a null character.\<close>

fun is_eq :: "'c::len word list \<Rightarrow> 'c word list \<Rightarrow> bool" where
  "is_eq [] c_str = True"
| "is_eq (i # rest) [] = False"
| "is_eq (i # rest) (c # c_str) = (if c = 0 then False else if i \<noteq> c then False else is_eq rest c_str)"

section \<open>Escape sequences\<close>

definition hex_to_num :: "'c::len word \<Rightarrow> int" where
  "hex_to_num c =
     (if uint c \<ge> 0x30 \<and> uint c \<le> 0x39 then uint c - 0x30
      else if uint c \<ge> 0x61 \<and> uint c \<le> 0x66 then uint c - 0x61 + 10
      else if uint c \<ge> 0x41 \<and> uint c \<le> 0x46 then uint c - 0x41 + 10
      else 0)"

text \<open>
  \<open>char_at s i e\<close> dereferences the iterator at index \<open>i\<close>; the range ends at \<open>e\<close>, and an
  iterator at or behind it must not be dereferenced.
\<close>

definition char_at :: "'c::len word list \<Rightarrow> nat \<Rightarrow> nat \<Rightarrow> 'c word res" where
  "char_at s i e = (if i < e \<and> e \<le> length s then Inr (s ! i) else Inl OutOfRange)"

text \<open>The arithmetic is on \<open>int\<close>; returning a \<open>Char_type\<close> keeps the low bits.\<close>

definition hex_str_to_char :: "'c::len word list \<Rightarrow> nat \<Rightarrow> nat \<Rightarrow> ('c word \<times> nat) res" where
  "hex_str_to_char s begin end' =
     rbind (char_at s (begin + 1) end') (\<lambda>c1.
     rbind (char_at s (begin + 2) end') (\<lambda>c2.
     Inr (word_of_int (hex_to_num c1 * 2 ^ 4 + hex_to_num c2), begin + 2)))"

definition unicode_str_to_char :: "'c::len word list \<Rightarrow> nat \<Rightarrow> nat \<Rightarrow> ('c word \<times> nat) res" where
  "unicode_str_to_char s begin end' =
     rbind (char_at s (begin + 1) end') (\<lambda>c1.
     rbind (char_at s (begin + 2) end') (\<lambda>c2.
     rbind (char_at s (begin + 3) end') (\<lambda>c3.
     rbind (char_at s (begin + 4) end') (\<lambda>c4.
     Inr (word_of_int (hex_to_num c1 * 2 ^ 12 + hex_to_num c2 * 2 ^ 8 +
                       hex_to_num c3 * 2 ^ 4 + hex_to_num c4), begin + 4)))))"

text \<open>
  The switch on the character behind the backslash. Unknown escapes, and \<open>x\<close> and \<open>u\<close> with
  too few characters behind them, append nothing.
\<close>

definition simple_escape :: "'c::len word \<Rightarrow> 'c word option" where
  "simple_escape c2 =
     (if c2 = 0x74 then Some 0x09
      else if c2 = 0x62 then Some 0x08
      else if c2 = 0x66 then Some 0x0c
      else if c2 = 0x6e then Some 0x0a
      else if c2 = 0x72 then Some 0x0d
      else if c2 = 0x5c then Some 0x5c
      else if c2 = 0x2f then Some 0x2f
      else if c2 = 0x22 then Some 0x22
      else None)"

definition append_esc_char_and_incr_iter ::
    "'c::len word list \<Rightarrow> 'c word list \<Rightarrow> nat \<Rightarrow> nat \<Rightarrow> ('c word list \<times> nat) res" where
  "append_esc_char_and_incr_iter r s begin end' =
     rbind (char_at s begin end') (\<lambda>c2.
       case simple_escape c2 of
         Some c \<Rightarrow> Inr (r @ [c], begin)
       | None \<Rightarrow>
           if c2 = 0x78 then
             (if end' - begin \<ge> 3
              then rbind (hex_str_to_char s begin end') (\<lambda>(c, i). Inr (r @ [c], i))
              else Inr (r, begin))
           else if c2 = 0x75 then
             (if end' - begin \<ge> 5
              then rbind (unicode_str_to_char s begin end') (\<lambda>(c, i). Inr (r @ [c], i))
              else Inr (r, begin))
           else Inr (r, begin))"

lemma append_esc_incr:
  "append_esc_char_and_incr_iter r s b e = Inr (r', i) \<Longrightarrow> b \<le> i"
  by (auto simp: append_esc_char_and_incr_iter_def hex_str_to_char_def unicode_str_to_char_def
      rbind_Inr_iff split: option.splits if_splits)

definition substr :: "'a list \<Rightarrow> nat \<Rightarrow> nat \<Rightarrow> 'a list" where
  "substr s from to = take (to - from) (drop from s)"

text \<open>The loop of \<open>substitute_esc_chars\<close>; \<open>i\<close> is the iterator, \<open>start\<close> is \<open>substr_start\<close>.\<close>

function esc_loop ::
    "'c::len word list \<Rightarrow> nat \<Rightarrow> nat \<Rightarrow> nat \<Rightarrow> 'c word list \<Rightarrow> 'c word list res" where
  "esc_loop s end' i start result =
     (if i < end' - 1 then
        rbind (char_at s i end') (\<lambda>c.
          if c = 0x5c then
            rbind (append_esc_char_and_incr_iter (result @ substr s start i) s (i + 1) end')
              (\<lambda>(result, i'). esc_loop s end' (i' + 1) (i' + 1) result)
          else esc_loop s end' (i + 1) start result)
      else Inr (result @ substr s start end'))"
  by pat_completeness auto
termination
  by (relation "measure (\<lambda>(s, e, i, b, r). e - i)") (auto dest!: append_esc_incr)

declare esc_loop.simps [simp del]

definition substitute_esc_chars :: "'c::len word list \<Rightarrow> nat \<Rightarrow> nat \<Rightarrow> 'c word list res" where
  "substitute_esc_chars s begin end' =
     (if end' - begin < 2 then Inr (substr s begin end')
      else esc_loop s end' begin begin [])"

definition get_str :: "'c::len word list \<Rightarrow> 'c word list res" where
  "get_str s = cxx_assert (length s \<ge> 2) (substitute_esc_chars s 1 (length s - 1))"

text \<open>What the escapes mean, on the characters between the quotes.\<close>

fun unescape :: "'c::len word list \<Rightarrow> 'c word list" where
  "unescape [] = []"
| "unescape [c] = [c]"
| "unescape (c1 # c2 # cs) =
     (if c1 \<noteq> 0x5c then c1 # unescape (c2 # cs)
      else case simple_escape c2 of
        Some c \<Rightarrow> c # unescape cs
      | None \<Rightarrow>
          if c2 = 0x78 then
            (case cs of
               h1 # h2 # rest \<Rightarrow> word_of_int (hex_to_num h1 * 16 + hex_to_num h2) # unescape rest
             | _ \<Rightarrow> unescape cs)
          else if c2 = 0x75 then
            (case cs of
               h1 # h2 # h3 # h4 # rest \<Rightarrow>
                 word_of_int (hex_to_num h1 * 4096 + hex_to_num h2 * 256 +
                              hex_to_num h3 * 16 + hex_to_num h4) # unescape rest
             | _ \<Rightarrow> unescape cs)
          else unescape cs)"

section \<open>Values\<close>

text \<open>
  A value and the path that stands for a pointer to a part of it. A \<open>double\<close> is an opaque
  \<open>'r\<close>. Both object representations of the library, a vector of pairs and a map, are lists
  of pairs here; how a member is added is the argument \<open>cfg_add\<close> (the function
  \<open>Config_type::add\<close> of \<open>json_spirit_value.h\<close>, which is not part of the repository): it
  returns the members and the index of the slot it hands out.
\<close>

datatype ('s, 'r) Value =
    Obj_value "('s \<times> ('s, 'r) Value) list"
  | Array_value "('s, 'r) Value list"
  | Str_value 's
  | Bool_value bool
  | Int_value i64
  | Uint64_value u64
  | Real_value 'r
  | Null_value

type_synonym ('s, 'r) cfg_add =
  "('s \<times> ('s, 'r) Value) list \<Rightarrow> 's \<Rightarrow> ('s, 'r) Value \<Rightarrow> ('s \<times> ('s, 'r) Value) list \<times> nat"

fun value_at :: "('s, 'r) Value \<Rightarrow> nat list \<Rightarrow> ('s, 'r) Value option" where
  "value_at v [] = Some v"
| "value_at (Obj_value ps) (i # p) = (if i < length ps then value_at (snd (ps ! i)) p else None)"
| "value_at (Array_value vs) (i # p) = (if i < length vs then value_at (vs ! i) p else None)"
| "value_at _ (i # p) = None"

fun set_at :: "('s, 'r) Value \<Rightarrow> nat list \<Rightarrow> ('s, 'r) Value \<Rightarrow> ('s, 'r) Value" where
  "set_at v [] w = w"
| "set_at (Obj_value ps) (i # p) w =
     Obj_value (ps[i := (fst (ps ! i), set_at (snd (ps ! i)) p w)])"
| "set_at (Array_value vs) (i # p) w = Array_value (vs[i := set_at (vs ! i) p w])"
| "set_at v (i # p) w = v"

section \<open>Semantic actions\<close>

record ('s, 'r) Semantic_actions =
  act_value :: "('s, 'r) Value"
  current_p :: "nat list option"
  act_stack :: "nat list list"
  act_name :: 's

definition Semantic_actions_init :: "('s, 'r) Value \<Rightarrow> 's \<Rightarrow> ('s, 'r) Semantic_actions" where
  "Semantic_actions_init v no_name =
     \<lparr>act_value = v, current_p = None, act_stack = [], act_name = no_name\<rparr>"

definition add_first ::
    "('s, 'r) Semantic_actions \<Rightarrow> ('s, 'r) Value \<Rightarrow> (('s, 'r) Semantic_actions \<times> nat list) res" where
  "add_first st v = cxx_assert (current_p st = None)
     (Inr (st\<lparr>act_value := v, current_p := Some []\<rparr>, []))"

definition add_to_current ::
    "('s, 'r) cfg_add \<Rightarrow> ('s, 'r) Semantic_actions \<Rightarrow> ('s, 'r) Value \<Rightarrow>
     (('s, 'r) Semantic_actions \<times> nat list) res" where
  "add_to_current add st v =
     (case current_p st of
        None \<Rightarrow> add_first st v
      | Some p \<Rightarrow>
          (case value_at (act_value st) p of
             None \<Rightarrow> Inl OutOfRange
           | Some (Array_value vs) \<Rightarrow>
               Inr (st\<lparr>act_value := set_at (act_value st) p (Array_value (vs @ [v]))\<rparr>, p @ [length vs])
           | Some (Obj_value ps) \<Rightarrow>
               (let (ps', i) = add ps (act_name st) v in
                Inr (st\<lparr>act_value := set_at (act_value st) p (Obj_value ps')\<rparr>, p @ [i]))
           | Some _ \<Rightarrow> Inl AssertFail))"

definition begin_compound ::
    "('s, 'r) cfg_add \<Rightarrow> ('s, 'r) Value \<Rightarrow> ('s, 'r) Semantic_actions \<Rightarrow> ('s, 'r) Semantic_actions res" where
  "begin_compound add fresh st =
     (case current_p st of
        None \<Rightarrow> rbind (add_first st fresh) (\<lambda>(st', p). Inr st')
      | Some p \<Rightarrow>
          rbind (add_to_current add (st\<lparr>act_stack := act_stack st @ [p]\<rparr>) fresh)
            (\<lambda>(st', p'). Inr (st'\<lparr>current_p := Some p'\<rparr>)))"

definition end_compound :: "('s, 'r) Semantic_actions \<Rightarrow> ('s, 'r) Semantic_actions res" where
  "end_compound st =
     (if current_p st \<noteq> Some [] then
        (if act_stack st = [] then Inl OutOfRange
         else Inr (st\<lparr>current_p := Some (last (act_stack st)), act_stack := butlast (act_stack st)\<rparr>))
      else Inr st)"

text \<open>
  The calls the grammar makes: a character for a bracket, the recognised text for a name, a
  string or a literal, a number for a number.
\<close>

datatype ('c, 'r) action =
    Begin_obj "'c" | End_obj "'c" | Begin_array "'c" | End_array "'c"
  | New_name "'c list" | New_str "'c list"
  | New_true "'c list" | New_false "'c list" | New_null "'c list"
  | New_int i64 | New_uint64 u64 | New_real 'r

definition add_value ::
    "('s, 'r) cfg_add \<Rightarrow> ('s, 'r) Semantic_actions \<Rightarrow> ('s, 'r) Value \<Rightarrow> ('s, 'r) Semantic_actions res" where
  "add_value add st v = rbind (add_to_current add st v) (\<lambda>(st', p). Inr st')"

fun run_action ::
    "('c::len word list, 'r) cfg_add \<Rightarrow> ('c word list, 'r) Semantic_actions \<Rightarrow> ('c word, 'r) action \<Rightarrow>
     ('c word list, 'r) Semantic_actions res" where
  "run_action add st (Begin_obj c) = cxx_assert (c = 0x7b) (begin_compound add (Obj_value []) st)"
| "run_action add st (End_obj c) = cxx_assert (c = 0x7d) (end_compound st)"
| "run_action add st (Begin_array c) = cxx_assert (c = 0x5b) (begin_compound add (Array_value []) st)"
| "run_action add st (End_array c) = cxx_assert (c = 0x5d) (end_compound st)"
| "run_action add st (New_name t) =
     (case current_p st of
        None \<Rightarrow> Inl NullDeref
      | Some p \<Rightarrow>
          (case value_at (act_value st) p of
             None \<Rightarrow> Inl OutOfRange
           | Some (Obj_value ps) \<Rightarrow> rbind (get_str t) (\<lambda>n. Inr (st\<lparr>act_name := n\<rparr>))
           | Some _ \<Rightarrow> Inl AssertFail))"
| "run_action add st (New_str t) = rbind (get_str t) (\<lambda>s. add_value add st (Str_value s))"
| "run_action add st (New_true t) =
     cxx_assert (is_eq t (lit ''true'')) (add_value add st (Bool_value True))"
| "run_action add st (New_false t) =
     cxx_assert (is_eq t (lit ''false'')) (add_value add st (Bool_value False))"
| "run_action add st (New_null t) =
     cxx_assert (is_eq t (lit ''null'')) (add_value add st Null_value)"
| "run_action add st (New_int i) = add_value add st (Int_value i)"
| "run_action add st (New_uint64 ui) = add_value add st (Uint64_value ui)"
| "run_action add st (New_real d) = add_value add st (Real_value d)"

fun run_actions ::
    "('c::len word list, 'r) cfg_add \<Rightarrow> ('c word list, 'r) Semantic_actions \<Rightarrow> ('c word, 'r) action list \<Rightarrow>
     ('c word list, 'r) Semantic_actions res" where
  "run_actions add st [] = Inr st"
| "run_actions add st (a # as) = rbind (run_action add st a) (\<lambda>st'. run_actions add st' as)"

section \<open>Helpers on objects\<close>

definition obj_to_map :: "('s::linorder \<times> 'v) list \<Rightarrow> ('s, 'v) stdmap" where
  "obj_to_map obj = fold (\<lambda>(name, value) m. smap_put m name value) obj []"

fun map_to_obj :: "('s, 'v) stdmap \<Rightarrow> ('s \<times> 'v) list" where
  "map_to_obj [] = []"
| "map_to_obj ((name, value) # m) = (name, value) # map_to_obj m"

fun find_value :: "('s \<times> ('s, 'r) Value) list \<Rightarrow> 's \<Rightarrow> ('s, 'r) Value" where
  "find_value [] name = Null_value"
| "find_value ((n, v) # obj) name = (if n = name then v else find_value obj name)"

section \<open>Decoding string literals\<close>

lemma substr_step: "start \<le> i \<Longrightarrow> i < length s \<Longrightarrow> substr s start (Suc i) = substr s start i @ [s ! i]"
  by (simp add: substr_def Suc_diff_le take_Suc_conv_app_nth)

lemma substr_Cons: "i < e \<Longrightarrow> e \<le> length s \<Longrightarrow> substr s i e = s ! i # substr s (Suc i) e"
  by (simp add: substr_def Cons_nth_drop_Suc [symmetric] take_Cons' Suc_diff_Suc)

lemma substr_empty [simp]: "e \<le> i \<Longrightarrow> substr s i e = []"
  by (simp add: substr_def)

lemma substr_append: "a \<le> b \<Longrightarrow> b \<le> c \<Longrightarrow> substr s a b @ substr s b c = substr s a c"
  using take_add [of "b - a" "c - b" "drop a s"] by (simp add: substr_def)

lemma char_at_ok: "i < e \<Longrightarrow> e \<le> length s \<Longrightarrow> char_at s i e = Inr (s ! i)"
  by (simp add: char_at_def)

text \<open>One escape sequence: the character \<open>c2\<close> behind the backslash, then \<open>cs\<close>.\<close>

fun one_escape :: "'c::len word \<Rightarrow> 'c word list \<Rightarrow> 'c word list \<times> nat" where
  "one_escape c2 cs =
     (case simple_escape c2 of
        Some c \<Rightarrow> ([c], 0)
      | None \<Rightarrow>
          if c2 = 0x78 then
            (if 2 \<le> length cs
             then ([word_of_int (hex_to_num (cs ! 0) * 16 + hex_to_num (cs ! 1))], 2) else ([], 0))
          else if c2 = 0x75 then
            (if 4 \<le> length cs
             then ([word_of_int (hex_to_num (cs ! 0) * 4096 + hex_to_num (cs ! 1) * 256 +
                           hex_to_num (cs ! 2) * 16 + hex_to_num (cs ! 3))], 4) else ([], 0))
          else ([], 0))"

lemma unescape_escape:
  "unescape (0x5c # c2 # cs) = fst (one_escape c2 cs) @ unescape (drop (snd (one_escape c2 cs)) cs)"
proof -
  consider "length cs < 2" | "2 \<le> length cs" "length cs < 4" | "4 \<le> length cs" by linarith
  then show ?thesis
  proof cases
    case 1
    then show ?thesis by (cases cs) (auto split: option.splits list.splits)
  next
    case 2
    then obtain a b cs' where "cs = a # b # cs'" "length cs' < 2"
      by (cases cs; cases "tl cs") auto
    then show ?thesis by (cases cs') (auto split: option.splits list.splits)
  next
    case 3
    then obtain a b c d cs' where cs: "cs = a # b # c # d # cs'"
      by (cases cs; cases "tl cs"; cases "tl (tl cs)"; cases "tl (tl (tl cs))") auto
    have e: "drop 4 cs = cs'" "drop 2 cs = c # d # cs'" "cs ! 3 = d" "cs ! 2 = c"
      by (simp_all add: cs)
    show ?thesis unfolding one_escape.simps unescape.simps e using 3
      by (simp add: cs e split: option.splits)
  qed
qed

lemma append_esc_one:
  assumes "b < e" "e \<le> length s"
  shows "append_esc_char_and_incr_iter r s b e =
    Inr (r @ fst (one_escape (s ! b) (substr s (Suc b) e)),
         b + snd (one_escape (s ! b) (substr s (Suc b) e)))"
proof -
  have l: "length (substr s (Suc b) e) = e - Suc b" using assms by (simp add: substr_def)
  have n: "substr s (Suc b) e ! k = s ! (Suc b + k)" if "Suc b + k < e" for k
    using assms that by (simp add: substr_def)
  show ?thesis
  proof (cases "simple_escape (s ! b)")
    case (Some c)
    then show ?thesis using assms by (simp add: append_esc_char_and_incr_iter_def char_at_ok)
  next
    case None
    consider (x) "s ! b = 0x78" | (u) "s ! b = 0x75" "s ! b \<noteq> 0x78" | (n) "s ! b \<noteq> 0x78" "s ! b \<noteq> 0x75"
      by blast
    then show ?thesis
    proof cases
      case x
      show ?thesis
      proof (cases "3 \<le> e - b")
        case True
        then have "2 \<le> length (substr s (Suc b) e)" using l by linarith
        moreover have "char_at s (b + 1) e = Inr (s ! (b + 1))" "char_at s (b + 2) e = Inr (s ! (b + 2))"
          using True assms by (simp_all add: char_at_ok)
        ultimately show ?thesis using True None x assms n [of 0] n [of 1]
          by (simp add: append_esc_char_and_incr_iter_def char_at_ok hex_str_to_char_def)
      qed (use None x assms l in \<open>simp add: append_esc_char_and_incr_iter_def char_at_ok\<close>)
    next
      case u
      show ?thesis
      proof (cases "5 \<le> e - b")
        case True
        then have "4 \<le> length (substr s (Suc b) e)" using l by linarith
        moreover have "char_at s (b + 1) e = Inr (s ! (b + 1))" "char_at s (b + 2) e = Inr (s ! (b + 2))"
          "char_at s (b + 3) e = Inr (s ! (b + 3))" "char_at s (b + 4) e = Inr (s ! (b + 4))"
          using True assms by (simp_all add: char_at_ok)
        moreover have "unicode_str_to_char s b e = Inr (word_of_int (hex_to_num (s ! (b + 1)) * 4096 +
            hex_to_num (s ! (b + 2)) * 256 + hex_to_num (s ! (b + 3)) * 16 + hex_to_num (s ! (b + 4))), b + 4)"
          using calculation by (simp add: unicode_str_to_char_def)
        ultimately show ?thesis using True None u(2) assms n [of 0] n [of 1] n [of 2] n [of 3]
          unfolding append_esc_char_and_incr_iter_def one_escape.simps u(1)
          by (simp add: char_at_ok u(1) add_ac eval_nat_numeral)
      qed (use None u assms l in \<open>simp add: append_esc_char_and_incr_iter_def char_at_ok\<close>)
    next
      case n
      then show ?thesis using None assms
        by (simp add: append_esc_char_and_incr_iter_def char_at_ok)
    qed
  qed
qed

lemma one_escape_le: "snd (one_escape c2 cs) \<le> length cs"
  by (auto split: option.splits)

declare one_escape.simps [simp del]

lemma drop_substr: "drop k (substr s a e) = substr s (a + k) e"
  by (simp add: substr_def drop_take add.commute)

lemma unescape_Cons: "c \<noteq> 0x5c \<Longrightarrow> unescape (c # cs) = c # unescape cs"
  by (cases cs) simp_all

lemma unescape_short: "length cs < 2 \<Longrightarrow> unescape cs = cs"
  by (cases cs; cases "tl cs") auto

lemma esc_loop_spec:
  "start \<le> i \<Longrightarrow> i \<le> e \<Longrightarrow> e \<le> length s \<Longrightarrow>
   esc_loop s e i start r = Inr (r @ substr s start i @ unescape (substr s i e))"
proof (induction s e i start r rule: esc_loop.induct)
  case (1 s e i start r)
  show ?case
  proof (cases "i < e - 1")
    case False
    then have "unescape (substr s i e) = substr s i e"
      using "1.prems" by (intro unescape_short) (simp add: substr_def)
    then show ?thesis using False "1.prems" by (subst esc_loop.simps) (simp add: substr_append)
  next
    case True
    have c: "char_at s i e = Inr (s ! i)" using True "1.prems" by (simp add: char_at_ok)
    have sub: "substr s i e = s ! i # s ! Suc i # substr s (Suc (Suc i)) e"
      using True "1.prems" by (subst substr_Cons, simp, simp, subst substr_Cons) simp_all
    show ?thesis
    proof (cases "s ! i = 0x5c")
      case esc: True
      let ?o = "one_escape (s ! Suc i) (substr s (Suc (Suc i)) e)"
      let ?i = "Suc i + snd ?o"
      let ?r = "(r @ substr s start i) @ fst ?o"
      have a: "append_esc_char_and_incr_iter (r @ substr s start i) s (i + 1) e = Inr (?r, ?i)"
        using append_esc_one [of "Suc i" e s "r @ substr s start i"] True "1.prems" by simp
      have le: "?i + 1 \<le> e"
        using one_escape_le [of "s ! Suc i" "substr s (Suc (Suc i)) e"] True "1.prems"
        by (simp add: substr_def)
      have "esc_loop s e (?i + 1) (?i + 1) ?r =
          Inr (?r @ substr s (?i + 1) (?i + 1) @ unescape (substr s (?i + 1) e))"
        using True "1.prems" le by (intro "1.IH"(1) [OF True c esc a refl]) simp_all
      then show ?thesis using True c esc a
        by (subst esc_loop.simps) (simp add: sub unescape_escape drop_substr del: unescape.simps)
    next
      case no: False
      have "esc_loop s e (i + 1) start r = Inr (r @ substr s start (i + 1) @ unescape (substr s (i + 1) e))"
        using True "1.prems" by (intro "1.IH"(2) [OF True c no]) simp_all
      moreover have "substr s i e = s ! i # substr s (Suc i) e"
        using True "1.prems" by (intro substr_Cons) simp_all
      ultimately show ?thesis using True c no "1.prems"
        by (subst esc_loop.simps) (simp add: unescape_Cons substr_step)
    qed
  qed
qed

lemma substitute_spec:
  "b \<le> e \<Longrightarrow> e \<le> length s \<Longrightarrow> substitute_esc_chars s b e = Inr (unescape (substr s b e))"
  by (auto simp: substitute_esc_chars_def esc_loop_spec unescape_short substr_def)

lemma get_str_quoted: "get_str (q # cs @ [q']) = Inr (unescape cs)"
  by (simp add: get_str_def substitute_spec substr_def)

section \<open>Paths\<close>

lemma value_at_append:
  "value_at v (p @ q) = (case value_at v p of None \<Rightarrow> None | Some u \<Rightarrow> value_at u q)"
  by (induction v p rule: value_at.induct) auto

lemma value_at_set_append:
  "value_at v p \<noteq> None \<Longrightarrow> value_at (set_at v p w) (p @ q) = value_at w q"
  by (induction v p w rule: set_at.induct) (auto split: if_splits)

lemma value_at_set [simp]: "value_at v p \<noteq> None \<Longrightarrow> value_at (set_at v p w) p = Some w"
  using value_at_set_append [of v p w "[]"] by simp

lemma set_at_set_append:
  "value_at v p \<noteq> None \<Longrightarrow> set_at (set_at v p w) (p @ q) u = set_at v p (set_at w q u)"
  by (induction v p w rule: set_at.induct) (auto split: if_splits)

lemma set_at_set [simp]: "value_at v p \<noteq> None \<Longrightarrow> set_at (set_at v p w) p u = set_at v p u"
  using set_at_set_append [of v p w "[]" u] by simp

lemma set_at_same: "value_at v p = Some u \<Longrightarrow> set_at v p u = v"
  by (induction v p u rule: set_at.induct) (auto split: if_splits)

section \<open>What the grammar reports\<close>

text \<open>
  \<open>reports v as\<close>: the calls the grammar makes while it recognises a text for \<open>v\<close>: brackets
  around the parts, a name before each member, a quoted literal that decodes to the string,
  the words \<open>true\<close>, \<open>false\<close> and \<open>null\<close>, and numbers.
\<close>

inductive reports :: "('c::len word list, 'r) Value \<Rightarrow> ('c word, 'r) action list \<Rightarrow> bool"
  and reports_elems :: "('c word list, 'r) Value list \<Rightarrow> ('c word, 'r) action list \<Rightarrow> bool"
  and reports_members ::
    "('c word list \<times> ('c word list, 'r) Value) list \<Rightarrow> ('c word, 'r) action list \<Rightarrow> bool"
where
  "reports_members ps as \<Longrightarrow> reports (Obj_value ps) (Begin_obj 0x7b # as @ [End_obj 0x7d])"
| "reports_elems vs as \<Longrightarrow> reports (Array_value vs) (Begin_array 0x5b # as @ [End_array 0x5d])"
| "get_str t = Inr s \<Longrightarrow> reports (Str_value s) [New_str t]"
| "is_eq t (lit ''true'') \<Longrightarrow> reports (Bool_value True) [New_true t]"
| "is_eq t (lit ''false'') \<Longrightarrow> reports (Bool_value False) [New_false t]"
| "reports (Int_value i) [New_int i]"
| "reports (Uint64_value u) [New_uint64 u]"
| "reports (Real_value d) [New_real d]"
| "is_eq t (lit ''null'') \<Longrightarrow> reports Null_value [New_null t]"
| "reports_elems [] []"
| "reports v as \<Longrightarrow> reports_elems vs bs \<Longrightarrow> reports_elems (v # vs) (as @ bs)"
| "reports_members [] []"
| "get_str t = Inr n \<Longrightarrow> reports v as \<Longrightarrow> reports_members ps bs \<Longrightarrow>
     reports_members ((n, v) # ps) (New_name t # as @ bs)"

text \<open>
  What the builder needs of \<open>Config_type::add\<close>, whichever object representation it is for: it
  finds or makes the slot of the name, puts the pair there, and hands out the slot.
\<close>

definition config_add :: "('s, 'r) cfg_add \<Rightarrow> bool" where
  "config_add add \<longleftrightarrow> (\<forall>ps n. \<exists>qs i. i < length qs \<and> (\<forall>v. add ps n v = (qs[i := (n, v)], i)))"

text \<open>
  The two representations of the library. The vector of pairs (\<open>Value\<close>, \<open>wValue\<close>) appends,
  the map (\<open>mValue\<close>, \<open>wmValue\<close>) holds each name once and overwrites.
\<close>

definition appends :: "('s, 'r) cfg_add \<Rightarrow> bool" where
  "appends add \<longleftrightarrow> (\<forall>ps n v. add ps n v = (ps @ [(n, v)], length ps))"

definition overwrites :: "('s, 'r) cfg_add \<Rightarrow> bool" where
  "overwrites add \<longleftrightarrow> (\<forall>ps n v. distinct (map fst ps) \<longrightarrow>
     distinct (map fst (fst (add ps n v))) \<and> map_of (fst (add ps n v)) = (map_of ps)(n \<mapsto> v))"

text \<open>The value that is stored for a parsed one: the members are added in the order of the text.\<close>

definition add_members ::
    "('s, 'r) cfg_add \<Rightarrow> ('s \<times> ('s, 'r) Value) list \<Rightarrow> ('s \<times> ('s, 'r) Value) list \<Rightarrow>
     ('s \<times> ('s, 'r) Value) list" where
  "add_members add ps qs = foldl (\<lambda>qs (n, v). fst (add qs n v)) qs ps"

primrec stored_value :: "('s, 'r) cfg_add \<Rightarrow> ('s, 'r) Value \<Rightarrow> ('s, 'r) Value" where
  "stored_value add (Obj_value ps) = Obj_value (add_members add (map (map_prod id (stored_value add)) ps) [])"
| "stored_value add (Array_value vs) = Array_value (map (stored_value add) vs)"
| "stored_value add (Str_value s) = Str_value s"
| "stored_value add (Bool_value b) = Bool_value b"
| "stored_value add (Int_value i) = Int_value i"
| "stored_value add (Uint64_value u) = Uint64_value u"
| "stored_value add (Real_value d) = Real_value d"
| "stored_value add Null_value = Null_value"

lemma add_members_simps [simp]:
  "add_members add [] qs = qs"
  "add_members add ((n, v) # ps) qs = add_members add ps (fst (add qs n v))"
  by (simp_all add: add_members_def)

lemma add_members_appends: "appends add \<Longrightarrow> add_members add ps qs = qs @ ps"
  by (induction ps arbitrary: qs) (auto simp: appends_def)

lemma stored_value_appends: "appends add \<Longrightarrow> stored_value add v = v"
proof (induction v)
  case (Obj_value ps)
  then have "map (map_prod id (stored_value add)) ps = ps" by (force intro: map_idI)
  then show ?case by (simp add: add_members_appends [OF Obj_value.prems])
qed (auto intro: map_idI)

lemma add_members_overwrites:
  "overwrites add \<Longrightarrow> distinct (map fst qs) \<Longrightarrow>
   distinct (map fst (add_members add ps qs)) \<and> map_of (add_members add ps qs) = map_of (rev ps @ qs)"
proof (induction ps arbitrary: qs)
  case (Cons a ps)
  obtain n v where a: "a = (n, v)" by fastforce
  have q: "distinct (map fst (fst (add qs n v)))" "map_of (fst (add qs n v)) = (map_of qs)(n \<mapsto> v)"
    using Cons.prems by (simp_all add: overwrites_def)
  show ?case using Cons.IH [OF Cons.prems(1) q(1)] q(2) by (simp add: a map_of_append)
qed simp

section \<open>Correctness of the actions\<close>

fun put_in :: "('s, 'r) cfg_add \<Rightarrow> ('s, 'r) Value \<Rightarrow> 's \<Rightarrow> ('s, 'r) Value \<Rightarrow> ('s, 'r) Value" where
  "put_in add (Array_value vs) n v = Array_value (vs @ [v])"
| "put_in add (Obj_value ps) n v = Obj_value (fst (add ps n v))"
| "put_in add u n v = u"

fun compound :: "('s, 'r) Value \<Rightarrow> bool" where
  "compound (Array_value vs) = True"
| "compound (Obj_value ps) = True"
| "compound u = False"

fun slot :: "('s, 'r) cfg_add \<Rightarrow> ('s, 'r) Value \<Rightarrow> 's \<Rightarrow> nat" where
  "slot add (Array_value vs) n = length vs"
| "slot add (Obj_value ps) n = snd (add ps n Null_value)"
| "slot add u n = 0"

lemma config_addD:
  assumes "config_add add"
  obtains qs i where "i < length qs" "\<And>v. add ps n v = (qs[i := (n, v)], i)"
  using assms unfolding config_add_def by metis

lemma run_actions_append:
  "run_actions add st (as @ bs) = rbind (run_actions add st as) (\<lambda>st'. run_actions add st' bs)"
  by (induction "as" arbitrary: st) (simp_all add: rbind_assoc)

lemma add_to_current_compound:
  assumes "config_add add" "current_p st = Some p" "value_at (act_value st) p = Some u" "compound u"
  shows "add_to_current add st v =
     Inr (st\<lparr>act_value := set_at (act_value st) p (put_in add u (act_name st) v)\<rparr>, p @ [slot add u (act_name st)])"
proof (cases u)
  case (Obj_value ps)
  obtain qs i where "\<And>v. add ps (act_name st) v = (qs[i := (act_name st, v)], i)"
    using config_addD [OF assms(1)] by metis
  then show ?thesis using assms by (simp add: add_to_current_def Obj_value)
qed (use assms in \<open>simp_all add: add_to_current_def\<close>)

lemma add_value_compound:
  "config_add add \<Longrightarrow> current_p st = Some p \<Longrightarrow> value_at (act_value st) p = Some u \<Longrightarrow> compound u \<Longrightarrow>
   add_value add st v =
     Inr (st\<lparr>act_value := set_at (act_value st) p (put_in add u (act_name st) v)\<rparr>)"
  by (simp add: add_value_def add_to_current_compound)

lemma put_in_slot:
  assumes "config_add add" "compound u"
  shows "value_at (put_in add u n v) [slot add u n] = Some v"
    "set_at (put_in add u n v) [slot add u n] w = put_in add u n w"
proof -
  have "value_at (put_in add u n v) [slot add u n] = Some v \<and>
      set_at (put_in add u n v) [slot add u n] w = put_in add u n w"
  proof (cases u)
    case (Obj_value ps)
    obtain qs i where "i < length qs" "\<And>v. add ps n v = (qs[i := (n, v)], i)"
      using config_addD [OF assms(1)] by metis
    then show ?thesis by (simp add: Obj_value)
  qed (use assms in auto)
  then show "value_at (put_in add u n v) [slot add u n] = Some v"
    "set_at (put_in add u n v) [slot add u n] w = put_in add u n w" by simp_all
qed

lemma compound_put_in [simp]: "compound u \<Longrightarrow> compound (put_in add u n v)"
  by (cases u) simp_all

lemma begin_compound_ok:
  assumes "config_add add" "current_p st = Some p" "value_at (act_value st) p = Some u" "compound u"
  shows "begin_compound add fresh st = Inr (st\<lparr>
      act_value := set_at (act_value st) p (put_in add u (act_name st) fresh),
      current_p := Some (p @ [slot add u (act_name st)]), act_stack := act_stack st @ [p]\<rparr>)"
  using assms
  by (simp add: begin_compound_def add_to_current_compound [of add "st\<lparr>act_stack := act_stack st @ [p]\<rparr>" p])

text \<open>What running the actions for a part does to the state, in terms of the container.\<close>

definition adds ::
    "('c::len word list, 'r) cfg_add \<Rightarrow> (('c word list, 'r) Value \<Rightarrow> 'c word list \<Rightarrow> ('c word list, 'r) Value) \<Rightarrow>
     ('c word, 'r) action list \<Rightarrow> (('c word list, 'r) Value \<Rightarrow> bool) \<Rightarrow> bool" where
  "adds add f as d \<longleftrightarrow> (\<forall>st p u. current_p st = Some p \<longrightarrow> value_at (act_value st) p = Some u \<longrightarrow> d u \<longrightarrow>
     (\<exists>n. run_actions add st as =
        Inr (st\<lparr>act_value := set_at (act_value st) p (f u (act_name st)), act_name := n\<rparr>)))"

fun is_array :: "('s, 'r) Value \<Rightarrow> bool" where
  "is_array (Array_value vs) = True"
| "is_array u = False"

fun is_obj :: "('s, 'r) Value \<Rightarrow> bool" where
  "is_obj (Obj_value ps) = True"
| "is_obj u = False"

fun put_elems :: "('s, 'r) Value list \<Rightarrow> ('s, 'r) Value \<Rightarrow> ('s, 'r) Value" where
  "put_elems vs (Array_value us) = Array_value (us @ vs)"
| "put_elems vs u = u"

fun put_members :: "('s, 'r) cfg_add \<Rightarrow> ('s \<times> ('s, 'r) Value) list \<Rightarrow> ('s, 'r) Value \<Rightarrow> ('s, 'r) Value" where
  "put_members add ps (Obj_value qs) = Obj_value (add_members add ps qs)"
| "put_members add ps u = u"

lemma addsD:
  "adds add f as d \<Longrightarrow> current_p st = Some p \<Longrightarrow> value_at (act_value st) p = Some u \<Longrightarrow> d u \<Longrightarrow>
   \<exists>n. run_actions add st as =
        Inr (st\<lparr>act_value := set_at (act_value st) p (f u (act_name st)), act_name := n\<rparr>)"
  by (simp add: adds_def)

lemma keep_name: "st\<lparr>act_value := x\<rparr> = st\<lparr>act_value := x, act_name := act_name st\<rparr>"
  by simp

lemma keep_p: "current_p st = Some p \<Longrightarrow>
    st\<lparr>act_value := x, act_name := n, current_p := Some p\<rparr> = st\<lparr>act_value := x, act_name := n\<rparr>"
  by (cases st) simp

lemma addsI:
  assumes "\<And>st p u. current_p st = Some p \<Longrightarrow> value_at (act_value st) p = Some u \<Longrightarrow> d u \<Longrightarrow>
     run_actions add st as = Inr (st\<lparr>act_value := set_at (act_value st) p (f u (act_name st))\<rparr>)"
  shows "adds add f as d"
  unfolding adds_def using assms keep_name by metis

lemma adds_single:
  "config_add add \<Longrightarrow> (\<And>st. run_action add st a = add_value add st v) \<Longrightarrow>
   adds add (\<lambda>u n. put_in add u n v) [a] compound"
  by (rule addsI) (simp add: add_value_compound)

text \<open>A part in brackets: open, add what is inside, close.\<close>

lemma adds_bracketed:
  fixes fresh :: "('c::len word list, 'r) Value"
  assumes C: "config_add add" and inner: "adds add (\<lambda>u n. f u) as d" and fresh: "d fresh"
    and op: "\<And>st. run_action add st a = begin_compound add fresh st"
    and cl: "\<And>st. run_action add st b = end_compound st"
  shows "adds add (\<lambda>u n. put_in add u n (f fresh)) (a # as @ [b]) compound"
  unfolding adds_def
proof (intro allI impI)
  fix st :: "('c word list, 'r) Semantic_actions" and p u
  assume st: "current_p st = Some p" "value_at (act_value st) p = Some u" "compound u"
  let ?q = "p @ [slot add u (act_name st)]"
  let ?st1 = "st\<lparr>act_value := set_at (act_value st) p (put_in add u (act_name st) fresh),
      current_p := Some ?q, act_stack := act_stack st @ [p]\<rparr>"
  have "value_at (act_value ?st1) ?q = Some fresh"
    using st by (simp add: value_at_set_append put_in_slot [OF C])
  then obtain n where n: "run_actions add ?st1 as =
      Inr (?st1\<lparr>act_value := set_at (act_value ?st1) ?q (f fresh), act_name := n\<rparr>)"
    using addsD [OF inner _ _ fresh, of ?st1 ?q] by auto
  have "set_at (act_value ?st1) ?q (f fresh) = set_at (act_value st) p (put_in add u (act_name st) (f fresh))"
    using st by (simp add: set_at_set_append put_in_slot [OF C])
  then have "run_actions add st (a # as @ [b]) =
      Inr (st\<lparr>act_value := set_at (act_value st) p (put_in add u (act_name st) (f fresh)), act_name := n\<rparr>)"
    using n by (simp add: op cl begin_compound_ok [OF C st] run_actions_append end_compound_def keep_p [OF st(1)])
  then show "\<exists>n. run_actions add st (a # as @ [b]) =
      Inr (st\<lparr>act_value := set_at (act_value st) p (put_in add u (act_name st) (f fresh)), act_name := n\<rparr>)"
    by blast
qed

lemma adds_append:
  fixes f :: "('c::len word list, 'r) Value \<Rightarrow> 'c word list \<Rightarrow> ('c word list, 'r) Value"
  assumes f: "adds add f as d" and g: "adds add (\<lambda>u n. g u) bs d'"
    and d: "\<And>u. d' u \<Longrightarrow> d u" "\<And>u n. d' u \<Longrightarrow> d' (f u n)"
  shows "adds add (\<lambda>u n. g (f u n)) (as @ bs) d'"
  unfolding adds_def
proof (intro allI impI)
  fix st :: "('c word list, 'r) Semantic_actions" and p u
  assume st: "current_p st = Some p" "value_at (act_value st) p = Some u" "d' u"
  obtain n where n: "run_actions add st as =
      Inr (st\<lparr>act_value := set_at (act_value st) p (f u (act_name st)), act_name := n\<rparr>)"
    using addsD [OF f st(1,2) d(1) [OF st(3)]] by blast
  let ?st1 = "st\<lparr>act_value := set_at (act_value st) p (f u (act_name st)), act_name := n\<rparr>"
  obtain m where "run_actions add ?st1 bs =
      Inr (?st1\<lparr>act_value := set_at (act_value ?st1) p (g (f u (act_name st))), act_name := m\<rparr>)"
    using addsD [OF g, of ?st1 p "f u (act_name st)"] st d(2) [OF st(3)] by auto
  then show "\<exists>m. run_actions add st (as @ bs) =
      Inr (st\<lparr>act_value := set_at (act_value st) p (g (f u (act_name st))), act_name := m\<rparr>)"
    using n st by (auto simp: run_actions_append)
qed

lemma adds_named:
  fixes f :: "('c::len word list, 'r) Value \<Rightarrow> 'c word list \<Rightarrow> ('c word list, 'r) Value"
  assumes f: "adds add f as is_obj" and t: "get_str t = Inr n"
  shows "adds add (\<lambda>u k. f u n) (New_name t # as) is_obj"
  unfolding adds_def
proof (intro allI impI)
  fix st :: "('c word list, 'r) Semantic_actions" and p u
  assume st: "current_p st = Some p" "value_at (act_value st) p = Some u" "is_obj u"
  have "run_action add st (New_name t) = Inr (st\<lparr>act_name := n\<rparr>)"
    using st t by (cases u) simp_all
  then show "\<exists>m. run_actions add st (New_name t # as) =
      Inr (st\<lparr>act_value := set_at (act_value st) p (f u n), act_name := m\<rparr>)"
    using addsD [OF f, of "st\<lparr>act_name := n\<rparr>" p u] st by auto
qed

lemma adds_mono: "adds add f as d \<Longrightarrow> (\<And>u. d' u \<Longrightarrow> d u) \<Longrightarrow> (\<And>u n. d' u \<Longrightarrow> f u n = g u n) \<Longrightarrow> adds add g as d'"
  unfolding adds_def by metis

lemma adds_nil: "adds add (\<lambda>u n. u) [] d"
  by (rule addsI) (simp add: set_at_same)

lemma reports_adds:
  assumes C: "config_add add"
  shows "reports v as \<Longrightarrow> adds add (\<lambda>u n. put_in add u n (stored_value add v)) as compound"
    "reports_elems vs as \<Longrightarrow> adds add (\<lambda>u n. put_elems (map (stored_value add) vs) u) as is_array"
    "reports_members ps as \<Longrightarrow> adds add (\<lambda>u n. put_members add (map (map_prod id (stored_value add)) ps) u) as is_obj"
proof (induction rule: reports_reports_elems_reports_members.inducts)
  case (1 ps as)
  show ?case using adds_bracketed [OF C 1(2), of "Obj_value []"] by (simp add: id_def)
next
  case (2 vs as)
  show ?case using adds_bracketed [OF C 2(2), of "Array_value []"] by simp
next
  case (11 v as vs bs)
  have "adds add (\<lambda>u n. put_elems (map (stored_value add) vs) (put_in add u n (stored_value add v))) (as @ bs) is_array"
    by (rule adds_append [OF 11(3,4)]) (auto elim!: is_array.elims)
  then show ?case by (rule adds_mono) (auto elim!: is_array.elims)
next
  case 10
  show ?case by (rule adds_mono [OF adds_nil]) (auto elim!: is_array.elims)
next
  case 12
  show ?case by (rule adds_mono [OF adds_nil]) (auto elim!: is_obj.elims)
next
  case (13 t n v as ps bs)
  have "adds add (\<lambda>u k. put_in add u n (stored_value add v)) (New_name t # as) is_obj"
    by (rule adds_named [OF adds_mono [OF 13(4)] 13(1)]) (auto elim!: is_obj.elims)
  then have "adds add (\<lambda>u k. put_members add (map (map_prod id (stored_value add)) ps) (put_in add u n (stored_value add v)))
      ((New_name t # as) @ bs) is_obj"
    by (rule adds_append [OF _ 13(5)]) (auto elim!: is_obj.elims)
  note all = this [unfolded append_Cons]
  show ?case by (rule adds_mono [OF all]) (auto simp: id_def elim!: is_obj.elims)
qed (auto intro!: adds_single C)

section \<open>Memory safety of the actions\<close>

text \<open>
  The stack holds exactly the proper prefixes of the current path, and the current path
  leads to a part of the value.
\<close>

definition actions_wf :: "('s, 'r) Semantic_actions \<Rightarrow> bool" where
  "actions_wf st \<longleftrightarrow>
     (case current_p st of
        None \<Rightarrow> act_stack st = []
      | Some p \<Rightarrow> value_at (act_value st) p \<noteq> None \<and> act_stack st = map (\<lambda>k. take k p) [0..<length p])"

definition add_ok :: "('s, 'r) cfg_add \<Rightarrow> bool" where
  "add_ok add \<longleftrightarrow> (\<forall>ps n v. snd (add ps n v) < length (fst (add ps n v)))"

definition safe_step :: "('s, 'r) Semantic_actions res \<Rightarrow> bool" where
  "safe_step r \<longleftrightarrow>
     (case r of Inl e \<Rightarrow> e = AssertFail | Inr st \<Rightarrow> actions_wf st \<and> current_p st \<noteq> None)"

lemma safe_step_simps [simp]:
  "safe_step (Inl e) \<longleftrightarrow> e = AssertFail" "safe_step (Inr st) \<longleftrightarrow> actions_wf st \<and> current_p st \<noteq> None"
  by (simp_all add: safe_step_def)

lemma safe_step_assert [intro]: "(b \<Longrightarrow> safe_step r) \<Longrightarrow> safe_step (cxx_assert b r)"
  by (cases b) simp_all

lemma prefixes_snoc: "map (\<lambda>k. take k (p @ [i])) [0..<length (p @ [i])] = map (\<lambda>k. take k p) [0..<length p] @ [p]"
  by simp

lemma value_at_prefix: "value_at v (p @ q) \<noteq> None \<Longrightarrow> value_at v p \<noteq> None"
  by (auto simp: value_at_append split: option.splits)

lemma add_to_current_safe:
  assumes "add_ok add" "current_p st = Some p" "value_at (act_value st) p \<noteq> None"
  shows "add_to_current add st v = Inl AssertFail \<or>
    (\<exists>w i. add_to_current add st v = Inr (st\<lparr>act_value := w\<rparr>, p @ [i]) \<and> value_at w (p @ [i]) \<noteq> None)"
proof -
  obtain u where u: "value_at (act_value st) p = Some u" using assms(3) by blast
  show ?thesis
  proof (cases u)
    case (Obj_value ps)
    obtain ps' i where a: "add ps (act_name st) v = (ps', i)" by fastforce
    then have "i < length ps'" using assms(1) by (metis add_ok_def fst_conv snd_conv)
    then show ?thesis using assms(2,3) u Obj_value a
      by (auto simp: add_to_current_def value_at_set_append)
  qed (use assms u in \<open>auto simp: add_to_current_def value_at_set_append\<close>)
qed

lemma add_value_safe:
  assumes "add_ok add" "actions_wf st" "current_p st \<noteq> None"
  shows "safe_step (add_value add st v)"
proof -
  obtain p where p: "current_p st = Some p" "value_at (act_value st) p \<noteq> None"
      "act_stack st = map (\<lambda>k. take k p) [0..<length p]"
    using assms(2,3) by (auto simp: actions_wf_def)
  show ?thesis
    using add_to_current_safe [OF assms(1) p(1,2), of v]
  proof (elim disjE exE conjE)
    fix w i
    assume a: "add_to_current add st v = Inr (st\<lparr>act_value := w\<rparr>, p @ [i])" "value_at w (p @ [i]) \<noteq> None"
    then show ?thesis using p value_at_prefix [OF a(2)] by (simp add: add_value_def actions_wf_def)
  qed (simp add: add_value_def)
qed

lemma begin_compound_safe:
  assumes "add_ok add" "actions_wf st" "current_p st \<noteq> None"
  shows "safe_step (begin_compound add v st)"
proof -
  obtain p where p: "current_p st = Some p" "value_at (act_value st) p \<noteq> None"
      "act_stack st = map (\<lambda>k. take k p) [0..<length p]"
    using assms(2,3) by (auto simp: actions_wf_def)
  show ?thesis
    using add_to_current_safe [OF assms(1), of "st\<lparr>act_stack := act_stack st @ [p]\<rparr>" p v] p
    by (auto simp: begin_compound_def actions_wf_def)
qed

lemma begin_first_safe: "current_p st = None \<Longrightarrow> actions_wf st \<Longrightarrow> safe_step (begin_compound add v st)"
  by (simp add: begin_compound_def add_first_def actions_wf_def)

lemma add_first_safe: "current_p st = None \<Longrightarrow> actions_wf st \<Longrightarrow> safe_step (add_value add st v)"
  by (simp add: add_value_def add_to_current_def add_first_def actions_wf_def)

lemma end_compound_safe:
  assumes "actions_wf st" "current_p st \<noteq> None"
  shows "safe_step (end_compound st)"
proof -
  obtain p where p: "current_p st = Some p" "value_at (act_value st) p \<noteq> None"
      "act_stack st = map (\<lambda>k. take k p) [0..<length p]"
    using assms by (auto simp: actions_wf_def)
  show ?thesis
  proof (cases p rule: rev_cases)
    case Nil
    then show ?thesis using p by (simp add: end_compound_def actions_wf_def)
  next
    case (snoc q i)
    then have "act_stack st = map (\<lambda>k. take k q) [0..<length q] @ [q]"
      using p(3) prefixes_snoc [of q i] by simp
    then show ?thesis using p(1,2) snoc value_at_prefix [of "act_value st" q "[i]"]
      by (simp add: end_compound_def actions_wf_def)
  qed
qed

lemma get_str_total: "get_str t = Inl AssertFail \<or> (\<exists>s. get_str t = Inr s)"
  by (cases "2 \<le> length t") (auto simp: get_str_def substitute_spec)

lemma run_action_safe:
  assumes "add_ok add" "actions_wf st" "current_p st \<noteq> None"
  shows "safe_step (run_action add st a)"
proof (cases a)
  case (New_name t)
  then show ?thesis using assms(2,3) get_str_total [of t]
    by (auto simp: actions_wf_def split: Value.splits)
next
  case (New_str t)
  then show ?thesis using add_value_safe [OF assms] get_str_total [of t] by auto
qed (use add_value_safe [OF assms] begin_compound_safe [OF assms] end_compound_safe [OF assms(2,3)]
     in auto)

text \<open>The actions that may come first: anything but a name or a closing bracket.\<close>

fun may_start :: "('c, 'r) action \<Rightarrow> bool" where
  "may_start (End_obj c) = False"
| "may_start (End_array c) = False"
| "may_start (New_name t) = False"
| "may_start a = True"

lemma run_first_safe:
  assumes "current_p st = None" "actions_wf st" "may_start a"
  shows "safe_step (run_action add st a)"
proof (cases a)
  case (New_str t)
  then show ?thesis using add_first_safe [OF assms(1,2)] get_str_total [of t] by auto
qed (use assms add_first_safe [OF assms(1,2)] begin_first_safe [OF assms(1,2)] in auto)

lemma run_actions_safe:
  "add_ok add \<Longrightarrow> actions_wf st \<Longrightarrow> current_p st \<noteq> None \<Longrightarrow> safe_step (run_actions add st as)"
proof (induction "as" arbitrary: st)
  case (Cons a "as")
  show ?case
  proof (cases "run_action add st a")
    case (Inl e)
    then show ?thesis using run_action_safe [OF Cons.prems, of a] by simp
  next
    case (Inr st')
    then show ?thesis using run_action_safe [OF Cons.prems, of a] Cons.IH [OF Cons.prems(1), of st'] by simp
  qed
qed simp

section \<open>Properties\<close>

text \<open>
  C11: the string decoder never reads outside its range, ends, and computes what the escapes
  mean. On a quoted literal \<open>get_str\<close> returns the reference decoding of the characters
  between the quotes, whatever they are, truncated escapes included.
\<close>

theorem get_str_unescape:
  "get_str (q # cs @ [q']) = Inr (unescape cs) \<and>
   substitute_esc_chars cs 0 (length cs) = Inr (unescape cs)"
  by (simp add: get_str_quoted substitute_spec substr_def)

text \<open>
  A four-digit escape yields the low bits of its number. In a \<open>std::string\<close> a code above
  255 is silently cut to its last two digits.
\<close>

theorem unicode_escape_truncates:
  "get_str (0x22 # [0x5c, 0x75, h1, h2, h3, h4] @ [0x22 :: byte]) =
     Inr [word_of_int ((hex_to_num h3 * 16 + hex_to_num h4) mod 256)]"
proof -
  have e: "simple_escape (0x75 :: byte) = None" by (simp add: simple_escape_def)
  have u: "get_str (0x22 # [0x5c, 0x75, h1, h2, h3, h4] @ [0x22 :: byte]) =
    Inr [word_of_int (hex_to_num h1 * 4096 + hex_to_num h2 * 256 + hex_to_num h3 * 16 + hex_to_num h4)]"
    unfolding get_str_quoted by (simp add: e)
  have "hex_to_num h1 * 4096 + hex_to_num h2 * 256 + hex_to_num h3 * 16 + hex_to_num h4 =
      (hex_to_num h3 * 16 + hex_to_num h4) + (hex_to_num h1 * 16 + hex_to_num h2) * 256"
    by simp
  then have "(hex_to_num h1 * 4096 + hex_to_num h2 * 256 + hex_to_num h3 * 16 + hex_to_num h4) mod 256 =
      (hex_to_num h3 * 16 + hex_to_num h4) mod 256"
    by (simp only: mod_mult_self1)
  then have "(word_of_int (hex_to_num h1 * 4096 + hex_to_num h2 * 256 + hex_to_num h3 * 16 + hex_to_num h4) :: byte) =
      word_of_int ((hex_to_num h3 * 16 + hex_to_num h4) mod 256)"
    unfolding word_of_int_eq_iff take_bit_eq_mod by simp
  then show ?thesis using u by simp
qed

text \<open>
  C6: the builder is correct. When the grammar reports the calls for a value, running them
  on a fresh \<open>Semantic_actions\<close> object succeeds, all brackets are closed, and what is left is
  the value as the object representation stores it: with the vector of pairs exactly the
  parsed value, and with the map an object in which each name occurs once, with the last of
  its values in the text. \<open>Config_type::add\<close> is a parameter that hands out the slot of the
  name with the pair in it, as both representations do.
\<close>

theorem actions_build_value:
  assumes "config_add add" "reports v as"
  shows "\<exists>st. run_actions add (Semantic_actions_init junk []) as = Inr st \<and>
    act_value st = stored_value add v \<and> current_p st = Some [] \<and> act_stack st = [] \<and>
    (appends add \<longrightarrow> act_value st = v) \<and>
    (\<forall>ps. overwrites add \<and> v = Obj_value ps \<longrightarrow>
      (\<exists>qs. act_value st = Obj_value qs \<and> distinct (map fst qs) \<and>
         map_of qs = map_of (rev (map (map_prod id (stored_value add)) ps))))"
proof -
  have start: "\<exists>st. run_actions add (Semantic_actions_init junk []) (a # bs @ [b]) = Inr st \<and>
      act_value st = f fresh \<and> current_p st = Some [] \<and> act_stack st = []"
    if inner: "adds add (\<lambda>u n. f u) bs d" and fresh: "d fresh"
      and op: "\<And>st. run_action add st a = begin_compound add fresh st"
      and cl: "\<And>st. run_action add st b = end_compound st" for a bs b f d fresh
  proof -
    let ?st = "(Semantic_actions_init junk [])\<lparr>act_value := fresh, current_p := Some []\<rparr>"
    obtain n where "run_actions add ?st bs = Inr (?st\<lparr>act_value := f fresh, act_name := n\<rparr>)"
      using addsD [OF inner, of ?st "[]" fresh] fresh by auto
    then show ?thesis
      by (simp add: op cl begin_compound_def add_first_def run_actions_append end_compound_def
          Semantic_actions_init_def)
  qed
  note adds = reports_adds [OF assms(1)]
  from assms(2) have "\<exists>st. run_actions add (Semantic_actions_init junk []) as = Inr st \<and>
      act_value st = stored_value add v \<and> current_p st = Some [] \<and> act_stack st = []"
  proof (cases rule: reports.cases)
    case (1 ps bs)
    show ?thesis unfolding 1(2) using start [OF adds(3) [OF 1(3)], of "Obj_value []" "Begin_obj 0x7b" "End_obj 0x7d"] 1(1) by simp
  next
    case (2 vs bs)
    show ?thesis unfolding 2(2) using start [OF adds(2) [OF 2(3)], of "Array_value []" "Begin_array 0x5b" "End_array 0x5d"] 2(1) by simp
  qed (auto simp: add_value_def add_to_current_def add_first_def Semantic_actions_init_def)
  then show ?thesis
  proof (elim exE conjE)
    fix st
    assume st: "run_actions add (Semantic_actions_init junk []) as = Inr st" "act_value st = stored_value add v"
      "current_p st = Some []" "act_stack st = []"
    have "\<exists>qs. stored_value add v = Obj_value qs \<and> distinct (map fst qs) \<and>
        map_of qs = map_of (rev (map (map_prod id (stored_value add)) ps))"
      if "overwrites add" "v = Obj_value ps" for ps
      using add_members_overwrites [OF that(1), of "[]" "map (map_prod id (stored_value add)) ps"] by (simp add: that(2))
    then show ?thesis using st stored_value_appends [of add v] by (intro exI [of _ st]) simp
  qed
qed

text \<open>The two representations on an object that names a member twice.\<close>

definition vector_add :: "('s, 'r) cfg_add" where
  "vector_add ps n v = (ps @ [(n, v)], length ps)"

fun assign_add :: "('s, 'r) cfg_add" where
  "assign_add [] n v = ([(n, v)], 0)"
| "assign_add (p # ps) n v = (if fst p = n then ((n, v) # ps, 0)
     else (let (qs, i) = assign_add ps n v in (p # qs, Suc i)))"

lemma vector_add_ok: "config_add vector_add" "appends vector_add"
proof -
  have "vector_add ps n v = ((ps @ [(n, Null_value)])[length ps := (n, v)], length ps)" for ps n v
    by (simp add: vector_add_def)
  then show "config_add vector_add" unfolding config_add_def by (metis length_append_singleton lessI)
qed (simp add: appends_def vector_add_def)

lemma assign_add_slot: "\<exists>qs i. i < length qs \<and> (\<forall>v. assign_add ps n v = (qs[i := (n, v)], i))"
proof (induction ps)
  case Nil
  show ?case by (rule exI [of _ "[(n, Null_value)]"], rule exI [of _ 0]) simp
next
  case (Cons p ps)
  then obtain qs i where q: "i < length qs" "\<And>v. assign_add ps n v = (qs[i := (n, v)], i)" by blast
  show ?case
  proof (cases "fst p = n")
    case True
    then show ?thesis by (intro exI [of _ "p # ps"] exI [of _ 0]) simp
  next
    case False
    then show ?thesis using q by (intro exI [of _ "p # qs"] exI [of _ "Suc i"]) simp
  qed
qed

lemma assign_add_names: "fst ` set (fst (assign_add ps n v)) = insert n (fst ` set ps)"
  by (induction ps) (simp_all add: split_beta insert_commute)

lemma assign_add_map:
  "distinct (map fst ps) \<Longrightarrow> distinct (map fst (fst (assign_add ps n v)))"
  "map_of (fst (assign_add ps n v)) = (map_of ps)(n \<mapsto> v)"
  by (induction ps) (auto simp: split_beta assign_add_names fun_upd_twist image_iff)

lemma assign_add_ok: "config_add assign_add" "overwrites assign_add"
  by (simp_all add: config_add_def assign_add_slot overwrites_def assign_add_map)

definition twice_named :: "(byte, int) action list" where
  "twice_named = [Begin_obj 0x7b, New_name [0x22, 0x61, 0x22], New_true (lit ''true''),
     New_name [0x22, 0x61, 0x22], New_int 5, End_obj 0x7d]"

theorem actions_build_value_witness:
  "(\<exists>st. run_actions vector_add (Semantic_actions_init Null_value []) twice_named = Inr st \<and>
      act_value st = (Obj_value [([0x61], Bool_value True), ([0x61], Int_value 5)] :: (byte list, int) Value) \<and>
      current_p st = Some [] \<and> act_stack st = []) \<and>
    (\<exists>st. run_actions assign_add (Semantic_actions_init Null_value []) twice_named = Inr st \<and>
      act_value st = (Obj_value [([0x61], Int_value 5)] :: (byte list, int) Value) \<and>
      current_p st = Some [] \<and> act_stack st = [])"
proof -
  let ?ps = "[([0x61 :: byte], Bool_value True), ([0x61], Int_value 5)] :: (byte list \<times> (byte list, int) Value) list"
  have n: "get_str [0x22, 0x61, 0x22 :: byte] = Inr [0x61]"
    using get_str_quoted [where q = "0x22 :: byte" and cs = "[0x61]" and q' = "0x22"] by simp
  have l: "is_eq (lit ''true'' :: byte list) (lit ''true'')" by (simp add: lit_def chr_def)
  have "reports_members ?ps
      (New_name [0x22, 0x61, 0x22] # [New_true (lit ''true'')] @
        (New_name [0x22, 0x61, 0x22] # [New_int 5] @ []))"
    by (rule reports_reports_elems_reports_members.intros | rule n | rule l)+
  then have "reports (Obj_value ?ps) (Begin_obj 0x7b # (New_name [0x22, 0x61, 0x22] # [New_true (lit ''true'')] @
        (New_name [0x22, 0x61, 0x22] # [New_int 5] @ [])) @ [End_obj 0x7d])"
    by (rule reports_reports_elems_reports_members.intros)
  then have r: "reports (Obj_value ?ps) twice_named" unfolding twice_named_def by (simp only: append.simps)
  have s: "stored_value assign_add (Obj_value ?ps) = Obj_value [([0x61], Int_value 5)]"
    "stored_value vector_add (Obj_value ?ps) = Obj_value ?ps"
    by simp (rule stored_value_appends [OF vector_add_ok(2)])
  show ?thesis
    using actions_build_value [OF vector_add_ok(1) r, of Null_value]
      actions_build_value [OF assign_add_ok(1) r, of Null_value] unfolding s by blast
qed

text \<open>
  The builder never follows a dangling pointer. Whatever calls are made, starting with a
  value or an opening bracket, a run ends in a well-formed state or in a failed assertion:
  the current pointer leads to a part of the value and the stack to its enclosing parts,
  whichever object representation is used.
\<close>

theorem actions_memory_safe:
  assumes "add_ok add" "may_start a"
  shows "case run_actions add (Semantic_actions_init v s) (a # as) of
      Inl e \<Rightarrow> e = AssertFail
    | Inr st \<Rightarrow> \<exists>p. current_p st = Some p \<and> value_at (act_value st) p \<noteq> None \<and>
        act_stack st = map (\<lambda>k. take k p) [0..<length p]"
proof -
  have first: "safe_step (run_action add (Semantic_actions_init v s) a)"
    by (rule run_first_safe) (simp_all add: Semantic_actions_init_def actions_wf_def assms(2))
  have "safe_step (run_actions add (Semantic_actions_init v s) (a # as))"
  proof (cases "run_action add (Semantic_actions_init v s) a")
    case (Inr st)
    then show ?thesis using first run_actions_safe [OF assms(1), of st as] by simp
  qed (use first in simp)
  then show ?thesis by (auto simp: safe_step_def actions_wf_def split: sum.splits)
qed

theorem actions_memory_safe_witness:
  "case run_actions vector_add (Semantic_actions_init Null_value [])
      [Begin_array (0x5b :: byte), New_int 1, End_obj 0x7b] of
      Inl e \<Rightarrow> e = AssertFail
    | Inr st \<Rightarrow> \<exists>p. current_p st = Some p \<and>
        value_at (act_value st :: (byte list, int) Value) p \<noteq> None \<and>
        act_stack st = map (\<lambda>k. take k p) [0..<length p]"
proof (rule actions_memory_safe)
  show "add_ok (vector_add :: (byte list, int) cfg_add)" by (simp add: add_ok_def vector_add_def)
qed simp

lemma find_value_first:
  "find_value obj name = (case map_of obj name of Some v \<Rightarrow> v | None \<Rightarrow> Null_value)"
  by (induction obj name rule: find_value.induct) auto

lemma map_to_obj_id: "map_to_obj m = m"
  by (induction m rule: map_to_obj.induct) auto

lemma find_obj_to_map: "smap_find (obj_to_map obj) name = map_of (rev obj) name"
  unfolding obj_to_map_def using smap.get_fold [of "[]" obj name] by (simp split: option.splits)

lemma smap_ok_obj_to_map: "smap_ok (obj_to_map obj)"
  unfolding obj_to_map_def by (rule smap.ok_fold) simp

lemma obj_to_map_ordered: "smap_ok m \<Longrightarrow> obj_to_map m = m"
  using smap_ok_distinct [of m]
  by (intro smap.get_ext) (simp_all add: smap_ok_obj_to_map find_obj_to_map map_of_rev_distinct, simp add: smap_find_map_of)

text \<open>
  Objects with a name twice. \<open>find_value\<close> returns the first member of that name,
  \<open>obj_to_map\<close> keeps the last, and a map copied to an object and back is unchanged.
\<close>

theorem object_lookup:
  fixes obj :: "('s::linorder \<times> ('s, 'r) Value) list"
  shows "find_value obj name = (case map_of obj name of Some v \<Rightarrow> v | None \<Rightarrow> Null_value) \<and>
   smap_find (obj_to_map obj) name = map_of (rev obj) name \<and>
   obj_to_map (map_to_obj (obj_to_map obj)) = obj_to_map obj"
  by (simp add: find_value_first find_obj_to_map map_to_obj_id obj_to_map_ordered smap_ok_obj_to_map)

end
