(* ===== verification/JsonReader.thy ===== *)
theory JsonReader
  imports Json
begin

text \<open>
  The entry points of the JSON reader, \<open>Utility/json_spirit/json_spirit_reader.cpp\<close>: one
  overload of \<open>read\<close> and of \<open>read_or_throw\<close> for each kind of source (a string, a stream, a
  range of a string) and each value type. The templates they call (\<open>read_string\<close>,
  \<open>read_stream\<close>, \<open>read_range\<close> and their throwing versions) are not in the repository: they
  are the fields of a record, one for each string and value type.
\<close>

section \<open>Templates\<close>

text \<open>
  \<open>'t\<close> is a string, \<open>'i\<close> a stream, \<open>'v\<close> a value and \<open>'e\<close> what the parser throws. The value
  is an argument by reference, of which a failing call may have filled a part; so is the
  begin of the range of \<open>read_range\<close>, an offset into the string.
\<close>

record ('t, 'i, 'v, 'e) read_templates =
  read_string :: "'t \<Rightarrow> 'v \<Rightarrow> bool \<times> 'v"
  read_string_or_throw :: "'t \<Rightarrow> 'v \<Rightarrow> ('e + unit) \<times> 'v"
  read_stream :: "'i \<Rightarrow> 'v \<Rightarrow> bool \<times> 'i \<times> 'v"
  read_stream_or_throw :: "'i \<Rightarrow> 'v \<Rightarrow> ('e + unit) \<times> 'i \<times> 'v"
  read_range :: "'t \<Rightarrow> nat \<Rightarrow> nat \<Rightarrow> 'v \<Rightarrow> bool \<times> nat \<times> 'v"
  read_range_or_throw :: "'t \<Rightarrow> nat \<Rightarrow> nat \<Rightarrow> 'v \<Rightarrow> ('e + nat) \<times> 'v"

text \<open>The templates for values with narrow and with wide strings.\<close>

type_synonym ('i, 'r, 'e) narrow_templates = "(byte list, 'i, (byte list, 'r) Value, 'e) read_templates"
type_synonym ('w, 'i, 'r, 'e) wide_templates =
  "('w word list, 'i, ('w word list, 'r) Value, 'e) read_templates"

text \<open>
  \<open>begin = f(...)\<close>: the iterator is assigned when the call returns; when it throws, the
  assignment does not take place.
\<close>

definition assign_begin :: "nat \<Rightarrow> ('e + nat) \<times> 'v \<Rightarrow> ('e + unit) \<times> nat \<times> 'v" where
  "assign_begin begin' r =
     (case r of (Inl e, value) \<Rightarrow> (Inl e, begin', value) | (Inr i, value) \<Rightarrow> (Inr (), i, value))"

section \<open>Values with narrow strings, objects as vectors\<close>

definition read_str ::
    "('i, 'r, 'e) narrow_templates \<Rightarrow> byte list \<Rightarrow> (byte list, 'r) Value \<Rightarrow>
     bool \<times> (byte list, 'r) Value" where
  "read_str T s value = read_string T s value"

definition read_or_throw_str ::
    "('i, 'r, 'e) narrow_templates \<Rightarrow> byte list \<Rightarrow> (byte list, 'r) Value \<Rightarrow>
     ('e + unit) \<times> (byte list, 'r) Value" where
  "read_or_throw_str T s value = read_string_or_throw T s value"

definition read_istream ::
    "('i, 'r, 'e) narrow_templates \<Rightarrow> 'i \<Rightarrow> (byte list, 'r) Value \<Rightarrow>
     bool \<times> 'i \<times> (byte list, 'r) Value" where
  "read_istream T stream value = read_stream T stream value"

definition read_or_throw_istream ::
    "('i, 'r, 'e) narrow_templates \<Rightarrow> 'i \<Rightarrow> (byte list, 'r) Value \<Rightarrow>
     ('e + unit) \<times> 'i \<times> (byte list, 'r) Value" where
  "read_or_throw_istream T stream value = read_stream_or_throw T stream value"

definition read_iter ::
    "('i, 'r, 'e) narrow_templates \<Rightarrow> byte list \<Rightarrow> nat \<Rightarrow> nat \<Rightarrow> (byte list, 'r) Value \<Rightarrow>
     bool \<times> nat \<times> (byte list, 'r) Value" where
  "read_iter T s begin' end' value = read_range T s begin' end' value"

definition read_or_throw_iter ::
    "('i, 'r, 'e) narrow_templates \<Rightarrow> byte list \<Rightarrow> nat \<Rightarrow> nat \<Rightarrow> (byte list, 'r) Value \<Rightarrow>
     ('e + unit) \<times> nat \<times> (byte list, 'r) Value" where
  "read_or_throw_iter T s begin' end' value = assign_begin begin' (read_range_or_throw T s begin' end' value)"

section \<open>Values with wide strings, objects as vectors\<close>

definition w_read_str ::
    "('w::len, 'i, 'r, 'e) wide_templates \<Rightarrow> 'w word list \<Rightarrow> ('w word list, 'r) Value \<Rightarrow>
     bool \<times> ('w word list, 'r) Value" where
  "w_read_str T s value = read_string T s value"

definition w_read_or_throw_str ::
    "('w::len, 'i, 'r, 'e) wide_templates \<Rightarrow> 'w word list \<Rightarrow> ('w word list, 'r) Value \<Rightarrow>
     ('e + unit) \<times> ('w word list, 'r) Value" where
  "w_read_or_throw_str T s value = read_string_or_throw T s value"

definition w_read_istream ::
    "('w::len, 'i, 'r, 'e) wide_templates \<Rightarrow> 'i \<Rightarrow> ('w word list, 'r) Value \<Rightarrow>
     bool \<times> 'i \<times> ('w word list, 'r) Value" where
  "w_read_istream T stream value = read_stream T stream value"

definition w_read_or_throw_istream ::
    "('w::len, 'i, 'r, 'e) wide_templates \<Rightarrow> 'i \<Rightarrow> ('w word list, 'r) Value \<Rightarrow>
     ('e + unit) \<times> 'i \<times> ('w word list, 'r) Value" where
  "w_read_or_throw_istream T stream value = read_stream_or_throw T stream value"

definition w_read_iter ::
    "('w::len, 'i, 'r, 'e) wide_templates \<Rightarrow> 'w word list \<Rightarrow> nat \<Rightarrow> nat \<Rightarrow> ('w word list, 'r) Value \<Rightarrow>
     bool \<times> nat \<times> ('w word list, 'r) Value" where
  "w_read_iter T s begin' end' value = read_range T s begin' end' value"

definition w_read_or_throw_iter ::
    "('w::len, 'i, 'r, 'e) wide_templates \<Rightarrow> 'w word list \<Rightarrow> nat \<Rightarrow> nat \<Rightarrow> ('w word list, 'r) Value \<Rightarrow>
     ('e + unit) \<times> nat \<times> ('w word list, 'r) Value" where
  "w_read_or_throw_iter T s begin' end' value = assign_begin begin' (read_range_or_throw T s begin' end' value)"

section \<open>Values with narrow strings, objects as maps\<close>

definition m_read_str ::
    "('i, 'r, 'e) narrow_templates \<Rightarrow> byte list \<Rightarrow> (byte list, 'r) Value \<Rightarrow>
     bool \<times> (byte list, 'r) Value" where
  "m_read_str T s value = read_string T s value"

definition m_read_or_throw_str ::
    "('i, 'r, 'e) narrow_templates \<Rightarrow> byte list \<Rightarrow> (byte list, 'r) Value \<Rightarrow>
     ('e + unit) \<times> (byte list, 'r) Value" where
  "m_read_or_throw_str T s value = read_string_or_throw T s value"

definition m_read_istream ::
    "('i, 'r, 'e) narrow_templates \<Rightarrow> 'i \<Rightarrow> (byte list, 'r) Value \<Rightarrow>
     bool \<times> 'i \<times> (byte list, 'r) Value" where
  "m_read_istream T stream value = read_stream T stream value"

definition m_read_or_throw_istream ::
    "('i, 'r, 'e) narrow_templates \<Rightarrow> 'i \<Rightarrow> (byte list, 'r) Value \<Rightarrow>
     ('e + unit) \<times> 'i \<times> (byte list, 'r) Value" where
  "m_read_or_throw_istream T stream value = read_stream_or_throw T stream value"

definition m_read_iter ::
    "('i, 'r, 'e) narrow_templates \<Rightarrow> byte list \<Rightarrow> nat \<Rightarrow> nat \<Rightarrow> (byte list, 'r) Value \<Rightarrow>
     bool \<times> nat \<times> (byte list, 'r) Value" where
  "m_read_iter T s begin' end' value = read_range T s begin' end' value"

definition m_read_or_throw_iter ::
    "('i, 'r, 'e) narrow_templates \<Rightarrow> byte list \<Rightarrow> nat \<Rightarrow> nat \<Rightarrow> (byte list, 'r) Value \<Rightarrow>
     ('e + unit) \<times> nat \<times> (byte list, 'r) Value" where
  "m_read_or_throw_iter T s begin' end' value = assign_begin begin' (read_range_or_throw T s begin' end' value)"

section \<open>Values with wide strings, objects as maps\<close>

definition wm_read_str ::
    "('w::len, 'i, 'r, 'e) wide_templates \<Rightarrow> 'w word list \<Rightarrow> ('w word list, 'r) Value \<Rightarrow>
     bool \<times> ('w word list, 'r) Value" where
  "wm_read_str T s value = read_string T s value"

definition wm_read_or_throw_str ::
    "('w::len, 'i, 'r, 'e) wide_templates \<Rightarrow> 'w word list \<Rightarrow> ('w word list, 'r) Value \<Rightarrow>
     ('e + unit) \<times> ('w word list, 'r) Value" where
  "wm_read_or_throw_str T s value = read_string_or_throw T s value"

definition wm_read_istream ::
    "('w::len, 'i, 'r, 'e) wide_templates \<Rightarrow> 'i \<Rightarrow> ('w word list, 'r) Value \<Rightarrow>
     bool \<times> 'i \<times> ('w word list, 'r) Value" where
  "wm_read_istream T stream value = read_stream T stream value"

definition wm_read_or_throw_istream ::
    "('w::len, 'i, 'r, 'e) wide_templates \<Rightarrow> 'i \<Rightarrow> ('w word list, 'r) Value \<Rightarrow>
     ('e + unit) \<times> 'i \<times> ('w word list, 'r) Value" where
  "wm_read_or_throw_istream T stream value = read_stream_or_throw T stream value"

definition wm_read_iter ::
    "('w::len, 'i, 'r, 'e) wide_templates \<Rightarrow> 'w word list \<Rightarrow> nat \<Rightarrow> nat \<Rightarrow> ('w word list, 'r) Value \<Rightarrow>
     bool \<times> nat \<times> ('w word list, 'r) Value" where
  "wm_read_iter T s begin' end' value = read_range T s begin' end' value"

definition wm_read_or_throw_iter ::
    "('w::len, 'i, 'r, 'e) wide_templates \<Rightarrow> 'w word list \<Rightarrow> nat \<Rightarrow> nat \<Rightarrow> ('w word list, 'r) Value \<Rightarrow>
     ('e + unit) \<times> nat \<times> ('w word list, 'r) Value" where
  "wm_read_or_throw_iter T s begin' end' value = assign_begin begin' (read_range_or_throw T s begin' end' value)"

section \<open>Lemmas\<close>

lemmas reader_defs = read_or_throw_iter_def w_read_or_throw_iter_def m_read_or_throw_iter_def
  wm_read_or_throw_iter_def assign_begin_def

text \<open>
  Reading from a range with \<open>read_or_throw\<close> moves the begin of the range only when it
  returns: the caller of a failed call still has the place where it started.
\<close>

lemma failed_read_keeps_begin:
  "read_or_throw_iter T s b e v = (Inl err, b', v') \<Longrightarrow> b' = b"
  "w_read_or_throw_iter U t b e w = (Inl err, b', w') \<Longrightarrow> b' = b"
  "m_read_or_throw_iter T s b e v = (Inl err, b', v') \<Longrightarrow> b' = b"
  "wm_read_or_throw_iter U t b e w = (Inl err, b', w') \<Longrightarrow> b' = b"
  by (auto simp: reader_defs split: prod.splits sum.splits)

end
