(* ===== verification/Crypter.thy ===== *)
theory Crypter
  imports Codec StdMap
begin

text \<open>
  Symmetric encryption of secrets (\<open>Wallet/crypter.cpp\<close>, class \<open>CCrypter\<close> and the routines
  around it). OpenSSL and the declarations of \<open>crypter.h\<close> are not part of the repository:
  the record \<open>evp\<close> holds the OpenSSL calls the code makes and the constants it uses.
  \<open>evp_ok\<close> states what their documentation promises: how much a call writes at most, and
  that decryption undoes encryption under the same key and initialisation vector.
\<close>

section \<open>OpenSSL\<close>

text \<open>
  An update or final call returns whether it succeeded and the bytes it writes to its output
  pointer; the context is determined by key, vector and input. \<open>evp_cleanse\<close> overwrites a
  buffer.
\<close>

record evp =
  evp_ctx_new :: bool
  evp_enc_init :: "byte list \<Rightarrow> byte list \<Rightarrow> bool"
  evp_enc_update :: "byte list \<Rightarrow> byte list \<Rightarrow> byte list \<Rightarrow> bool \<times> byte list"
  evp_enc_final :: "byte list \<Rightarrow> byte list \<Rightarrow> byte list \<Rightarrow> bool \<times> byte list"
  evp_dec_init :: "byte list \<Rightarrow> byte list \<Rightarrow> bool"
  evp_dec_update :: "byte list \<Rightarrow> byte list \<Rightarrow> byte list \<Rightarrow> bool \<times> byte list"
  evp_dec_final :: "byte list \<Rightarrow> byte list \<Rightarrow> byte list \<Rightarrow> bool \<times> byte list"
  evp_bytes_to_key :: "byte list \<Rightarrow> byte list \<Rightarrow> nat \<Rightarrow> int \<times> byte list \<times> byte list"
  evp_cleanse :: "byte list \<Rightarrow> byte list"
  AES_BLOCK_SIZE :: nat
  WALLET_CRYPTO_KEY_SIZE :: nat
  WALLET_CRYPTO_SALT_SIZE :: nat

section \<open>Buffers\<close>

definition write_buf :: "byte list \<Rightarrow> nat \<Rightarrow> byte list \<Rightarrow> byte list res" where
  "write_buf buf off out =
     (if off + length out \<le> length buf
      then Inr (take off buf @ out @ drop (off + length out) buf) else Inl BufferOverflow)"

definition resize :: "byte list \<Rightarrow> nat \<Rightarrow> byte list" where
  "resize buf n = take n buf @ replicate (n - length buf) 0"

section \<open>The cipher calls\<close>

text \<open>
  The block both encryption routines share: from \<open>EVP_CIPHER_CTX_new\<close> to
  \<open>EVP_CIPHER_CTX_free\<close>, on an output buffer that is large enough or overflows. It returns
  success, the buffer, and the two lengths.
\<close>

definition run_cipher ::
    "bool \<Rightarrow> bool \<Rightarrow> bool \<times> byte list \<Rightarrow> bool \<times> byte list \<Rightarrow> byte list \<Rightarrow>
     (bool \<times> byte list \<times> nat) res" where
  "run_cipher ctx init update final buf =
     (if \<not> ctx then Inr (False, buf, 0)
      else if \<not> init then Inr (False, buf, 0)
      else rbind (write_buf buf 0 (snd update)) (\<lambda>buf.
        let nCLen = length (snd update) in
        if \<not> fst update then Inr (False, buf, nCLen)
        else rbind (write_buf buf nCLen (snd final)) (\<lambda>buf.
          Inr (fst final, buf, nCLen + length (snd final)))))"

record CCrypter =
  chKey :: "byte list"
  chIV :: "byte list"
  fKeySet :: bool

definition memory_cleanse :: "evp \<Rightarrow> byte list \<Rightarrow> byte list" where
  "memory_cleanse E buf = evp_cleanse E buf"

definition SetKeyFromPassphrase ::
    "evp \<Rightarrow> CCrypter \<Rightarrow> byte list \<Rightarrow> byte list \<Rightarrow> nat \<Rightarrow> nat \<Rightarrow> bool \<times> CCrypter" where
  "SetKeyFromPassphrase E c strKeyData chSalt nRounds nDerivationMethod =
     (if nRounds < 1 \<or> length chSalt \<noteq> WALLET_CRYPTO_SALT_SIZE E then (False, c)
      else let (i, c) = (if nDerivationMethod = 0
                 then (case evp_bytes_to_key E chSalt strKeyData nRounds of
                         (i, key, iv) \<Rightarrow> (i, c\<lparr>chKey := key, chIV := iv\<rparr>))
                 else (0, c))
           in if i \<noteq> int (WALLET_CRYPTO_KEY_SIZE E)
              then (False, c\<lparr>chKey := memory_cleanse E (chKey c), chIV := memory_cleanse E (chIV c)\<rparr>)
              else (True, c\<lparr>fKeySet := True\<rparr>))"

text \<open>The two \<open>memcpy\<close> calls fill the whole arrays, so the sources must be as long.\<close>

definition SetKey :: "evp \<Rightarrow> CCrypter \<Rightarrow> byte list \<Rightarrow> byte list \<Rightarrow> (bool \<times> CCrypter) res" where
  "SetKey E c chNewKey chNewIV =
     (if length chNewKey \<noteq> WALLET_CRYPTO_KEY_SIZE E \<or> length chNewIV \<noteq> WALLET_CRYPTO_KEY_SIZE E
      then Inr (False, c)
      else if length chNewKey < length (chKey c) \<or> length chNewIV < length (chIV c)
      then Inl BufferOverflow
      else Inr (True, c\<lparr>chKey := take (length (chKey c)) chNewKey,
                       chIV := take (length (chIV c)) chNewIV, fKeySet := True\<rparr>))"

text \<open>
  \<open>int nLen\<close> and the sum with the block size are 32-bit; larger inputs are out of the range
  the code can handle.
\<close>

definition Encrypt :: "evp \<Rightarrow> CCrypter \<Rightarrow> byte list \<Rightarrow> byte list \<Rightarrow> (bool \<times> byte list) res" where
  "Encrypt E c vchPlaintext vchCiphertext =
     (if \<not> fKeySet c then Inr (False, vchCiphertext)
      else let nLen = length vchPlaintext; nCLen = nLen + AES_BLOCK_SIZE E in
        if i32_max < int nCLen then Inl SignedOverflow
        else rbind (run_cipher (evp_ctx_new E) (evp_enc_init E (chKey c) (chIV c))
               (evp_enc_update E (chKey c) (chIV c) vchPlaintext)
               (evp_enc_final E (chKey c) (chIV c) vchPlaintext) (replicate nCLen 0))
             (\<lambda>(fOk, buf, n). Inr (if fOk then (True, resize buf n) else (False, buf))))"

definition Decrypt :: "evp \<Rightarrow> CCrypter \<Rightarrow> byte list \<Rightarrow> byte list \<Rightarrow> (bool \<times> byte list) res" where
  "Decrypt E c vchCiphertext vchPlaintext =
     (if \<not> fKeySet c then Inr (False, vchPlaintext)
      else let nLen = length vchCiphertext in
        if i32_max < int nLen then Inl SignedOverflow
        else rbind (run_cipher (evp_ctx_new E) (evp_dec_init E (chKey c) (chIV c))
               (evp_dec_update E (chKey c) (chIV c) vchCiphertext)
               (evp_dec_final E (chKey c) (chIV c) vchCiphertext) (replicate nLen 0))
             (\<lambda>(fOk, buf, n). Inr (if fOk then (True, resize buf n) else (False, buf))))"

text \<open>
  \<open>new_crypter\<close> is a default-constructed \<open>CCrypter\<close>; \<open>nIV\<close> is the 32 bytes of a
  \<open>uint256\<close>, of which \<open>WALLET_CRYPTO_KEY_SIZE\<close> are copied.
\<close>

definition EncryptSecret ::
    "evp \<Rightarrow> CCrypter \<Rightarrow> byte list \<Rightarrow> byte list \<Rightarrow> byte list \<Rightarrow> byte list \<Rightarrow> (bool \<times> byte list) res" where
  "EncryptSecret E new_crypter vMasterKey vchPlaintext nIV vchCiphertext =
     (if length nIV < WALLET_CRYPTO_KEY_SIZE E then Inl BufferOverflow
      else rbind (SetKey E new_crypter vMasterKey (take (WALLET_CRYPTO_KEY_SIZE E) nIV)) (\<lambda>(ok, c).
        if \<not> ok then Inr (False, vchCiphertext) else Encrypt E c vchPlaintext vchCiphertext))"

definition DecryptSecret ::
    "evp \<Rightarrow> CCrypter \<Rightarrow> byte list \<Rightarrow> byte list \<Rightarrow> byte list \<Rightarrow> byte list \<Rightarrow> (bool \<times> byte list) res" where
  "DecryptSecret E new_crypter vMasterKey vchCiphertext nIV vchPlaintext =
     (if length nIV < WALLET_CRYPTO_KEY_SIZE E then Inl BufferOverflow
      else rbind (SetKey E new_crypter vMasterKey (take (WALLET_CRYPTO_KEY_SIZE E) nIV)) (\<lambda>(ok, c).
        if \<not> ok then Inr (False, vchPlaintext) else Decrypt E c vchCiphertext vchPlaintext))"

definition EncryptAES256 ::
    "evp \<Rightarrow> byte list \<Rightarrow> byte list \<Rightarrow> byte list \<Rightarrow> byte list \<Rightarrow> (bool \<times> byte list) res" where
  "EncryptAES256 E sKey sPlaintext sIV sCiphertext =
     (let nLen = length sPlaintext; nCLen = nLen + AES_BLOCK_SIZE E in
      if i32_max < int nCLen then Inl SignedOverflow
      else if length sKey \<noteq> 32 \<or> length sIV \<noteq> AES_BLOCK_SIZE E then Inr (False, sCiphertext)
      else rbind (run_cipher (evp_ctx_new E) (evp_enc_init E sKey sIV)
             (evp_enc_update E sKey sIV sPlaintext) (evp_enc_final E sKey sIV sPlaintext)
             (resize sCiphertext nCLen))
           (\<lambda>(fOk, buf, n). Inr (if fOk then (True, resize buf n) else (False, buf))))"

definition DecryptAES256 ::
    "evp \<Rightarrow> byte list \<Rightarrow> byte list \<Rightarrow> byte list \<Rightarrow> byte list \<Rightarrow> (bool \<times> byte list) res" where
  "DecryptAES256 E sKey sCiphertext sIV sPlaintext =
     (let nLen = length sCiphertext in
      if i32_max < int nLen then Inl SignedOverflow
      else if length sKey \<noteq> 32 \<or> length sIV \<noteq> AES_BLOCK_SIZE E then Inr (False, sPlaintext)
      else rbind (run_cipher (evp_ctx_new E) (evp_dec_init E sKey sIV)
             (evp_dec_update E sKey sIV sCiphertext) (evp_dec_final E sKey sIV sCiphertext)
             (resize sPlaintext nLen))
           (\<lambda>(fOk, buf, n). Inr (if fOk then (True, resize buf n) else (False, buf))))"

section \<open>What the library documents\<close>

definition cipher_text :: "evp \<Rightarrow> byte list \<Rightarrow> byte list \<Rightarrow> byte list \<Rightarrow> byte list" where
  "cipher_text E key iv p = snd (evp_enc_update E key iv p) @ snd (evp_enc_final E key iv p)"

definition evp_ok :: "evp \<Rightarrow> bool" where
  "evp_ok E \<longleftrightarrow> evp_ctx_new E \<and>
     (\<forall>key iv. evp_enc_init E key iv \<and> evp_dec_init E key iv) \<and>
     (\<forall>key iv p. fst (evp_enc_update E key iv p) \<and> fst (evp_enc_final E key iv p) \<and>
        length (cipher_text E key iv p) \<le> length p + AES_BLOCK_SIZE E) \<and>
     (\<forall>key iv p.
        fst (evp_dec_update E key iv (cipher_text E key iv p)) \<and>
        fst (evp_dec_final E key iv (cipher_text E key iv p)) \<and>
        snd (evp_dec_update E key iv (cipher_text E key iv p)) @
          snd (evp_dec_final E key iv (cipher_text E key iv p)) = p \<and>
        length p \<le> length (cipher_text E key iv p))"

definition crypter_ok :: "evp \<Rightarrow> CCrypter \<Rightarrow> bool" where
  "crypter_ok E c \<longleftrightarrow> WALLET_CRYPTO_KEY_SIZE E = 32 \<and>
     length (chKey c) = WALLET_CRYPTO_KEY_SIZE E \<and> length (chIV c) = WALLET_CRYPTO_KEY_SIZE E"

lemma resize_prefix: "n \<le> length buf \<Longrightarrow> resize buf n = take n buf"
  by (simp add: resize_def)

lemma length_resize [simp]: "length (resize buf n) = n"
  by (simp add: resize_def min_def)

lemma run_cipher_ok:
  assumes "fst update" "fst final" "length (snd update @ snd final) \<le> length buf"
  shows "\<exists>buf'. run_cipher True True update final buf =
    Inr (True, buf', length (snd update @ snd final)) \<and>
    resize buf' (length (snd update @ snd final)) = snd update @ snd final"
  using assms by (simp add: run_cipher_def write_buf_def Let_def resize_def)

lemma Encrypt_ok:
  assumes "evp_ok E" "fKeySet c" "int (length p + AES_BLOCK_SIZE E) \<le> i32_max"
  shows "Encrypt E c p ct = Inr (True, cipher_text E (chKey c) (chIV c) p)"
proof -
  have "length (snd (evp_enc_update E (chKey c) (chIV c) p) @ snd (evp_enc_final E (chKey c) (chIV c) p))
      \<le> length (replicate (length p + AES_BLOCK_SIZE E) (0::byte))"
    using assms(1) by (simp add: evp_ok_def cipher_text_def)
  from run_cipher_ok [OF _ _ this] show ?thesis
    using assms by (auto simp: Encrypt_def evp_ok_def cipher_text_def Let_def)
qed

lemma Decrypt_ok:
  assumes "evp_ok E" "fKeySet c" "int (length (cipher_text E (chKey c) (chIV c) p)) \<le> i32_max"
  shows "Decrypt E c (cipher_text E (chKey c) (chIV c) p) pt = Inr (True, p)"
proof -
  let ?t = "cipher_text E (chKey c) (chIV c) p"
  let ?u = "evp_dec_update E (chKey c) (chIV c) ?t" and ?f = "evp_dec_final E (chKey c) (chIV c) ?t"
  have d: "fst ?u" "fst ?f" "snd ?u @ snd ?f = p" "length p \<le> length ?t"
    using assms(1) by (simp_all add: evp_ok_def)
  have "length (snd ?u @ snd ?f) \<le> length (replicate (length ?t) (0::byte))" using d(3,4) by simp
  from run_cipher_ok [OF d(1,2) this] show ?thesis
    using assms d(3) by (auto simp: Decrypt_def evp_ok_def Let_def)
qed

section \<open>Secrets and AES texts as codecs\<close>

definition SetKey_of :: "CCrypter \<Rightarrow> byte list \<Rightarrow> byte list \<Rightarrow> CCrypter" where
  "SetKey_of c key iv = c\<lparr>chKey := take (length (chKey c)) key, chIV := take (length (chIV c)) iv, fKeySet := True\<rparr>"

definition key_ok :: "evp \<Rightarrow> CCrypter \<Rightarrow> byte list \<Rightarrow> byte list \<Rightarrow> bool" where
  "key_ok E new_crypter mk nIV \<longleftrightarrow> evp_ok E \<and> crypter_ok E new_crypter \<and> length mk = 32 \<and> length nIV = 32"

lemma SetKey_ok:
  "key_ok E new_crypter mk nIV \<Longrightarrow> SetKey E new_crypter mk (take (WALLET_CRYPTO_KEY_SIZE E) nIV) =
     Inr (True, \<lparr>chKey = mk, chIV = nIV, fKeySet = True\<rparr>)"
  by (cases new_crypter) (simp add: SetKey_def key_ok_def crypter_ok_def)

lemma EncryptSecret_ok:
  assumes "key_ok E new_crypter mk nIV" "int (length p + AES_BLOCK_SIZE E) \<le> i32_max"
  shows "EncryptSecret E new_crypter mk p nIV ct = Inr (True, cipher_text E mk nIV p)"
  using assms Encrypt_ok [of E "\<lparr>chKey = mk, chIV = nIV, fKeySet = True\<rparr>" p]
  by (simp add: EncryptSecret_def SetKey_ok) (simp add: key_ok_def crypter_ok_def)

lemma DecryptSecret_ok:
  assumes "key_ok E new_crypter mk nIV" "int (length p + AES_BLOCK_SIZE E) \<le> i32_max"
  shows "DecryptSecret E new_crypter mk (cipher_text E mk nIV p) nIV pt = Inr (True, p)"
proof -
  have "length (cipher_text E mk nIV p) \<le> length p + AES_BLOCK_SIZE E"
    using assms(1) by (simp add: key_ok_def evp_ok_def)
  then have "int (length (cipher_text E mk nIV p)) \<le> i32_max" using assms(2) by linarith
  then show ?thesis
    using assms Decrypt_ok [of E "\<lparr>chKey = mk, chIV = nIV, fKeySet = True\<rparr>" p]
    by (simp add: DecryptSecret_def SetKey_ok) (simp add: key_ok_def crypter_ok_def)
qed

text \<open>A wrong key length is refused, by both routines, before any OpenSSL call.\<close>

lemma Secret_wrong_length:
  assumes "length mk \<noteq> WALLET_CRYPTO_KEY_SIZE E" "WALLET_CRYPTO_KEY_SIZE E \<le> length nIV"
  shows "EncryptSecret E new_crypter mk p nIV ct = Inr (False, ct)"
    "DecryptSecret E new_crypter mk p nIV ct = Inr (False, ct)"
  using assms by (simp_all add: EncryptSecret_def DecryptSecret_def SetKey_def)

type_synonym secret = "evp \<times> CCrypter \<times> byte list \<times> byte list \<times> byte list"

definition seal :: "secret \<Rightarrow> secret res" where
  "seal = (\<lambda>(E, c, mk, iv, p). rbind (EncryptSecret E c mk p iv []) (\<lambda>(ok, t).
     if ok then Inr (E, c, mk, iv, t) else Inl (Thrown ''not encrypted'')))"

definition unseal :: "secret \<Rightarrow> secret res" where
  "unseal = (\<lambda>(E, c, mk, iv, t). rbind (DecryptSecret E c mk t iv []) (\<lambda>(ok, p).
     if ok then Inr (E, c, mk, iv, p) else Inl (Thrown ''not decrypted'')))"

interpretation secret: codec seal unseal
  "\<lambda>(E, c, mk, iv, p). key_ok E c mk iv \<and> int (length p + AES_BLOCK_SIZE E) \<le> i32_max"
  by unfold_locales (auto simp: seal_def unseal_def EncryptSecret_ok DecryptSecret_ok)

definition aes_seal :: "evp \<times> byte list \<times> byte list \<times> byte list \<Rightarrow> (evp \<times> byte list \<times> byte list \<times> byte list) res" where
  "aes_seal = (\<lambda>(E, key, iv, p). rbind (EncryptAES256 E key p iv []) (\<lambda>(ok, t).
     if ok then Inr (E, key, iv, t) else Inl (Thrown ''not encrypted'')))"

definition aes_unseal :: "evp \<times> byte list \<times> byte list \<times> byte list \<Rightarrow> (evp \<times> byte list \<times> byte list \<times> byte list) res" where
  "aes_unseal = (\<lambda>(E, key, iv, t). rbind (DecryptAES256 E key t iv []) (\<lambda>(ok, p).
     if ok then Inr (E, key, iv, p) else Inl (Thrown ''not decrypted'')))"

lemma EncryptAES256_ok:
  assumes "evp_ok E" "length key = 32" "length iv = AES_BLOCK_SIZE E"
    "int (length p + AES_BLOCK_SIZE E) \<le> i32_max"
  shows "EncryptAES256 E key p iv ct = Inr (True, cipher_text E key iv p)"
proof -
  have "length (snd (evp_enc_update E key iv p) @ snd (evp_enc_final E key iv p))
      \<le> length (resize ct (length p + AES_BLOCK_SIZE E))"
    using assms(1) by (simp add: evp_ok_def cipher_text_def)
  from run_cipher_ok [OF _ _ this] show ?thesis
    using assms by (auto simp: EncryptAES256_def evp_ok_def cipher_text_def Let_def)
qed

lemma DecryptAES256_ok:
  assumes "evp_ok E" "length key = 32" "length iv = AES_BLOCK_SIZE E"
    "int (length p + AES_BLOCK_SIZE E) \<le> i32_max"
  shows "DecryptAES256 E key (cipher_text E key iv p) iv pt = Inr (True, p)"
proof -
  let ?t = "cipher_text E key iv p"
  let ?u = "evp_dec_update E key iv ?t" and ?f = "evp_dec_final E key iv ?t"
  have d: "fst ?u" "fst ?f" "snd ?u @ snd ?f = p" "length p \<le> length ?t"
      "length ?t \<le> length p + AES_BLOCK_SIZE E"
    using assms(1) by (simp_all add: evp_ok_def)
  have "length (snd ?u @ snd ?f) \<le> length (resize pt (length ?t))" using d(3,4) by simp
  moreover have "int (length ?t) \<le> i32_max" using d(5) assms(4) by linarith
  ultimately show ?thesis
    using run_cipher_ok [OF d(1,2), of "resize pt (length ?t)"] assms(1-3) d(3)
    by (auto simp: DecryptAES256_def evp_ok_def Let_def)
qed

interpretation aes: codec aes_seal aes_unseal
  "\<lambda>(E, key, iv, p). evp_ok E \<and> length key = 32 \<and> length iv = AES_BLOCK_SIZE E \<and>
     int (length p + AES_BLOCK_SIZE E) \<le> i32_max"
  by unfold_locales (auto simp: aes_seal_def aes_unseal_def EncryptAES256_ok DecryptAES256_ok)

section \<open>A concrete cipher\<close>

text \<open>A cipher that satisfies the hypotheses, for the examples: exclusive or with the key.\<close>

definition xor_text :: "byte list \<Rightarrow> byte list \<Rightarrow> byte list" where
  "xor_text key p = map (\<lambda>b. b XOR (if key = [] then 0 else hd key)) p"

definition evp_xor :: evp where
  "evp_xor = \<lparr>evp_ctx_new = True, evp_enc_init = (\<lambda>key iv. True),
     evp_enc_update = (\<lambda>key iv p. (True, xor_text key p)), evp_enc_final = (\<lambda>key iv p. (True, [])),
     evp_dec_init = (\<lambda>key iv. True),
     evp_dec_update = (\<lambda>key iv p. (True, xor_text key p)), evp_dec_final = (\<lambda>key iv p. (True, [])),
     evp_bytes_to_key = (\<lambda>salt data n. (32, replicate 32 0, replicate 32 0)),
     evp_cleanse = map (\<lambda>b. 0),
     AES_BLOCK_SIZE = 16, WALLET_CRYPTO_KEY_SIZE = 32, WALLET_CRYPTO_SALT_SIZE = 8\<rparr>"

definition new_CCrypter :: CCrypter where
  "new_CCrypter = \<lparr>chKey = replicate 32 0, chIV = replicate 32 0, fKeySet = False\<rparr>"

lemma evp_xor_ok: "evp_ok evp_xor"
  by (simp add: evp_ok_def evp_xor_def cipher_text_def xor_text_def xor.assoc comp_def)

lemma new_CCrypter_ok: "crypter_ok evp_xor new_CCrypter"
  by (simp add: crypter_ok_def evp_xor_def new_CCrypter_def)

section \<open>Properties\<close>

text \<open>
  C24: what \<open>EncryptSecret\<close> writes, \<open>DecryptSecret\<close> reads back under the same master key and
  vector, both succeed, and neither writes outside its buffer. The same holds for
  \<open>EncryptAES256\<close> and \<open>DecryptAES256\<close>. The cipher is any that keeps the documented OpenSSL
  contract.
\<close>

theorem secret_roundtrip:
  assumes "evp_ok E" "crypter_ok E new_crypter" "length vMasterKey = 32" "length nIV = 32"
    and "length iv = AES_BLOCK_SIZE E" "int (length p + AES_BLOCK_SIZE E) \<le> i32_max"
  shows "\<exists>t u. EncryptSecret E new_crypter vMasterKey p nIV ct = Inr (True, t) \<and>
      DecryptSecret E new_crypter vMasterKey t nIV pt = Inr (True, p) \<and>
      EncryptAES256 E vMasterKey p iv ct = Inr (True, u) \<and>
      DecryptAES256 E vMasterKey u iv pt = Inr (True, p)"
proof -
  have k: "key_ok E new_crypter vMasterKey nIV" using assms by (simp add: key_ok_def)
  show ?thesis
    using EncryptSecret_ok [OF k assms(6)] DecryptSecret_ok [OF k assms(6)]
      EncryptAES256_ok [OF assms(1,3,5,6)] DecryptAES256_ok [OF assms(1,3,5,6)] by blast
qed

theorem secret_roundtrip_witness:
  "\<exists>t u. EncryptSecret evp_xor new_CCrypter (replicate 32 7) [1, 2, 3] (replicate 32 9) [] = Inr (True, t) \<and>
      DecryptSecret evp_xor new_CCrypter (replicate 32 7) t (replicate 32 9) [] = Inr (True, [1, 2, 3]) \<and>
      EncryptAES256 evp_xor (replicate 32 7) [1, 2, 3] (replicate 16 9) [] = Inr (True, u) \<and>
      DecryptAES256 evp_xor (replicate 32 7) u (replicate 16 9) [] = Inr (True, [1, 2, 3])"
  by (rule secret_roundtrip [OF evp_xor_ok new_CCrypter_ok])
     (simp_all add: evp_xor_def i32_max_def)

text \<open>
  A failed key derivation does not unset a key. When \<open>SetKeyFromPassphrase\<close> fails after
  the parameter checks on a crypter that already had a key, the key and vector are wiped but
  \<open>fKeySet\<close> stays true, and the next \<open>Encrypt\<close> succeeds under the wiped key.
\<close>

theorem failed_derivation_keeps_key_set:
  assumes "evp_ok E" "fKeySet c" "1 \<le> nRounds" "length chSalt = WALLET_CRYPTO_SALT_SIZE E"
    and "nDerivationMethod \<noteq> 0" "WALLET_CRYPTO_KEY_SIZE E \<noteq> 0"
    and "int (length p + AES_BLOCK_SIZE E) \<le> i32_max"
  shows "\<exists>c'. SetKeyFromPassphrase E c pass chSalt nRounds nDerivationMethod = (False, c') \<and>
    chKey c' = evp_cleanse E (chKey c) \<and> fKeySet c' \<and>
    Encrypt E c' p ct = Inr (True, cipher_text E (evp_cleanse E (chKey c)) (evp_cleanse E (chIV c)) p)"
  using assms Encrypt_ok [of E "c\<lparr>chKey := evp_cleanse E (chKey c), chIV := evp_cleanse E (chIV c)\<rparr>" p ct]
  by (simp add: SetKeyFromPassphrase_def memory_cleanse_def)

theorem failed_derivation_keeps_key_set_witness:
  "\<exists>c'. SetKeyFromPassphrase evp_xor \<lparr>chKey = replicate 32 1, chIV = replicate 32 1, fKeySet = True\<rparr>
      [0x70] (replicate 8 0) 1 1 = (False, c') \<and>
    chKey c' = evp_cleanse evp_xor (replicate 32 1) \<and> fKeySet c' \<and>
    Encrypt evp_xor c' [5] [] =
      Inr (True, cipher_text evp_xor (evp_cleanse evp_xor (replicate 32 1)) (evp_cleanse evp_xor (replicate 32 1)) [5])"
  using failed_derivation_keeps_key_set [OF evp_xor_ok,
      of "\<lparr>chKey = replicate 32 1, chIV = replicate 32 1, fKeySet = True\<rparr>" 1 "replicate 8 0" 1 "[5]" "[0x70]" "[]"]
  by (simp add: evp_xor_def i32_max_def)

end
