(* ===== verification/KeyStore.thy ===== *)
theory KeyStore
  imports Crypter
begin

text \<open>
  The encrypted key store of \<open>Wallet/crypter.cpp\<close>, class \<open>CCryptoKeyStore\<close>. The classes
  \<open>CKey\<close>, \<open>CPubKey\<close> and \<open>CBasicKeyStore\<close> and the declarations of \<open>crypter.h\<close> are not part of
  the repository: their operations are the fields of the record \<open>key_env\<close>, and \<open>env_ok\<close>
  states the behaviour the code relies on. A store without encryption keeps plain keys in
  \<open>mapKeys\<close>; one with encryption keeps encrypted keys in \<open>mapCryptedKeys\<close> and, while it is
  unlocked, the master key.
\<close>

section \<open>State and environment\<close>

record ('id, 'key, 'pub, 'rest) CCryptoKeyStore =
  mapKeys :: "('id, 'key) stdmap"
  basic_rest :: 'rest
  mapCryptedKeys :: "('id, 'pub \<times> byte list) stdmap"
  vMasterKey :: "byte list"
  fUseCrypto :: bool
  fDecryptionThoroughlyChecked :: bool
  fOnlyMixingAllowed :: bool
  notified :: nat

record ('id, 'key, 'pub, 'rest) key_env =
  openssl :: evp
  crypter0 :: CCrypter
  pk_hash :: "'pub \<Rightarrow> byte list"
  pk_id :: "'pub \<Rightarrow> 'id"
  pk_compressed :: "'pub \<Rightarrow> bool"
  key0 :: 'key
  key_set :: "byte list \<Rightarrow> bool \<Rightarrow> 'key"
  key_bytes :: "'key \<Rightarrow> byte list"
  key_pub :: "'key \<Rightarrow> 'pub"
  key_verify :: "'key \<Rightarrow> 'pub \<Rightarrow> bool"
  basic_AddKeyPubKey ::
    "('id, 'key, 'pub, 'rest) CCryptoKeyStore \<Rightarrow> 'key \<Rightarrow> 'pub \<Rightarrow> bool \<times> ('id, 'key, 'pub, 'rest) CCryptoKeyStore"
  basic_GetKey :: "('id, 'key, 'pub, 'rest) CCryptoKeyStore \<Rightarrow> 'id \<Rightarrow> 'key \<Rightarrow> bool \<times> 'key"
  basic_GetPubKey :: "('id, 'key, 'pub, 'rest) CCryptoKeyStore \<Rightarrow> 'id \<Rightarrow> 'pub \<Rightarrow> bool \<times> 'pub"
  IsCrypted :: "('id, 'key, 'pub, 'rest) CCryptoKeyStore \<Rightarrow> bool"
  IsLocked :: "('id, 'key, 'pub, 'rest) CCryptoKeyStore \<Rightarrow> bool \<Rightarrow> bool"

section \<open>Operations\<close>

definition DecryptKey ::
    "('id, 'key, 'pub, 'rest) key_env \<Rightarrow> byte list \<Rightarrow> byte list \<Rightarrow> 'pub \<Rightarrow> 'key \<Rightarrow> (bool \<times> 'key) res" where
  "DecryptKey E mk vchCryptedSecret vchPubKey key =
     rbind (DecryptSecret (openssl E) (crypter0 E) mk vchCryptedSecret (pk_hash E vchPubKey) [])
       (\<lambda>(ok, vchSecret).
         if \<not> ok then Inr (False, key)
         else if length vchSecret \<noteq> 32 then Inr (False, key)
         else let key = key_set E vchSecret (pk_compressed E vchPubKey)
              in Inr (key_verify E key vchPubKey, key))"

definition SetCrypted ::
    "('id, 'key, 'pub, 'rest) CCryptoKeyStore \<Rightarrow> bool \<times> ('id, 'key, 'pub, 'rest) CCryptoKeyStore" where
  "SetCrypted s =
     (if fUseCrypto s then (True, s)
      else if mapKeys s \<noteq> [] then (False, s)
      else (True, s\<lparr>fUseCrypto := True\<rparr>))"

definition Lock ::
    "('id, 'key, 'pub, 'rest) CCryptoKeyStore \<Rightarrow> bool \<Rightarrow> bool \<times> ('id, 'key, 'pub, 'rest) CCryptoKeyStore" where
  "Lock s fAllowMixing =
     (let (ok, s) = SetCrypted s in
      if \<not> ok then (False, s)
      else let s = (if \<not> fAllowMixing then s\<lparr>vMasterKey := []\<rparr> else s)
           in (True, s\<lparr>fOnlyMixingAllowed := fAllowMixing, notified := notified s + 1\<rparr>))"

text \<open>
  The loop over the encrypted keys: it stops at the first key that does not decrypt, and
  after the first that does when the keys were checked before. It returns \<open>keyPass\<close> and
  \<open>keyFail\<close>.
\<close>

fun unlock_loop ::
    "('id, 'key, 'pub, 'rest) key_env \<Rightarrow> byte list \<Rightarrow> bool \<Rightarrow> ('id, 'pub \<times> byte list) stdmap \<Rightarrow> bool \<Rightarrow>
     (bool \<times> bool) res" where
  "unlock_loop E mk checked [] keyPass = Inr (keyPass, False)"
| "unlock_loop E mk checked ((i, vchPubKey, vchCryptedSecret) # m) keyPass =
     rbind (DecryptKey E mk vchCryptedSecret vchPubKey (key0 E)) (\<lambda>(ok, key).
       if \<not> ok then Inr (keyPass, True)
       else if checked then Inr (True, False)
       else unlock_loop E mk checked m True)"

definition Unlock ::
    "('id, 'key, 'pub, 'rest) key_env \<Rightarrow> ('id, 'key, 'pub, 'rest) CCryptoKeyStore \<Rightarrow> byte list \<Rightarrow> bool \<Rightarrow>
     (bool \<times> ('id, 'key, 'pub, 'rest) CCryptoKeyStore) res" where
  "Unlock E s vMasterKeyIn fForMixingOnly =
     (let (ok, s) = SetCrypted s in
      if \<not> ok then Inr (False, s)
      else rbind (unlock_loop E vMasterKeyIn (fDecryptionThoroughlyChecked s) (mapCryptedKeys s) False)
        (\<lambda>(keyPass, keyFail).
          if keyPass \<and> keyFail then Inl AssertFail
          else if keyFail \<or> \<not> keyPass then Inr (False, s)
          else Inr (True, s\<lparr>vMasterKey := vMasterKeyIn, fDecryptionThoroughlyChecked := True,
                           fOnlyMixingAllowed := fForMixingOnly, notified := notified s + 1\<rparr>)))"

definition AddCryptedKey ::
    "('id::linorder, 'key, 'pub, 'rest) key_env \<Rightarrow> ('id, 'key, 'pub, 'rest) CCryptoKeyStore \<Rightarrow>
     'pub \<Rightarrow> byte list \<Rightarrow> bool \<times> ('id, 'key, 'pub, 'rest) CCryptoKeyStore" where
  "AddCryptedKey E s vchPubKey vchCryptedSecret =
     (let (ok, s) = SetCrypted s in
      if \<not> ok then (False, s)
      else (True, s\<lparr>mapCryptedKeys :=
              smap_put (mapCryptedKeys s) (pk_id E vchPubKey) (vchPubKey, vchCryptedSecret)\<rparr>))"

definition AddKeyPubKey ::
    "('id::linorder, 'key, 'pub, 'rest) key_env \<Rightarrow> ('id, 'key, 'pub, 'rest) CCryptoKeyStore \<Rightarrow>
     'key \<Rightarrow> 'pub \<Rightarrow> (bool \<times> ('id, 'key, 'pub, 'rest) CCryptoKeyStore) res" where
  "AddKeyPubKey E s key pubkey =
     (if \<not> IsCrypted E s then Inr (basic_AddKeyPubKey E s key pubkey)
      else if IsLocked E s True then Inr (False, s)
      else rbind (EncryptSecret (openssl E) (crypter0 E) (vMasterKey s) (key_bytes E key) (pk_hash E pubkey) [])
        (\<lambda>(ok, vchCryptedSecret).
          if \<not> ok then Inr (False, s)
          else let (ok, s) = AddCryptedKey E s pubkey vchCryptedSecret
               in if \<not> ok then Inr (False, s) else Inr (True, s)))"

definition GetKey ::
    "('id::linorder, 'key, 'pub, 'rest) key_env \<Rightarrow> ('id, 'key, 'pub, 'rest) CCryptoKeyStore \<Rightarrow>
     'id \<Rightarrow> 'key \<Rightarrow> (bool \<times> 'key) res" where
  "GetKey E s address keyOut =
     (if \<not> IsCrypted E s then Inr (basic_GetKey E s address keyOut)
      else case smap_find (mapCryptedKeys s) address of
        Some (vchPubKey, vchCryptedSecret) \<Rightarrow>
          DecryptKey E (vMasterKey s) vchCryptedSecret vchPubKey keyOut
      | None \<Rightarrow> Inr (False, keyOut))"

definition GetPubKey ::
    "('id::linorder, 'key, 'pub, 'rest) key_env \<Rightarrow> ('id, 'key, 'pub, 'rest) CCryptoKeyStore \<Rightarrow>
     'id \<Rightarrow> 'pub \<Rightarrow> bool \<times> 'pub" where
  "GetPubKey E s address vchPubKeyOut =
     (if \<not> IsCrypted E s then basic_GetPubKey E s address vchPubKeyOut
      else case smap_find (mapCryptedKeys s) address of
        Some (vchPubKey, _) \<Rightarrow> (True, vchPubKey)
      | None \<Rightarrow> basic_GetPubKey E s address vchPubKeyOut)"

text \<open>The loop of \<open>EncryptKeys\<close>; a failure returns with the keys encrypted so far added.\<close>

fun encrypt_loop ::
    "('id::linorder, 'key, 'pub, 'rest) key_env \<Rightarrow> byte list \<Rightarrow> ('id, 'key) stdmap \<Rightarrow>
     ('id, 'key, 'pub, 'rest) CCryptoKeyStore \<Rightarrow> (bool \<times> ('id, 'key, 'pub, 'rest) CCryptoKeyStore) res" where
  "encrypt_loop E mk [] s = Inr (True, s)"
| "encrypt_loop E mk ((i, key) # m) s =
     (let vchPubKey = key_pub E key in
      rbind (EncryptSecret (openssl E) (crypter0 E) mk (key_bytes E key) (pk_hash E vchPubKey) [])
        (\<lambda>(ok, vchCryptedSecret).
          if \<not> ok then Inr (False, s)
          else let (ok, s) = AddCryptedKey E s vchPubKey vchCryptedSecret
               in if \<not> ok then Inr (False, s) else encrypt_loop E mk m s))"

definition EncryptKeys ::
    "('id::linorder, 'key, 'pub, 'rest) key_env \<Rightarrow> ('id, 'key, 'pub, 'rest) CCryptoKeyStore \<Rightarrow> byte list \<Rightarrow>
     (bool \<times> ('id, 'key, 'pub, 'rest) CCryptoKeyStore) res" where
  "EncryptKeys E s vMasterKeyIn =
     (if mapCryptedKeys s \<noteq> [] \<or> IsCrypted E s then Inr (False, s)
      else rbind (encrypt_loop E vMasterKeyIn (mapKeys s) (s\<lparr>fUseCrypto := True\<rparr>)) (\<lambda>(ok, s).
        if \<not> ok then Inr (False, s) else Inr (True, s\<lparr>mapKeys := []\<rparr>)))"

section \<open>What the environment promises\<close>

definition env_ok :: "('id::linorder, 'key, 'pub, 'rest) key_env \<Rightarrow> bool" where
  "env_ok E \<longleftrightarrow> evp_ok (openssl E) \<and> crypter_ok (openssl E) (crypter0 E) \<and>
     (\<forall>p. length (pk_hash E p) = 32) \<and>
     int (32 + AES_BLOCK_SIZE (openssl E)) \<le> i32_max \<and>
     (\<forall>k. key_set E (key_bytes E k) (pk_compressed E (key_pub E k)) = k \<and>
          key_verify E k (key_pub E k)) \<and>
     (\<forall>s. IsCrypted E s = fUseCrypto s) \<and>
     (\<forall>s. IsLocked E s True = (fUseCrypto s \<and> vMasterKey s = [])) \<and>
     (\<forall>s k p. basic_AddKeyPubKey E s k p = (True, s\<lparr>mapKeys := smap_put (mapKeys s) (pk_id E p) k\<rparr>)) \<and>
     (\<forall>s a k. basic_GetKey E s a k = (case smap_find (mapKeys s) a of Some k' \<Rightarrow> (True, k') | None \<Rightarrow> (False, k)))"

text \<open>A key whose secret has the 32 bytes of a private key.\<close>

definition key_valid :: "('id, 'key, 'pub, 'rest) key_env \<Rightarrow> 'key \<Rightarrow> bool" where
  "key_valid E k \<longleftrightarrow> length (key_bytes E k) = 32"

text \<open>Plain keys and encrypted keys never coexist; a locked store has no plain keys either.\<close>

definition store_ok :: "('id::linorder, 'key, 'pub, 'rest) CCryptoKeyStore \<Rightarrow> bool" where
  "store_ok s \<longleftrightarrow> smap_ok (mapKeys s) \<and> smap_ok (mapCryptedKeys s) \<and>
     (fUseCrypto s \<longrightarrow> mapKeys s = []) \<and> (\<not> fUseCrypto s \<longrightarrow> mapCryptedKeys s = [] \<and> vMasterKey s = [])"

section \<open>Lemmas\<close>

lemma SetCrypted_cases:
  obtains "fUseCrypto s" "SetCrypted s = (True, s)"
  | "\<not> fUseCrypto s" "mapKeys s \<noteq> []" "SetCrypted s = (False, s)"
  | "\<not> fUseCrypto s" "mapKeys s = []" "SetCrypted s = (True, s\<lparr>fUseCrypto := True\<rparr>)"
  by (cases "fUseCrypto s"; cases "mapKeys s = []") (auto simp: SetCrypted_def)

lemma env_key_ok: "env_ok E \<Longrightarrow> length mk = 32 \<Longrightarrow> key_ok (openssl E) (crypter0 E) mk (pk_hash E p)"
  by (simp add: env_ok_def key_ok_def)

definition crypted :: "('id, 'key, 'pub, 'rest) key_env \<Rightarrow> byte list \<Rightarrow> 'key \<Rightarrow> 'pub \<Rightarrow> byte list" where
  "crypted E mk k p = cipher_text (openssl E) mk (pk_hash E p) (key_bytes E k)"

lemma EncryptSecret_env:
  assumes "env_ok E" "length mk = 32" "key_valid E k"
  shows "EncryptSecret (openssl E) (crypter0 E) mk (key_bytes E k) (pk_hash E p) ct = Inr (True, crypted E mk k p)"
  using EncryptSecret_ok [OF env_key_ok [OF assms(1,2)], of "key_bytes E k"] assms
  by (simp add: env_ok_def key_valid_def crypted_def)

lemma DecryptKey_crypted:
  assumes "env_ok E" "length mk = 32" "key_valid E k"
  shows "DecryptKey E mk (crypted E mk k (key_pub E k)) (key_pub E k) k0 = Inr (True, k)"
  using DecryptSecret_ok [OF env_key_ok [OF assms(1,2)], of "key_bytes E k"] assms
  by (simp add: DecryptKey_def env_ok_def key_valid_def crypted_def Let_def)

lemma DecryptKey_wrong_length:
  assumes "env_ok E" "length mk \<noteq> 32"
  shows "DecryptKey E mk c p k0 = Inr (False, k0)"
  using Secret_wrong_length(2) [of mk "openssl E" "pk_hash E p"] assms
  by (simp add: DecryptKey_def env_ok_def crypter_ok_def)

lemma EncryptSecret_wrong_length:
  assumes "env_ok E" "length mk \<noteq> 32"
  shows "EncryptSecret (openssl E) (crypter0 E) mk x (pk_hash E p) ct = Inr (False, ct)"
  using Secret_wrong_length(1) [of mk "openssl E" "pk_hash E p"] assms
  by (simp add: env_ok_def crypter_ok_def)

lemma AddCryptedKey_crypto:
  "fUseCrypto s \<Longrightarrow> AddCryptedKey E s p c =
     (True, s\<lparr>mapCryptedKeys := smap_put (mapCryptedKeys s) (pk_id E p) (p, c)\<rparr>)"
  by (simp add: AddCryptedKey_def SetCrypted_def)

lemma AddCryptedKey_ok: "AddCryptedKey E s p c = (ok, s') \<Longrightarrow> store_ok s \<Longrightarrow> store_ok s'"
  by (rule SetCrypted_cases [of s]) (auto simp: AddCryptedKey_def store_ok_def)

text \<open>The entries that encrypting the plain keys produces.\<close>

definition crypted_entries ::
    "('id, 'key, 'pub, 'rest) key_env \<Rightarrow> byte list \<Rightarrow> ('id, 'key) stdmap \<Rightarrow> ('id \<times> 'pub \<times> byte list) list" where
  "crypted_entries E mk m =
     map (\<lambda>(i, k). (pk_id E (key_pub E k), key_pub E k, crypted E mk k (key_pub E k))) m"

lemma encrypt_loop_ok:
  assumes "env_ok E" "length mk = 32"
  shows "\<forall>(i, k) \<in> set m. key_valid E k \<Longrightarrow> fUseCrypto s \<Longrightarrow>
    encrypt_loop E mk m s = Inr (True, s\<lparr>mapCryptedKeys :=
      fold (\<lambda>(i, v) m. smap_put m i v) (crypted_entries E mk m) (mapCryptedKeys s)\<rparr>)"
proof (induction m arbitrary: s)
  case (Cons p m)
  obtain i k where p: "p = (i, k)" by fastforce
  then have v: "key_valid E k" using Cons.prems(1) by simp
  show ?case
    using Cons.IH Cons.prems EncryptSecret_env [OF assms v]
    by (simp add: p Let_def AddCryptedKey_crypto crypted_entries_def)
qed (simp add: crypted_entries_def)

lemma unlock_loop_pass:
  "\<forall>(i, p, c) \<in> set m. \<exists>k. DecryptKey E mk c p (key0 E) = Inr (True, k) \<Longrightarrow>
   unlock_loop E mk checked m keyPass = Inr (keyPass \<or> m \<noteq> [], False)"
  by (induction m arbitrary: keyPass) auto

lemma unlock_loop_sound:
  "unlock_loop E mk checked m keyPass = Inr (p, False) \<Longrightarrow>
     (p \<longleftrightarrow> keyPass \<or> m \<noteq> []) \<and>
     (\<not> checked \<longrightarrow> (\<forall>(i, q, c) \<in> set m. \<exists>k. DecryptKey E mk c q (key0 E) = Inr (True, k))) \<and>
     (m \<noteq> [] \<longrightarrow> (case hd m of (i, q, c) \<Rightarrow> \<exists>k. DecryptKey E mk c q (key0 E) = Inr (True, k)))"
proof (induction m arbitrary: keyPass p)
  case (Cons e m)
  obtain i q c where e: "e = (i, q, c)" using prod_cases3 by blast
  show ?case using Cons.IH [of True p] Cons.prems unfolding e
    by (cases "DecryptKey E mk c q (key0 E)") (auto split: if_splits prod.splits)
qed simp

section \<open>Histories of a store\<close>

text \<open>
  What can happen to a store: the operations in any order and with any arguments, whether
  they succeed or not. The flag tells the one kind of step that breaks the separation of plain
  and encrypted keys, an \<open>EncryptKeys\<close> that fails on a store that was not encrypted: it has
  switched encryption on before the first key.
\<close>

inductive store_step ::
    "('id::linorder, 'key, 'pub, 'rest) key_env \<Rightarrow> bool \<Rightarrow> ('id, 'key, 'pub, 'rest) CCryptoKeyStore \<Rightarrow>
     ('id, 'key, 'pub, 'rest) CCryptoKeyStore \<Rightarrow> bool" for E where
  set_crypted: "SetCrypted s = (ok, s') \<Longrightarrow> store_step E False s s'"
| lock: "Lock s m = (ok, s') \<Longrightarrow> store_step E False s s'"
| unlock: "Unlock E s mk m = Inr (ok, s') \<Longrightarrow> store_step E False s s'"
| add_key: "AddKeyPubKey E s k p = Inr (ok, s') \<Longrightarrow> store_step E False s s'"
| add_crypted: "AddCryptedKey E s p c = (ok, s') \<Longrightarrow> store_step E False s s'"
| encrypt: "EncryptKeys E s mk = Inr (ok, s') \<Longrightarrow> store_step E (\<not> ok \<and> \<not> fUseCrypto s) s s'"

text \<open>The flag of a history: one of its steps was such a failure.\<close>

inductive store_reaches ::
    "('id::linorder, 'key, 'pub, 'rest) key_env \<Rightarrow> bool \<Rightarrow> ('id, 'key, 'pub, 'rest) CCryptoKeyStore \<Rightarrow>
     ('id, 'key, 'pub, 'rest) CCryptoKeyStore \<Rightarrow> bool" for E where
  start: "store_reaches E False s s"
| step: "store_reaches E b s t \<Longrightarrow> store_step E f t u \<Longrightarrow> store_reaches E (b \<or> f) s u"

inductive_cases store_stepE: "store_step E f s s'"

lemma SetCrypted_ok: "SetCrypted s = (ok, s') \<Longrightarrow> store_ok s \<Longrightarrow> store_ok s'"
  by (rule SetCrypted_cases [of s]) (auto simp: store_ok_def)

lemma Lock_ok: "Lock s m = (ok, s') \<Longrightarrow> store_ok s \<Longrightarrow> store_ok s'"
  by (rule SetCrypted_cases [of s]) (auto simp: Lock_def store_ok_def Let_def)

lemma Unlock_store_ok: "Unlock E s mk m = Inr (ok, s') \<Longrightarrow> store_ok s \<Longrightarrow> store_ok s'"
  by (rule SetCrypted_cases [of s])
     (auto simp: Unlock_def store_ok_def rbind_Inr_iff split: if_splits)

lemma AddKeyPubKey_ok:
  assumes "env_ok E" "AddKeyPubKey E s k p = Inr (ok, s')" "store_ok s"
  shows "store_ok s'"
proof (cases "fUseCrypto s")
  case True
  then show ?thesis using assms
    by (auto simp: AddKeyPubKey_def env_ok_def rbind_Inr_iff split: if_splits prod.splits
        dest: AddCryptedKey_ok)
next
  case False
  then have "s' = s\<lparr>mapKeys := smap_put (mapKeys s) (pk_id E p) k\<rparr>"
    using assms(1,2) by (simp add: AddKeyPubKey_def env_ok_def)
  then show ?thesis using False assms(3) by (simp add: store_ok_def)
qed

lemma encrypt_loop_keeps:
  "encrypt_loop E mk m s = Inr (ok, s') \<Longrightarrow> fUseCrypto s \<Longrightarrow> smap_ok (mapCryptedKeys s) \<Longrightarrow>
   fUseCrypto s' \<and> smap_ok (mapCryptedKeys s') \<and> mapKeys s' = mapKeys s"
proof (induction m arbitrary: s)
  case (Cons p m)
  obtain i k where p: "p = (i, k)" by fastforce
  show ?case
    using Cons.prems unfolding p
    by (auto simp: Let_def rbind_Inr_iff AddCryptedKey_crypto split: if_splits dest!: Cons.IH)
qed simp

lemma EncryptKeys_ok:
  assumes "EncryptKeys E s mk = Inr (True, s')" "store_ok s"
  shows "store_ok s'"
proof -
  obtain s1 where "encrypt_loop E mk (mapKeys s) (s\<lparr>fUseCrypto := True\<rparr>) = Inr (True, s1)"
      "s' = s1\<lparr>mapKeys := []\<rparr>"
    using assms(1) by (auto simp: EncryptKeys_def rbind_Inr_iff split: if_splits)
  then show ?thesis using assms(2) encrypt_loop_keeps by (fastforce simp: store_ok_def)
qed

lemma EncryptKeys_refused: "env_ok E \<Longrightarrow> fUseCrypto s \<Longrightarrow> EncryptKeys E s mk = Inr (False, s)"
  by (simp add: EncryptKeys_def env_ok_def)

lemma store_step_ok: "env_ok E \<Longrightarrow> store_step E False s s' \<Longrightarrow> store_ok s \<Longrightarrow> store_ok s'"
proof (erule store_stepE)
  fix mk ok
  assume E: "env_ok E" "store_ok s" and k: "EncryptKeys E s mk = Inr (ok, s')" "False = (\<not> ok \<and> \<not> fUseCrypto s)"
  show "store_ok s'"
  proof (cases "fUseCrypto s")
    case True
    then show ?thesis using k E EncryptKeys_refused [OF E(1) True, of mk] by simp
  next
    case False
    then show ?thesis using k E EncryptKeys_ok [of E s mk s'] by simp
  qed
qed (auto dest: SetCrypted_ok Lock_ok Unlock_store_ok AddKeyPubKey_ok AddCryptedKey_ok)

text \<open>Encryption is never switched off, and until it is on there are no secrets to protect.\<close>

definition plain_kept :: "('id, 'key, 'pub, 'rest) CCryptoKeyStore \<Rightarrow> ('id, 'key, 'pub, 'rest) CCryptoKeyStore \<Rightarrow> bool" where
  "plain_kept s s' \<longleftrightarrow> (fUseCrypto s \<longrightarrow> fUseCrypto s') \<and>
     (\<not> fUseCrypto s' \<longrightarrow> mapCryptedKeys s' = mapCryptedKeys s \<and> vMasterKey s' = vMasterKey s)"

lemma SetCrypted_kept: "plain_kept s (snd (SetCrypted s))"
  by (rule SetCrypted_cases [of s]) (simp_all add: plain_kept_def)

lemma AddCryptedKey_kept: "AddCryptedKey E s p c = (ok, s') \<Longrightarrow> plain_kept s s'"
  by (rule SetCrypted_cases [of s]) (auto simp: AddCryptedKey_def plain_kept_def)

lemma Lock_kept: "Lock s m = (ok, s') \<Longrightarrow> plain_kept s s'"
  by (rule SetCrypted_cases [of s]) (auto simp: Lock_def plain_kept_def Let_def)

lemma Unlock_kept: "Unlock E s mk m = Inr (ok, s') \<Longrightarrow> plain_kept s s'"
  by (rule SetCrypted_cases [of s])
     (auto simp: Unlock_def plain_kept_def rbind_Inr_iff split: if_splits)

lemma AddKeyPubKey_kept:
  assumes "env_ok E" "AddKeyPubKey E s k p = Inr (ok, s')"
  shows "plain_kept s s'"
proof (cases "fUseCrypto s")
  case True
  have "plain_kept s s" by (simp add: plain_kept_def)
  then show ?thesis using assms True
    by (auto simp: AddKeyPubKey_def env_ok_def rbind_Inr_iff split: if_splits prod.splits
        dest: AddCryptedKey_kept)
next
  case False
  then have "s' = s\<lparr>mapKeys := smap_put (mapKeys s) (pk_id E p) k\<rparr>"
    using assms by (simp add: AddKeyPubKey_def env_ok_def)
  then show ?thesis by (simp add: plain_kept_def)
qed

lemma encrypt_loop_on: "encrypt_loop E mk m s = Inr (ok, s') \<Longrightarrow> fUseCrypto s \<Longrightarrow> fUseCrypto s'"
proof (induction m arbitrary: s)
  case (Cons p m)
  obtain i k where p: "p = (i, k)" by fastforce
  show ?case
    using Cons.prems unfolding p
    by (auto simp: Let_def rbind_Inr_iff AddCryptedKey_crypto split: if_splits dest!: Cons.IH)
qed simp

lemma EncryptKeys_kept:
  assumes "EncryptKeys E s mk = Inr (ok, s')"
  shows "s' = s \<or> fUseCrypto s'"
proof (cases "mapCryptedKeys s \<noteq> [] \<or> IsCrypted E s")
  case True
  then show ?thesis using assms by (simp add: EncryptKeys_def)
next
  case False
  then obtain b s1 where "encrypt_loop E mk (mapKeys s) (s\<lparr>fUseCrypto := True\<rparr>) = Inr (b, s1)"
      "s' = s1 \<or> s' = s1\<lparr>mapKeys := []\<rparr>"
    using assms by (auto simp: EncryptKeys_def rbind_Inr_iff split: if_splits)
  then show ?thesis using encrypt_loop_on [of E mk "mapKeys s"] by fastforce
qed

lemma store_step_kept: "env_ok E \<Longrightarrow> store_step E f s s' \<Longrightarrow> plain_kept s s'"
proof (erule store_stepE)
  fix ok
  assume "SetCrypted s = (ok, s')"
  then show ?thesis using SetCrypted_kept [of s] by simp
next
  fix mk ok
  assume "EncryptKeys E s mk = Inr (ok, s')"
  from EncryptKeys_kept [OF this] show ?thesis by (auto simp: plain_kept_def)
qed (auto dest: Lock_kept Unlock_kept AddKeyPubKey_kept AddCryptedKey_kept)

text \<open>The invariant of a history, by its flag.\<close>

definition store_inv :: "bool \<Rightarrow> ('id::linorder, 'key, 'pub, 'rest) CCryptoKeyStore \<Rightarrow> bool" where
  "store_inv b s \<longleftrightarrow> (\<not> fUseCrypto s \<longrightarrow> mapCryptedKeys s = [] \<and> vMasterKey s = []) \<and>
     (\<not> b \<longrightarrow> store_ok s) \<and> (b \<longrightarrow> fUseCrypto s)"

lemma store_reaches_inv:
  assumes "env_ok E" "store_reaches E b s0 s" "store_ok s0"
  shows "store_inv b s"
  using assms(2,3)
proof (induction rule: store_reaches.induct)
  case (start s)
  then show ?case by (simp add: store_inv_def store_ok_def)
next
  case (step b s t f u)
  then have I: "store_inv b t" by simp
  have k: "plain_kept t u" by (rule store_step_kept [OF assms(1) step.hyps(2)])
  have "store_ok u" if "\<not> b" "\<not> f"
    using store_step_ok [OF assms(1), of t u] step.hyps(2) that I by (simp add: store_inv_def)
  moreover have "fUseCrypto u" if "f"
  proof -
    have True: "f = True" using that by simp
    obtain mk where m: "EncryptKeys E t mk = Inr (False, u)" "\<not> fUseCrypto t"
      using step.hyps(2) unfolding True by (cases rule: store_step.cases) auto
    show ?thesis
    proof (cases "b")
      case True
      then show ?thesis using I m(2) by (simp add: store_inv_def)
    next
      case False
      then have "mapCryptedKeys t = []" "\<not> IsCrypted E t"
        using I m(2) assms(1) by (simp_all add: store_inv_def env_ok_def)
      then show ?thesis using m(1) encrypt_loop_on [of E mk "mapKeys t" "t\<lparr>fUseCrypto := True\<rparr>"]
        by (auto simp: EncryptKeys_def rbind_Inr_iff split: if_splits)
    qed
  qed
  ultimately show ?case using I k by (auto simp: store_inv_def plain_kept_def)
qed

section \<open>The encrypted keys\<close>

text \<open>A store whose plain keys are valid and filed under their own identifiers.\<close>

definition keys_filed :: "('id, 'key, 'pub, 'rest) key_env \<Rightarrow> ('id, 'key, 'pub, 'rest) CCryptoKeyStore \<Rightarrow> bool" where
  "keys_filed E s \<longleftrightarrow> (\<forall>(i, k) \<in> set (mapKeys s). i = pk_id E (key_pub E k) \<and> key_valid E k)"

definition crypted_map ::
    "('id::linorder, 'key, 'pub, 'rest) key_env \<Rightarrow> byte list \<Rightarrow> ('id, 'key) stdmap \<Rightarrow> ('id, 'pub \<times> byte list) stdmap" where
  "crypted_map E mk m = fold (\<lambda>(i, v) m. smap_put m i v) (crypted_entries E mk m) []"

lemma EncryptKeys_run:
  assumes "env_ok E" "store_ok s" "\<not> fUseCrypto s" "length mk = 32" "keys_filed E s"
  shows "EncryptKeys E s mk =
    Inr (True, s\<lparr>fUseCrypto := True, mapCryptedKeys := crypted_map E mk (mapKeys s), mapKeys := []\<rparr>)"
  using encrypt_loop_ok [OF assms(1,4), of "mapKeys s" "s\<lparr>fUseCrypto := True\<rparr>"] assms
  by (simp add: EncryptKeys_def env_ok_def store_ok_def keys_filed_def crypted_map_def case_prod_unfold)

lemma crypted_map_ok: "smap_ok (crypted_map E mk m)"
  unfolding crypted_map_def by (rule smap.ok_fold) simp

lemma crypted_map_find:
  assumes "store_ok s" "keys_filed E s"
  shows "smap_find (crypted_map E mk (mapKeys s)) i =
    (case smap_find (mapKeys s) i of None \<Rightarrow> None
     | Some k \<Rightarrow> Some (key_pub E k, crypted E mk k (key_pub E k)))"
proof -
  let ?es = "crypted_entries E mk (mapKeys s)"
  have es: "?es = map (\<lambda>(i, k). (i, key_pub E k, crypted E mk k (key_pub E k))) (mapKeys s)"
    using assms(2) by (auto simp: crypted_entries_def keys_filed_def)
  then have "distinct (map fst ?es)"
    using assms(1) smap_ok_distinct [of "mapKeys s"] by (simp add: store_ok_def comp_def case_prod_unfold)
  then have "smap_find (crypted_map E mk (mapKeys s)) i = map_of ?es i"
    using smap.get_fold [of "[]" ?es i] map_of_rev_distinct [of ?es]
    by (simp add: crypted_map_def split: option.splits)
  also have "\<dots> = (case smap_find (mapKeys s) i of None \<Rightarrow> None
     | Some k \<Rightarrow> Some (key_pub E k, crypted E mk k (key_pub E k)))"
    unfolding es smap_find_map_of by (induction "mapKeys s") (auto simp: map_of_map split: option.splits)
  finally show ?thesis .
qed

lemma crypted_map_decrypts:
  assumes "env_ok E" "store_ok s" "length mk = 32" "keys_filed E s"
    and "(i, p, c) \<in> set (crypted_map E mk (mapKeys s))"
  shows "\<exists>k. DecryptKey E mk c p k0 = Inr (True, k)"
proof -
  have "smap_find (crypted_map E mk (mapKeys s)) i = Some (p, c)"
    using assms(5) by (rule smap_find_in [OF crypted_map_ok])
  then obtain k where "smap_find (mapKeys s) i = Some k" "p = key_pub E k" "c = crypted E mk k (key_pub E k)"
    by (auto simp: crypted_map_find [OF assms(2,4)] split: option.splits)
  moreover from this(1) have "key_valid E k"
    using assms(4) smap_find_SomeD by (fastforce simp: keys_filed_def)
  ultimately show ?thesis using DecryptKey_crypted [OF assms(1,3)] by blast
qed

text \<open>The keys a store has, plain or encrypted, as \<open>HaveKey\<close> reports them.\<close>

definition holds_key :: "('id::linorder, 'key, 'pub, 'rest) CCryptoKeyStore \<Rightarrow> 'id \<Rightarrow> bool" where
  "holds_key s i \<longleftrightarrow>
     (if fUseCrypto s then smap_find (mapCryptedKeys s) i \<noteq> None else smap_find (mapKeys s) i \<noteq> None)"

lemma EncryptKeys_holds:
  assumes "env_ok E" "store_ok s" "\<not> fUseCrypto s" "length mk = 32" "keys_filed E s"
    and "EncryptKeys E s mk = Inr (True, s1)"
  shows "holds_key s1 i = holds_key s i" "basic_rest s1 = basic_rest s" "fUseCrypto s1"
  using assms(3,6) EncryptKeys_run [OF assms(1-5)] crypted_map_find [OF assms(2,5)]
  by (auto simp: holds_key_def split: option.splits)

lemma Lock_holds:
  "fUseCrypto s \<Longrightarrow> Lock s m = (ok, s') \<Longrightarrow> (holds_key s' i \<longleftrightarrow> holds_key s i) \<and> basic_rest s' = basic_rest s"
  by (auto simp: Lock_def SetCrypted_def holds_key_def Let_def split: if_splits)

section \<open>A concrete environment\<close>

definition env_xor :: "(nat, byte list, byte list, unit) key_env" where
  "env_xor = \<lparr>openssl = evp_xor, crypter0 = new_CCrypter, pk_hash = (\<lambda>p. replicate 32 0),
     pk_id = (\<lambda>p. unat (hd p)), pk_compressed = (\<lambda>p. True), key0 = [], key_set = (\<lambda>b c. b),
     key_bytes = (\<lambda>k. k), key_pub = (\<lambda>k. k), key_verify = (\<lambda>k p. k = p),
     basic_AddKeyPubKey = (\<lambda>s k p. (True, s\<lparr>mapKeys := smap_put (mapKeys s) (unat (hd p)) k\<rparr>)),
     basic_GetKey = (\<lambda>s a k. case smap_find (mapKeys s) a of Some k' \<Rightarrow> (True, k') | None \<Rightarrow> (False, k)),
     basic_GetPubKey = (\<lambda>s a p. case smap_find (mapKeys s) a of Some k' \<Rightarrow> (True, k') | None \<Rightarrow> (False, p)),
     IsCrypted = fUseCrypto, IsLocked = (\<lambda>s m. fUseCrypto s \<and> vMasterKey s = [])\<rparr>"

lemma env_xor_ok: "env_ok env_xor"
  using evp_xor_ok new_CCrypter_ok
  by (simp add: env_ok_def env_xor_def) (simp add: evp_xor_def i32_max_def)

definition plain_store :: "(nat, byte list) stdmap \<Rightarrow> (nat, byte list, byte list, unit) CCryptoKeyStore" where
  "plain_store m = \<lparr>mapKeys = m, basic_rest = (), mapCryptedKeys = [], vMasterKey = [],
     fUseCrypto = False, fDecryptionThoroughlyChecked = False, fOnlyMixingAllowed = False, notified = 0\<rparr>"

text \<open>The store that \<open>EncryptKeys\<close> leaves opens with its master key.\<close>

lemma encrypted_unlocks:
  assumes "env_ok E" "store_ok s" "\<not> fUseCrypto s" "length mk = 32" "mapKeys s \<noteq> []" "keys_filed E s"
  shows "Unlock E (s\<lparr>fUseCrypto := True, mapCryptedKeys := crypted_map E mk (mapKeys s), mapKeys := []\<rparr>) mk m =
    Inr (True, s\<lparr>fUseCrypto := True, mapCryptedKeys := crypted_map E mk (mapKeys s), mapKeys := [],
      vMasterKey := mk, fDecryptionThoroughlyChecked := True, fOnlyMixingAllowed := m, notified := notified s + 1\<rparr>)"
proof -
  let ?cm = "crypted_map E mk (mapKeys s)"
  obtain i k n where "mapKeys s = (i, k) # n" using assms(5) by (metis list.exhaust prod.exhaust)
  then have "smap_find (mapKeys s) i = Some k" by simp
  then have ne: "?cm \<noteq> []" using crypted_map_find [OF assms(2,6), of mk i] by auto
  have "\<forall>(i, p, c) \<in> set ?cm. \<exists>k. DecryptKey E mk c p (key0 E) = Inr (True, k)"
    using crypted_map_decrypts [OF assms(1,2,4,6)] by blast
  then have "unlock_loop E mk (fDecryptionThoroughlyChecked s) ?cm False = Inr (False \<or> ?cm \<noteq> [], False)"
    by (rule unlock_loop_pass)
  with ne have "unlock_loop E mk (fDecryptionThoroughlyChecked s) ?cm False = Inr (True, False)" by simp
  then show ?thesis by (simp add: Unlock_def SetCrypted_def)
qed

lemma Unlock_wrong_length:
  assumes "env_ok E" "fUseCrypto s" "mapCryptedKeys s \<noteq> []" "length mk \<noteq> 32"
  shows "Unlock E s mk m = Inr (False, s)"
proof -
  obtain i p c cs where "mapCryptedKeys s = (i, p, c) # cs" using assms(3) by (metis list.exhaust prod_cases3)
  then show ?thesis
    using assms(2) DecryptKey_wrong_length [OF assms(1,4)] by (simp add: Unlock_def SetCrypted_def)
qed

section \<open>Properties\<close>

text \<open>
  C13: encrypting a wallet loses no key. On a store whose plain keys are filed under their own
  identifiers, \<open>EncryptKeys\<close> with a master key of 32 bytes succeeds and leaves no plain key;
  unlocking with the same master key then succeeds and \<open>GetKey\<close> returns every former key.
\<close>

theorem encrypt_keys_keeps_keys:
  assumes "env_ok E" "store_ok s" "\<not> fUseCrypto s" "length mk = 32" "mapKeys s \<noteq> []"
    and keys: "\<forall>(i, k) \<in> set (mapKeys s). i = pk_id E (key_pub E k) \<and> key_valid E k"
  shows "\<exists>s1 s2. EncryptKeys E s mk = Inr (True, s1) \<and> mapKeys s1 = [] \<and> fUseCrypto s1 \<and>
    Unlock E s1 mk False = Inr (True, s2) \<and>
    (\<forall>i k k0. smap_find (mapKeys s) i = Some k \<longrightarrow> GetKey E s2 i k0 = Inr (True, k))"
proof -
  let ?cm = "crypted_map E mk (mapKeys s)"
  let ?s1 = "s\<lparr>fUseCrypto := True, mapCryptedKeys := ?cm, mapKeys := []\<rparr>"
  let ?s2 = "?s1\<lparr>vMasterKey := mk, fDecryptionThoroughlyChecked := True,
      fOnlyMixingAllowed := False, notified := notified s + 1\<rparr>"
  have filed: "keys_filed E s" using keys by (simp add: keys_filed_def)
  note find = crypted_map_find [OF assms(2) filed]
  have unl: "Unlock E ?s1 mk False = Inr (True, ?s2)" by (rule encrypted_unlocks [OF assms(1-5) filed])
  have get: "GetKey E ?s2 i k0 = Inr (True, k)" if k: "smap_find (mapKeys s) i = Some k" for i k k0
  proof -
    have "key_valid E k" using filed smap_find_SomeD [OF k] by (auto simp: keys_filed_def)
    then show ?thesis using assms(1) DecryptKey_crypted [OF assms(1,4)] find [of mk i] k
      by (simp add: GetKey_def env_ok_def)
  qed
  show ?thesis using EncryptKeys_run [OF assms(1-4) filed] unl get
    by (intro exI [of _ ?s1] exI [of _ ?s2]) simp
qed

theorem encrypt_keys_keeps_keys_witness:
  "\<exists>s1 s2. EncryptKeys env_xor (plain_store [(7, replicate 32 7)]) (replicate 32 1) = Inr (True, s1) \<and>
    mapKeys s1 = [] \<and> fUseCrypto s1 \<and> Unlock env_xor s1 (replicate 32 1) False = Inr (True, s2) \<and>
    (\<forall>i k k0. smap_find [(7, replicate 32 7)] i = Some k \<longrightarrow> GetKey env_xor s2 i k0 = Inr (True, k))"
  using encrypt_keys_keeps_keys [OF env_xor_ok, of "plain_store [(7, replicate 32 7)]" "replicate 32 1"]
  by (simp add: plain_store_def store_ok_def env_xor_def key_valid_def)

text \<open>
  C17: plain and encrypted keys never coexist, unless an encryption has failed. From a
  well-formed store, whatever operations are applied in whatever order, a store without
  encryption has neither an encrypted key nor a master key, and a store with encryption on has
  no plain key, unless \<open>EncryptKeys\<close> returned false on a plain store earlier in its history;
  after such a failure encryption stays on.
\<close>

theorem store_invariant:
  assumes "env_ok E" "store_ok s0" "store_reaches E failed s0 s"
  shows "(\<not> fUseCrypto s \<longrightarrow> mapCryptedKeys s = [] \<and> vMasterKey s = []) \<and>
    (fUseCrypto s \<and> mapKeys s \<noteq> [] \<longrightarrow> failed) \<and> (failed \<longrightarrow> fUseCrypto s)"
  using store_reaches_inv [OF assms(1,3,2)] by (auto simp: store_inv_def store_ok_def)

theorem store_invariant_witness:
  "store_reaches env_xor False (plain_store []) ((plain_store [])\<lparr>fUseCrypto := True\<rparr>) \<and>
   mapKeys ((plain_store [])\<lparr>fUseCrypto := True\<rparr>) = [] \<and>
   (\<exists>s. store_reaches env_xor True (plain_store [(7, replicate 32 7)]) s \<and> fUseCrypto s \<and> mapKeys s \<noteq> [])"
proof -
  have r: "store_reaches env_xor (False \<or> False) (plain_store []) ((plain_store [])\<lparr>fUseCrypto := True\<rparr>)"
    by (rule store_reaches.step [OF store_reaches.start], rule store_step.set_crypted)
       (simp add: SetCrypted_def plain_store_def)
  have ok: "store_ok (plain_store [])" "store_ok (plain_store [(7, replicate 32 7)])"
    by (simp_all add: store_ok_def plain_store_def)
  obtain s where s: "EncryptKeys env_xor (plain_store [(7, replicate 32 7)]) [] = Inr (False, s)"
      "mapKeys s \<noteq> []"
    using EncryptSecret_wrong_length [OF env_xor_ok, of "[]"]
    by (auto simp: EncryptKeys_def env_xor_def plain_store_def)
  have "store_reaches env_xor (False \<or> (\<not> False \<and> \<not> fUseCrypto (plain_store [(7, replicate 32 7)])))
      (plain_store [(7, replicate 32 7)]) s"
    by (rule store_reaches.step [OF store_reaches.start], rule store_step.encrypt [OF s(1)])
  then have f: "store_reaches env_xor True (plain_store [(7, replicate 32 7)]) s"
    by (simp add: plain_store_def)
  show ?thesis
    using r f s(2) store_invariant [OF env_xor_ok ok(1) r] store_invariant [OF env_xor_ok ok(2) f] by auto
qed

text \<open>
  C36: what \<open>Unlock\<close> guarantees. If it returns true, the store holds the offered master key,
  there is at least one encrypted key, the first of them decrypts under it, and all of them
  do unless they were checked before. If it returns false nothing changes but that
  encryption is on, and in particular no master key is set.
\<close>

theorem unlock_correct:
  assumes "Unlock E s mk mixing = Inr (ok, s')"
  shows "(ok \<longrightarrow> vMasterKey s' = mk \<and> fOnlyMixingAllowed s' = mixing \<and>
       mapCryptedKeys s' = mapCryptedKeys s \<and> mapCryptedKeys s \<noteq> [] \<and>
       (case hd (mapCryptedKeys s) of (i, p, c) \<Rightarrow> \<exists>k. DecryptKey E mk c p (key0 E) = Inr (True, k)) \<and>
       (\<not> fDecryptionThoroughlyChecked s \<longrightarrow>
          (\<forall>(i, p, c) \<in> set (mapCryptedKeys s). \<exists>k. DecryptKey E mk c p (key0 E) = Inr (True, k)))) \<and>
    (\<not> ok \<longrightarrow> s' = snd (SetCrypted s))"
proof (rule SetCrypted_cases [of s])
  assume c: "\<not> fUseCrypto s" "mapKeys s \<noteq> []" "SetCrypted s = (False, s)"
  then show ?thesis using assms by (simp add: Unlock_def)
next
  assume c: "fUseCrypto s" "SetCrypted s = (True, s)"
  then show ?thesis
    using assms unlock_loop_sound [of E mk "fDecryptionThoroughlyChecked s" "mapCryptedKeys s" False]
    by (fastforce simp: Unlock_def rbind_Inr_iff split: if_splits prod.splits)
next
  assume c: "\<not> fUseCrypto s" "mapKeys s = []" "SetCrypted s = (True, s\<lparr>fUseCrypto := True\<rparr>)"
  then show ?thesis
    using assms unlock_loop_sound [of E mk "fDecryptionThoroughlyChecked s" "mapCryptedKeys s" False]
    by (fastforce simp: Unlock_def rbind_Inr_iff split: if_splits prod.splits)
qed

text \<open>The encrypted store of one key: its master key unlocks it, another does not.\<close>

theorem unlock_correct_witness:
  "\<exists>s s1 s2. EncryptKeys env_xor (plain_store [(7, replicate 32 7)]) (replicate 32 1) = Inr (True, s) \<and>
     Unlock env_xor s (replicate 32 1) True = Inr (True, s1) \<and> vMasterKey s1 = replicate 32 1 \<and>
     mapCryptedKeys s \<noteq> [] \<and>
     (case hd (mapCryptedKeys s) of (i, p, c) \<Rightarrow>
        \<exists>k. DecryptKey env_xor (replicate 32 1) c p (key0 env_xor) = Inr (True, k)) \<and>
     Unlock env_xor s [] True = Inr (False, s2) \<and> s2 = snd (SetCrypted s)"
proof -
  let ?st = "plain_store [(7, replicate 32 7)]"
  let ?mk = "replicate 32 1 :: byte list"
  let ?s = "?st\<lparr>fUseCrypto := True, mapCryptedKeys := crypted_map env_xor ?mk (mapKeys ?st), mapKeys := []\<rparr>"
  have p: "store_ok ?st" "\<not> fUseCrypto ?st" "length ?mk = 32" "mapKeys ?st \<noteq> []" "keys_filed env_xor ?st"
    by (simp_all add: keys_filed_def plain_store_def env_xor_def key_valid_def store_ok_def)
  have e: "EncryptKeys env_xor ?st ?mk = Inr (True, ?s)" by (rule EncryptKeys_run [OF env_xor_ok p(1-3,5)])
  obtain s1 where u: "Unlock env_xor ?s ?mk True = Inr (True, s1)"
    using encrypted_unlocks [OF env_xor_ok p, of True] by blast
  note yes = mp [OF conjunct1 [OF unlock_correct [OF u]] TrueI]
  note ne = yes [THEN conjunct2, THEN conjunct2, THEN conjunct2, THEN conjunct1]
  note first = yes [THEN conjunct2, THEN conjunct2, THEN conjunct2, THEN conjunct2, THEN conjunct1]
  have w: "Unlock env_xor ?s [] True = Inr (False, ?s)"
    by (rule Unlock_wrong_length [OF env_xor_ok _ ne]) simp_all
  have no: "?s = snd (SetCrypted ?s)" using unlock_correct [OF w] by blast
  show ?thesis
    by (rule exI [of _ ?s], rule exI [of _ s1], rule exI [of _ ?s], intro conjI)
      (rule e u w no ne first conjunct1 [OF yes])+
qed

text \<open>
  C40: a failed \<open>EncryptKeys\<close> leaves the wallet unusable. If the master key has the wrong
  length (so that the first encryption fails), \<open>EncryptKeys\<close> returns false but encryption is
  switched on while the plain keys stay in \<open>mapKeys\<close>: no key can be read any more, and
  \<open>Unlock\<close> fails with any master key.
\<close>

theorem failed_encrypt_keys_strands_keys:
  assumes "env_ok E" "store_ok s" "\<not> fUseCrypto s" "mapKeys s \<noteq> []" "length mk \<noteq> 32"
  shows "\<exists>s'. EncryptKeys E s mk = Inr (False, s') \<and> mapKeys s' = mapKeys s \<and> fUseCrypto s' \<and>
    (\<forall>i k0. GetKey E s' i k0 = Inr (False, k0)) \<and>
    (\<forall>mk' m. Unlock E s' mk' m = Inr (False, s'))"
proof -
  obtain i k m where m: "mapKeys s = (i, k) # m" using assms(4) by (metis list.exhaust prod.exhaust)
  have "EncryptKeys E s mk = Inr (False, s\<lparr>fUseCrypto := True\<rparr>)"
    using assms m EncryptSecret_wrong_length [OF assms(1,5)]
    by (simp add: EncryptKeys_def env_ok_def store_ok_def)
  moreover have "GetKey E (s\<lparr>fUseCrypto := True\<rparr>) i k0 = Inr (False, k0)" for i k0
    using assms(1-3) by (simp add: GetKey_def env_ok_def store_ok_def)
  moreover have "Unlock E (s\<lparr>fUseCrypto := True\<rparr>) mk' m = Inr (False, s\<lparr>fUseCrypto := True\<rparr>)" for mk' m
    using assms(2,3) by (simp add: Unlock_def SetCrypted_def store_ok_def)
  ultimately show ?thesis by auto
qed

theorem failed_encrypt_keys_strands_keys_witness:
  "\<exists>s'. EncryptKeys env_xor (plain_store [(7, replicate 32 7)]) [] = Inr (False, s') \<and>
    mapKeys s' = [(7, replicate 32 7)] \<and> fUseCrypto s' \<and>
    (\<forall>i k0. GetKey env_xor s' i k0 = Inr (False, k0)) \<and>
    (\<forall>mk' m. Unlock env_xor s' mk' m = Inr (False, s'))"
  using failed_encrypt_keys_strands_keys [OF env_xor_ok, of "plain_store [(7, replicate 32 7)]" "[]"]
  by (simp add: plain_store_def store_ok_def)

text \<open>
  A key added to an unlocked encrypted store can be read, with its public key, and every
  other entry is as before.
\<close>

theorem add_key_readable:
  assumes "env_ok E" "store_ok s" "fUseCrypto s" "length (vMasterKey s) = 32" "key_valid E k"
  shows "\<exists>s'. AddKeyPubKey E s k (key_pub E k) = Inr (True, s') \<and>
    (\<forall>k0. GetKey E s' (pk_id E (key_pub E k)) k0 = Inr (True, k)) \<and>
    (\<forall>p0. GetPubKey E s' (pk_id E (key_pub E k)) p0 = (True, key_pub E k)) \<and>
    (\<forall>i k0. i \<noteq> pk_id E (key_pub E k) \<longrightarrow> GetKey E s' i k0 = GetKey E s i k0)"
proof -
  have ne: "vMasterKey s \<noteq> []" using assms(4) by auto
  show ?thesis
    using assms(1,3) ne EncryptSecret_env [OF assms(1,4,5), of "key_pub E k" "[]"]
      DecryptKey_crypted [OF assms(1,4,5)]
    by (simp add: AddKeyPubKey_def env_ok_def AddCryptedKey_crypto GetKey_def GetPubKey_def split: option.split)
qed

theorem add_key_readable_witness:
  "\<exists>s'. AddKeyPubKey env_xor ((plain_store [])\<lparr>fUseCrypto := True, vMasterKey := replicate 32 3\<rparr>)
      (replicate 32 7) (replicate 32 7) = Inr (True, s') \<and>
    (\<forall>k0. GetKey env_xor s' 7 k0 = Inr (True, replicate 32 7))"
  using add_key_readable [OF env_xor_ok,
      of "(plain_store [])\<lparr>fUseCrypto := True, vMasterKey := replicate 32 3\<rparr>" "replicate 32 7"]
  by (auto simp: plain_store_def store_ok_def env_xor_def key_valid_def)

end
