(* ===== verification/Governance.thy ===== *)
theory Governance
  imports StdMap Codec
begin

text \<open>
  The governance manager's header, \<open>Maternodes/ChainX-MN/governance.h\<close>: the ring buffer of
  time stamps used for rate checks (\<open>CRateCheckBuffer\<close>) and the state of
  \<open>CGovernanceManager\<close> with the operations defined in the class. Objects, votes and the
  cache-map templates are declared in headers that are not part of the repository: their
  types are parameters and their operations are the fields of \<open>gov_env\<close>.
\<close>

section \<open>Windows\<close>

text \<open>
  The contract of a buffer that keeps the last \<open>cap\<close> items: proved once for any number of
  insertions.
\<close>

definition lastn :: "nat \<Rightarrow> 'a list \<Rightarrow> 'a list" where
  "lastn n xs = drop (length xs - n) xs"

lemma lastn_append_lastn: "lastn n (lastn n xs @ ys) = lastn n (xs @ ys)"
  by (cases "length xs \<le> n") (simp_all add: lastn_def drop_drop add.commute)

lemma length_lastn [simp]: "length (lastn n xs) = min n (length xs)"
  by (simp add: lastn_def min_def)

locale sliding_window =
  fixes wf :: "'b \<Rightarrow> bool"
    and add :: "'b \<Rightarrow> 'a \<Rightarrow> 'b"
    and contents :: "'b \<Rightarrow> 'a list"
    and cap :: nat
  assumes wf_add: "wf b \<Longrightarrow> wf (add b x)"
    and contents_add: "wf b \<Longrightarrow> contents (add b x) = lastn cap (contents b @ [x])"
    and contents_le: "wf b \<Longrightarrow> length (contents b) \<le> cap"
begin

lemma fold_add: "wf b \<Longrightarrow> wf (foldl add b xs) \<and> contents (foldl add b xs) = lastn cap (contents b @ xs)"
proof (induction xs arbitrary: b)
  case Nil
  then show ?case using contents_le by (simp add: lastn_def)
next
  case (Cons x xs)
  then show ?case by (simp add: wf_add contents_add lastn_append_lastn)
qed

lemma fold_add_empty:
  "wf b \<Longrightarrow> contents b = [] \<Longrightarrow> wf (foldl add b xs) \<and> contents (foldl add b xs) = lastn cap xs"
  using fold_add by simp

end

section \<open>The ring buffer\<close>

definition RATE_BUFFER_SIZE :: nat where "RATE_BUFFER_SIZE = 5"

record CRateCheckBuffer =
  vecTimestamps :: "i64 list"
  nDataStart :: nat
  nDataEnd :: nat
  fBufferEmpty :: bool

definition CRateCheckBuffer_init :: CRateCheckBuffer where
  "CRateCheckBuffer_init =
     \<lparr>vecTimestamps = replicate RATE_BUFFER_SIZE 0, nDataStart = 0, nDataEnd = 0, fBufferEmpty = True\<rparr>"

definition AddTimestamp :: "CRateCheckBuffer \<Rightarrow> i64 \<Rightarrow> CRateCheckBuffer" where
  "AddTimestamp b nTimestamp =
     (let b = (if nDataEnd b = nDataStart b \<and> \<not> fBufferEmpty b
               then b\<lparr>nDataStart := (nDataStart b + 1) mod RATE_BUFFER_SIZE\<rparr> else b)
      in b\<lparr>vecTimestamps := (vecTimestamps b)[nDataEnd b := nTimestamp],
           nDataEnd := (nDataEnd b + 1) mod RATE_BUFFER_SIZE, fBufferEmpty := False\<rparr>)"

text \<open>
  The loops \<open>do ... while(nIndex != nDataEnd)\<close>. They end only if the walk meets \<open>nDataEnd\<close>,
  so they are partial functions; \<open>None\<close> is a loop that does not return.
\<close>

partial_function (option) min_loop :: "CRateCheckBuffer \<Rightarrow> nat \<Rightarrow> i64 \<Rightarrow> i64 option" where
  "min_loop b nIndex nMin =
     (let nMin = (if sint (vecTimestamps b ! nIndex) < sint nMin then vecTimestamps b ! nIndex else nMin);
          nIndex = (nIndex + 1) mod RATE_BUFFER_SIZE
      in if nIndex \<noteq> nDataEnd b then min_loop b nIndex nMin else Some nMin)"

definition GetMinTimestamp :: "CRateCheckBuffer \<Rightarrow> i64 option" where
  "GetMinTimestamp b =
     (let nMin = word_of_int i64_max in
      if fBufferEmpty b then Some nMin else min_loop b (nDataStart b) nMin)"

partial_function (option) max_loop :: "CRateCheckBuffer \<Rightarrow> nat \<Rightarrow> i64 \<Rightarrow> i64 option" where
  "max_loop b nIndex nMax =
     (let nMax = (if sint (vecTimestamps b ! nIndex) > sint nMax then vecTimestamps b ! nIndex else nMax);
          nIndex = (nIndex + 1) mod RATE_BUFFER_SIZE
      in if nIndex \<noteq> nDataEnd b then max_loop b nIndex nMax else Some nMax)"

definition GetMaxTimestamp :: "CRateCheckBuffer \<Rightarrow> i64 option" where
  "GetMaxTimestamp b = (if fBufferEmpty b then Some 0 else max_loop b (nDataStart b) 0)"

definition GetCount :: "CRateCheckBuffer \<Rightarrow> int" where
  "GetCount b =
     (if fBufferEmpty b then 0
      else if nDataEnd b > nDataStart b then int (nDataEnd b) - int (nDataStart b)
      else int RATE_BUFFER_SIZE - int (nDataStart b) + int (nDataEnd b))"

text \<open>
  The rate is a \<open>double\<close>: the constants of the early returns, or the quotient of the two
  integers given here. The difference of the time stamps is an \<open>int64_t\<close>.
\<close>

datatype rate = Rate_zero | Rate_infinite | Rate_quotient int i64

definition GetRate :: "CRateCheckBuffer \<Rightarrow> rate res option" where
  "GetRate b =
     (let nCount = GetCount b in
      if nCount < 2 then Some (Inr Rate_zero)
      else case GetMinTimestamp b of
        None \<Rightarrow> None
      | Some nMin \<Rightarrow> (case GetMaxTimestamp b of
          None \<Rightarrow> None
        | Some nMax \<Rightarrow>
            if nMin = nMax then Some (Inr Rate_infinite)
            else if fits_i64 (sint nMax - sint nMin)
              then Some (Inr (Rate_quotient nCount (nMax - nMin)))
              else Some (Inl SignedOverflow)))"

definition buffer_write :: "CRateCheckBuffer \<Rightarrow> i64 list \<times> nat \<times> nat \<times> bool" where
  "buffer_write b = (vecTimestamps b, nDataStart b, nDataEnd b, fBufferEmpty b)"

definition buffer_read :: "i64 list \<times> nat \<times> nat \<times> bool \<Rightarrow> CRateCheckBuffer" where
  "buffer_read = (\<lambda>(v, s, e, f). \<lparr>vecTimestamps = v, nDataStart = s, nDataEnd = e, fBufferEmpty = f\<rparr>)"

text \<open>The buffer's contents, oldest first.\<close>

definition buffer_wf :: "CRateCheckBuffer \<Rightarrow> bool" where
  "buffer_wf b \<longleftrightarrow> length (vecTimestamps b) = 5 \<and> nDataStart b < 5 \<and> nDataEnd b < 5 \<and>
     (fBufferEmpty b \<longrightarrow> nDataEnd b = nDataStart b)"

definition buffer_size :: "CRateCheckBuffer \<Rightarrow> nat" where
  "buffer_size b =
     (if fBufferEmpty b then 0
      else if nDataStart b < nDataEnd b then nDataEnd b - nDataStart b
      else 5 - nDataStart b + nDataEnd b)"

definition buffer_contents :: "CRateCheckBuffer \<Rightarrow> i64 list" where
  "buffer_contents b =
     map (\<lambda>k. vecTimestamps b ! ((nDataStart b + k) mod 5)) [0..<buffer_size b]"

lemma length_buffer_contents [simp]: "length (buffer_contents b) = buffer_size b"
  by (simp add: buffer_contents_def)

lemma buffer_size_le: "buffer_wf b \<Longrightarrow> buffer_size b \<le> 5"
  by (auto simp: buffer_wf_def buffer_size_def)

lemma buffer_wf_add: "buffer_wf b \<Longrightarrow> buffer_wf (AddTimestamp b t)"
  by (simp add: buffer_wf_def AddTimestamp_def Let_def RATE_BUFFER_SIZE_def)

lemma less_5_cases: "n < 5 \<Longrightarrow> n = 0 \<or> n = 1 \<or> n = 2 \<or> n = 3 \<or> n = (4::nat)"
  by linarith

lemma length_5: "length xs = 5 \<Longrightarrow> \<exists>a b c d e. xs = [a, b, c, d, e]"
  by (auto simp: numeral_eq_Suc length_Suc_conv)

lemma buffer_contents_add:
  assumes "buffer_wf b"
  shows "buffer_contents (AddTimestamp b t) = lastn 5 (buffer_contents b @ [t])"
proof -
  obtain x0 x1 x2 x3 x4 where v: "vecTimestamps b = [x0, x1, x2, x3, x4]"
    using assms length_5 [of "vecTimestamps b"] by (auto simp: buffer_wf_def)
  have s: "nDataStart b = 0 \<or> nDataStart b = 1 \<or> nDataStart b = 2 \<or> nDataStart b = 3 \<or> nDataStart b = 4"
    and e: "nDataEnd b = 0 \<or> nDataEnd b = 1 \<or> nDataEnd b = 2 \<or> nDataEnd b = 3 \<or> nDataEnd b = 4"
    using assms less_5_cases by (auto simp: buffer_wf_def)
  have em: "fBufferEmpty b \<Longrightarrow> nDataEnd b = nDataStart b" using assms by (simp add: buffer_wf_def)
  show ?thesis
  proof (cases "fBufferEmpty b")
    case True
    then show ?thesis using s em
      by (elim disjE) (simp_all add: buffer_contents_def buffer_size_def AddTimestamp_def
          RATE_BUFFER_SIZE_def Let_def v lastn_def)
  next
    case False
    then show ?thesis using s e
      by (elim disjE) (simp_all add: buffer_contents_def buffer_size_def AddTimestamp_def
          RATE_BUFFER_SIZE_def Let_def v lastn_def upt_rec)
  qed
qed

interpretation rate: sliding_window buffer_wf AddTimestamp buffer_contents 5
  by unfold_locales (simp_all add: buffer_wf_add buffer_contents_add buffer_size_le)

lemma next_index:
  assumes "buffer_wf b" "k < buffer_size b"
  shows "Suc ((nDataStart b + k) mod 5) mod 5 = (nDataStart b + Suc k) mod 5"
    and "(nDataStart b + Suc k) mod 5 \<noteq> nDataEnd b \<longleftrightarrow> Suc k < buffer_size b"
proof -
  show "Suc ((nDataStart b + k) mod 5) mod 5 = (nDataStart b + Suc k) mod 5" by (simp add: mod_simps)
  have k: "k < 5" using assms buffer_size_le by fastforce
  have ne: "\<not> fBufferEmpty b" using assms(2) by (auto simp: buffer_size_def)
  have s: "nDataStart b < 5" "nDataEnd b < 5" using assms(1) by (simp_all add: buffer_wf_def)
  show "(nDataStart b + Suc k) mod 5 \<noteq> nDataEnd b \<longleftrightarrow> Suc k < buffer_size b"
    using less_5_cases [OF s(1)] less_5_cases [OF s(2)] less_5_cases [OF k] assms(2) ne
    by (elim disjE) (simp_all add: buffer_size_def)
qed

definition keep_min :: "i64 \<Rightarrow> i64 \<Rightarrow> i64" where "keep_min m t = (if sint t < sint m then t else m)"
definition keep_max :: "i64 \<Rightarrow> i64 \<Rightarrow> i64" where "keep_max m t = (if sint t > sint m then t else m)"

lemma loop_walk:
  assumes loop: "\<And>i m. loop i m = (let m = f m (vecTimestamps b ! i); i = (i + 1) mod RATE_BUFFER_SIZE
      in if i \<noteq> nDataEnd b then loop i m else Some m)"
    and wf: "buffer_wf b"
  shows "k < buffer_size b \<Longrightarrow>
    loop ((nDataStart b + k) mod 5) m = Some (foldl f m (drop k (buffer_contents b)))"
proof (induction "buffer_size b - k" arbitrary: k m)
  case (Suc n)
  note k = Suc.prems
  have d: "drop k (buffer_contents b) =
      vecTimestamps b ! ((nDataStart b + k) mod 5) # drop (Suc k) (buffer_contents b)"
    using k by (subst Cons_nth_drop_Suc [symmetric]) (simp_all add: buffer_contents_def)
  show ?case
  proof (cases "Suc k < buffer_size b")
    case True
    then have "loop ((nDataStart b + Suc k) mod 5) (f m (vecTimestamps b ! ((nDataStart b + k) mod 5))) =
        Some (foldl f (f m (vecTimestamps b ! ((nDataStart b + k) mod 5))) (drop (Suc k) (buffer_contents b)))"
      using Suc.hyps(2) by (intro Suc.hyps(1)) simp_all
    then show ?thesis using next_index [OF wf k] True
      by (subst loop) (simp add: d Let_def RATE_BUFFER_SIZE_def)
  next
    case False
    then show ?thesis using next_index [OF wf k]
      by (subst loop) (simp add: d Let_def RATE_BUFFER_SIZE_def)
  qed
qed simp

lemma size_pos: "buffer_wf b \<Longrightarrow> \<not> fBufferEmpty b \<Longrightarrow> 0 < buffer_size b"
  by (auto simp: buffer_size_def buffer_wf_def)

lemma empty_contents: "fBufferEmpty b \<Longrightarrow> buffer_contents b = []"
  by (simp add: buffer_contents_def buffer_size_def)

lemma GetMinTimestamp_eq:
  assumes "buffer_wf b"
  shows "GetMinTimestamp b = Some (foldl keep_min (word_of_int i64_max) (buffer_contents b))"
proof (cases "fBufferEmpty b")
  case False
  have "min_loop b i m = (let m = keep_min m (vecTimestamps b ! i); i = (i + 1) mod RATE_BUFFER_SIZE
      in if i \<noteq> nDataEnd b then min_loop b i m else Some m)" for i m
    by (subst min_loop.simps) (simp add: keep_min_def)
  from loop_walk [OF this assms size_pos [OF assms False], of "word_of_int i64_max"] show ?thesis
    using False assms by (simp add: GetMinTimestamp_def buffer_wf_def)
qed (simp add: GetMinTimestamp_def empty_contents)

lemma GetMaxTimestamp_eq:
  assumes "buffer_wf b"
  shows "GetMaxTimestamp b = Some (foldl keep_max 0 (buffer_contents b))"
proof (cases "fBufferEmpty b")
  case False
  have "max_loop b i m = (let m = keep_max m (vecTimestamps b ! i); i = (i + 1) mod RATE_BUFFER_SIZE
      in if i \<noteq> nDataEnd b then max_loop b i m else Some m)" for i m
    by (subst max_loop.simps) (simp add: keep_max_def)
  from loop_walk [OF this assms size_pos [OF assms False], of 0] show ?thesis
    using False assms by (simp add: GetMaxTimestamp_def buffer_wf_def)
qed (simp add: GetMaxTimestamp_def empty_contents)

lemma GetCount_eq: "buffer_wf b \<Longrightarrow> GetCount b = int (buffer_size b)"
  by (auto simp: GetCount_def buffer_size_def RATE_BUFFER_SIZE_def buffer_wf_def)

lemma sint_foldl_min: "sint (foldl keep_min m ts) = foldl min (sint m) (map sint ts)"
  by (induction ts arbitrary: m) (auto simp: keep_min_def min_def)

lemma sint_foldl_max: "sint (foldl keep_max m ts) = foldl max (sint m) (map sint ts)"
  by (induction ts arbitrary: m) (auto simp: keep_max_def max_def)

lemma buffer_wf_init: "buffer_wf CRateCheckBuffer_init"
  and contents_init: "buffer_contents CRateCheckBuffer_init = []"
  by (simp_all add: buffer_wf_def CRateCheckBuffer_init_def RATE_BUFFER_SIZE_def buffer_contents_def
      buffer_size_def)

lemmas rate_history = rate.fold_add_empty [OF buffer_wf_init contents_init]

lemma foldl_max_ge: "foldl max (m::int) xs \<ge> m" "x \<in> set xs \<Longrightarrow> x \<le> foldl max m xs"
  by (induction xs arbitrary: m) (auto intro: order_trans [OF max.cobounded1] order_trans [OF max.cobounded2])

lemma foldl_min_le: "foldl min (m::int) xs \<le> m" "x \<in> set xs \<Longrightarrow> foldl min m xs \<le> x"
  by (induction xs arbitrary: m) (auto intro: order_trans [OF _ min.cobounded1] order_trans [OF _ min.cobounded2])

lemma foldl_min_ge: "l \<le> m \<Longrightarrow> \<forall>x \<in> set xs. l \<le> x \<Longrightarrow> l \<le> foldl min (m::int) xs"
  by (induction xs arbitrary: m) auto

section \<open>The manager\<close>

datatype update_mode_enum_t = UPDATE_FALSE | UPDATE_TRUE | UPDATE_FAIL_ONLY

record last_object_rec =
  triggerBuffer :: CRateCheckBuffer
  watchdogBuffer :: CRateCheckBuffer
  fStatusOK :: bool

definition last_object_rec_init :: "bool \<Rightarrow> last_object_rec" where
  "last_object_rec_init fStatusOKIn =
     \<lparr>triggerBuffer = CRateCheckBuffer_init, watchdogBuffer = CRateCheckBuffer_init, fStatusOK = fStatusOKIn\<rparr>"

type_synonym buffer_image = "i64 list \<times> nat \<times> nat \<times> bool"

definition last_object_write :: "last_object_rec \<Rightarrow> buffer_image \<times> buffer_image \<times> bool" where
  "last_object_write r = (buffer_write (triggerBuffer r), buffer_write (watchdogBuffer r), fStatusOK r)"

definition last_object_read :: "buffer_image \<times> buffer_image \<times> bool \<Rightarrow> last_object_rec" where
  "last_object_read = (\<lambda>(t, w, f).
     \<lparr>triggerBuffer = buffer_read t, watchdogBuffer = buffer_read w, fStatusOK = f\<rparr>)"

definition MAX_CACHE_SIZE :: int where "MAX_CACHE_SIZE = 1000000"

text \<open>
  The members of \<open>CGovernanceManager\<close>. \<open>'o\<close> is a governance object, \<open>'p\<close> an outpoint;
  \<open>'vo\<close>, \<open>'vi\<close> and \<open>'vm\<close> are the cache maps of votes; a pointer to a block is an address, or null.
  The mutex is left out.
\<close>

record ('o, 'p, 'vo, 'vi, 'vm) CGovernanceManager =
  pCurrentBlockIndex :: "nat option"
  nTimeLastDiff :: i64
  nCachedBlockHeight :: int
  mapObjects :: "(uint256, 'o) stdmap"
  mapSeenGovernanceObjects :: "(uint256, int) stdmap"
  mapMasternodeOrphanObjects :: "(uint256, 'o \<times> i64) stdmap"
  mapWatchdogObjects :: "(uint256, i64) stdmap"
  nHashWatchdogCurrent :: uint256
  nTimeWatchdogCurrent :: i64
  mapVoteToObject :: 'vo
  mapInvalidVotes :: 'vi
  mapOrphanVotes :: 'vm
  mapLastMasternodeObject :: "('p, last_object_rec) stdmap"
  setRequestedObjects :: "uint256 stdset"
  setRequestedVotes :: "uint256 stdset"
  fRateChecksEnabled :: bool

text \<open>
  What the manager calls: the cache maps, the clock, the vote's hash, the version string, and
  \<open>ProcessVote\<close>, whose body is in another file that is not part of the repository.
\<close>

record ('o, 'p, 'vo, 'vi, 'vm, 'v, 'x) gov_env =
  vo_clear :: "'vo \<Rightarrow> 'vo"
  vi_clear :: "'vi \<Rightarrow> 'vi"
  vm_clear :: "'vm \<Rightarrow> 'vm"
  vi_insert :: "'vi \<Rightarrow> uint256 \<Rightarrow> 'v \<Rightarrow> 'vi"
  vm_insert :: "'vm \<Rightarrow> uint256 \<Rightarrow> 'v \<times> i64 \<Rightarrow> 'vm"
  vote_hash :: "'v \<Rightarrow> uint256"
  GetAdjustedTime :: i64
  GOVERNANCE_ORPHAN_EXPIRATION_TIME :: i64
  SERIALIZATION_VERSION_STRING :: string
  ProcessVote :: "('o, 'p, 'vo, 'vi, 'vm) CGovernanceManager \<Rightarrow> 'v \<Rightarrow> 'x \<Rightarrow>
    bool \<times> ('o, 'p, 'vo, 'vi, 'vm) CGovernanceManager \<times> 'x"

definition CountProposalInventoryItems :: "('o, 'p, 'vo, 'vi, 'vm) CGovernanceManager \<Rightarrow> int" where
  "CountProposalInventoryItems m = int (length (mapSeenGovernanceObjects m))"

text \<open>\<open>UpdateCachesAndClean\<close> is declared only.\<close>

definition CheckAndRemove ::
    "(('o, 'p, 'vo, 'vi, 'vm) CGovernanceManager \<Rightarrow> ('o, 'p, 'vo, 'vi, 'vm) CGovernanceManager) \<Rightarrow>
     ('o, 'p, 'vo, 'vi, 'vm) CGovernanceManager \<Rightarrow> ('o, 'p, 'vo, 'vi, 'vm) CGovernanceManager" where
  "CheckAndRemove UpdateCachesAndClean m = UpdateCachesAndClean m"

definition gov_Clear ::
    "('o, 'p, 'vo, 'vi, 'vm, 'v, 'x) gov_env \<Rightarrow> ('o, 'p, 'vo, 'vi, 'vm) CGovernanceManager \<Rightarrow>
     ('o, 'p, 'vo, 'vi, 'vm) CGovernanceManager" where
  "gov_Clear E m = m\<lparr>mapObjects := [], mapSeenGovernanceObjects := [], mapWatchdogObjects := [],
     nHashWatchdogCurrent := 0, nTimeWatchdogCurrent := 0,
     mapVoteToObject := vo_clear E (mapVoteToObject m),
     mapInvalidVotes := vi_clear E (mapInvalidVotes m),
     mapOrphanVotes := vm_clear E (mapOrphanVotes m), mapLastMasternodeObject := []\<rparr>"

type_synonym ('o, 'p, 'vi, 'vm) gov_image =
  "string \<times> (uint256, int) stdmap \<times> 'vi \<times> 'vm \<times> (uint256, 'o) stdmap \<times> (uint256, i64) stdmap \<times>
   uint256 \<times> i64 \<times> ('p, buffer_image \<times> buffer_image \<times> bool) stdmap"

definition gov_write ::
    "('o, 'p, 'vo, 'vi, 'vm, 'v, 'x) gov_env \<Rightarrow> ('o, 'p, 'vo, 'vi, 'vm) CGovernanceManager \<Rightarrow>
     ('o, 'p, 'vi, 'vm) gov_image" where
  "gov_write E m = (SERIALIZATION_VERSION_STRING E, mapSeenGovernanceObjects m, mapInvalidVotes m,
     mapOrphanVotes m, mapObjects m, mapWatchdogObjects m, nHashWatchdogCurrent m,
     nTimeWatchdogCurrent m, map (\<lambda>(p, r). (p, last_object_write r)) (mapLastMasternodeObject m))"

definition gov_read ::
    "('o, 'p, 'vo, 'vi, 'vm, 'v, 'x) gov_env \<Rightarrow> ('o, 'p, 'vi, 'vm) gov_image \<Rightarrow>
     ('o, 'p, 'vo, 'vi, 'vm) CGovernanceManager \<Rightarrow> ('o, 'p, 'vo, 'vi, 'vm) CGovernanceManager" where
  "gov_read E = (\<lambda>(strVersion, seen, invalid, orphan, objects, watchdog, h, t, last) m.
     let m = m\<lparr>mapSeenGovernanceObjects := seen, mapInvalidVotes := invalid, mapOrphanVotes := orphan,
         mapObjects := objects, mapWatchdogObjects := watchdog, nHashWatchdogCurrent := h,
         nTimeWatchdogCurrent := t,
         mapLastMasternodeObject := map (\<lambda>(p, r). (p, last_object_read r)) last\<rparr>
     in if strVersion \<noteq> SERIALIZATION_VERSION_STRING E then gov_Clear E m else m)"

definition UpdateLastDiffTime ::
    "i64 \<Rightarrow> ('o, 'p, 'vo, 'vi, 'vm) CGovernanceManager \<Rightarrow> ('o, 'p, 'vo, 'vi, 'vm) CGovernanceManager" where
  "UpdateLastDiffTime nTimeIn m = m\<lparr>nTimeLastDiff := nTimeIn\<rparr>"

definition GetLastDiffTime :: "('o, 'p, 'vo, 'vi, 'vm) CGovernanceManager \<Rightarrow> i64" where
  "GetLastDiffTime m = nTimeLastDiff m"

definition GetCachedBlockHeight :: "('o, 'p, 'vo, 'vi, 'vm) CGovernanceManager \<Rightarrow> int" where
  "GetCachedBlockHeight m = nCachedBlockHeight m"

definition AreRateChecksEnabled :: "('o, 'p, 'vo, 'vi, 'vm) CGovernanceManager \<Rightarrow> bool" where
  "AreRateChecksEnabled m = fRateChecksEnabled m"

text \<open>\<open>ProcessVoteAndRelay\<close> returns the votes it relays beside its result.\<close>

definition ProcessVoteAndRelay ::
    "('o, 'p, 'vo, 'vi, 'vm, 'v, 'x) gov_env \<Rightarrow> ('o, 'p, 'vo, 'vi, 'vm) CGovernanceManager \<Rightarrow> 'v \<Rightarrow> 'x \<Rightarrow>
     bool \<times> ('o, 'p, 'vo, 'vi, 'vm) CGovernanceManager \<times> 'x \<times> 'v list" where
  "ProcessVoteAndRelay E m vote exc =
     (let (fOK, m, exc) = ProcessVote E m vote exc
      in if fOK then (fOK, m, exc, [vote]) else (fOK, m, exc, []))"

definition AddInvalidVote ::
    "('o, 'p, 'vo, 'vi, 'vm, 'v, 'x) gov_env \<Rightarrow> 'v \<Rightarrow> ('o, 'p, 'vo, 'vi, 'vm) CGovernanceManager \<Rightarrow>
     ('o, 'p, 'vo, 'vi, 'vm) CGovernanceManager" where
  "AddInvalidVote E vote m = m\<lparr>mapInvalidVotes := vi_insert E (mapInvalidVotes m) (vote_hash E vote) vote\<rparr>"

definition AddOrphanVote ::
    "('o, 'p, 'vo, 'vi, 'vm, 'v, 'x) gov_env \<Rightarrow> 'v \<Rightarrow> ('o, 'p, 'vo, 'vi, 'vm) CGovernanceManager \<Rightarrow>
     ('o, 'p, 'vo, 'vi, 'vm) CGovernanceManager res" where
  "AddOrphanVote E vote m =
     (if fits_i64 (sint (GetAdjustedTime E) + sint (GOVERNANCE_ORPHAN_EXPIRATION_TIME E))
      then Inr (m\<lparr>mapOrphanVotes := vm_insert E (mapOrphanVotes m) (vote_hash E vote)
                 (vote, GetAdjustedTime E + GOVERNANCE_ORPHAN_EXPIRATION_TIME E)\<rparr>)
      else Inl SignedOverflow)"

lemma buffer_read_write [simp]: "buffer_read (buffer_write b) = b"
  by (simp add: buffer_read_def buffer_write_def)

lemma last_object_read_write [simp]: "last_object_read (last_object_write r) = r"
  by (simp add: last_object_read_def last_object_write_def)

lemma last_map_read_write:
  "map ((\<lambda>(p, r). (p, last_object_read r)) \<circ> (\<lambda>(p, r). (p, last_object_write r))) xs = xs"
  by (induction xs) auto

interpretation buffer_codec: codec "\<lambda>b. Inr (buffer_write b)" "\<lambda>e. Inr (buffer_read e)" "\<lambda>b. True"
  by unfold_locales simp

section \<open>Properties\<close>

text \<open>
  C30: the ring buffer is the list of the last five time stamps. After any sequence of
  \<open>AddTimestamp\<close> calls on a new buffer the three queries return the number, the minimum
  (or the largest \<open>int64_t\<close>) and the maximum (or zero) of the last five stamps; in particular
  their loops end.
\<close>

theorem rate_buffer_window:
  fixes ts :: "i64 list"
  defines "b \<equiv> foldl AddTimestamp CRateCheckBuffer_init ts"
    and "w \<equiv> lastn 5 ts"
  shows "GetCount b = int (length w) \<and>
    (\<exists>m. GetMinTimestamp b = Some m \<and> sint m = foldl min i64_max (map sint w)) \<and>
    (\<exists>m. GetMaxTimestamp b = Some m \<and> sint m = foldl max 0 (map sint w))"
proof -
  have wf: "buffer_wf b" and c: "buffer_contents b = w"
    using rate_history [of ts] by (simp_all add: b_def w_def)
  have "sint (word_of_int i64_max :: i64) = i64_max" by (rule sint_of_int_fits) (simp add: i64_bounds)
  then show ?thesis
    using GetCount_eq [OF wf] GetMinTimestamp_eq [OF wf] GetMaxTimestamp_eq [OF wf] c
      length_buffer_contents [of b]
    by (simp add: sint_foldl_min sint_foldl_max)
qed

text \<open>
  The rate is defined. For non-negative time stamps \<open>GetRate\<close> returns, without overflow,
  zero for fewer than two stamps, the infinite rate if the last five are all equal, and
  otherwise the number of stamps in the window over its exact time span.
\<close>

theorem get_rate_exact:
  assumes "\<forall>t \<in> set ts. 0 \<le> sint (t :: i64)"
  shows "GetRate (foldl AddTimestamp CRateCheckBuffer_init ts) =
    Some (Inr (let w = lastn 5 ts; lo = foldl min i64_max (map sint w); hi = foldl max 0 (map sint w)
      in if length w < 2 then Rate_zero
         else if lo = hi then Rate_infinite
         else Rate_quotient (int (length w)) (word_of_int (hi - lo))))"
proof -
  let ?b = "foldl AddTimestamp CRateCheckBuffer_init ts" and ?w = "lastn 5 ts"
  let ?lo = "foldl min i64_max (map sint ?w)" and ?hi = "foldl max 0 (map sint ?w)"
  have wf: "buffer_wf ?b" and c: "buffer_contents ?b = ?w"
    using rate_history [of ts] by simp_all
  have "sint (word_of_int i64_max :: i64) = i64_max" by (rule sint_of_int_fits) (simp add: i64_bounds)
  then obtain mn mx where mn: "GetMinTimestamp ?b = Some mn" "sint mn = ?lo"
      and mx: "GetMaxTimestamp ?b = Some mx" "sint mx = ?hi"
    using GetMinTimestamp_eq [OF wf] GetMaxTimestamp_eq [OF wf] c
    by (simp add: sint_foldl_min sint_foldl_max)
  have n: "GetCount ?b = int (length ?w)"
    using GetCount_eq [OF wf] length_buffer_contents [of ?b] c by simp
  have "set ?w \<subseteq> set ts" by (simp add: lastn_def set_drop_subset)
  then have "0 \<le> ?lo"
    using assms by (intro foldl_min_ge) (auto simp: i64_bounds)
  then have fits: "fits_i64 (sint mx - sint mn)"
    using mn mx sint_i64_range(2) [of mx] foldl_max_ge(1) [of 0 "map sint ?w"] foldl_min_le(1) [of i64_max "map sint ?w"]
    by (simp add: i64_bounds)
  have "mx - mn = word_of_int (?hi - ?lo)"
    using mn mx word_of_int_sint [of mx] word_of_int_sint [of mn] by (simp add: of_int_diff)
  moreover have "mn = mx \<longleftrightarrow> ?lo = ?hi" using mn mx by (metis sint_i64_inject)
  ultimately show ?thesis using fits mn mx n
    by (simp add: GetRate_def Let_def) linarith
qed

theorem get_rate_exact_witness:
  "GetRate (foldl AddTimestamp CRateCheckBuffer_init [1, 10, 20, 30, 40, 60]) =
    Some (Inr (Rate_quotient 5 50))"
proof -
  have h: "\<forall>t \<in> set [1, 10, 20, 30, 40, 60]. 0 \<le> sint (t :: i64)" by simp
  show ?thesis using get_rate_exact [OF h] by (simp add: lastn_def i64_max_def Let_def)
qed

text \<open>
  The manager's saved state. Reading what was written restores every saved member and
  touches no other; reading anything saved under another version string leaves all saved
  members empty.
\<close>

theorem gov_serialization:
  "gov_read E (gov_write E m) m0 = m0\<lparr>mapSeenGovernanceObjects := mapSeenGovernanceObjects m,
      mapInvalidVotes := mapInvalidVotes m, mapOrphanVotes := mapOrphanVotes m,
      mapObjects := mapObjects m, mapWatchdogObjects := mapWatchdogObjects m,
      nHashWatchdogCurrent := nHashWatchdogCurrent m, nTimeWatchdogCurrent := nTimeWatchdogCurrent m,
      mapLastMasternodeObject := mapLastMasternodeObject m\<rparr> \<and>
   (let m' = gov_read E (v, seen, invalid, orphan, objects, watchdog, h, t, lastobj) m0;
        same = (v = SERIALIZATION_VERSION_STRING E)
    in mapObjects m' = (if same then objects else []) \<and>
       mapSeenGovernanceObjects m' = (if same then seen else []) \<and>
       mapWatchdogObjects m' = (if same then watchdog else []) \<and>
       mapLastMasternodeObject m' = (if same then map (\<lambda>(p, r). (p, last_object_read r)) lastobj else []) \<and>
       nHashWatchdogCurrent m' = (if same then h else 0) \<and>
       nTimeWatchdogCurrent m' = (if same then t else 0) \<and>
       mapMasternodeOrphanObjects m' = mapMasternodeOrphanObjects m0 \<and>
       setRequestedObjects m' = setRequestedObjects m0)"
  by (simp add: gov_read_def gov_write_def last_map_read_write gov_Clear_def Let_def)

end
