(* ===== verification/TxTool.thy ===== *)
theory TxTool
  imports Script StdMap "HOL-Library.List_Lexorder" "HOL-Library.Char_ord"
begin

text \<open>
  The transaction tool of \<open>Maternodes/SRC/chain-tx.cpp\<close>: the commands that change a
  transaction, the JSON registers, and the command-line driver. The libraries it calls
  (number and money parsing, addresses, signing, UniValue, the coins view, argument parsing,
  hexadecimal coding) are not part of the repository: they are the fields of \<open>tool_env\<close>.
  What is printed is returned as a list of outputs.
\<close>

section \<open>Strings\<close>

definition npos :: u64 where "npos = - 1"

fun find_at :: "char \<Rightarrow> string \<Rightarrow> nat \<Rightarrow> u64" where
  "find_at c [] i = npos"
| "find_at c (x # s) i = (if x = c then of_nat i else find_at c s (Suc i))"

definition str_find :: "string \<Rightarrow> char \<Rightarrow> u64" where
  "str_find s c = find_at c s 0"

definition str_substr :: "string \<Rightarrow> u64 \<Rightarrow> u64 \<Rightarrow> string res" where
  "str_substr s pos n =
     (if length s < unat pos then Inl (Thrown ''basic_string::substr'')
      else Inr (take (unat n) (drop (unat pos) s)))"

section \<open>Transactions\<close>

record COutPoint =
  op_hash :: uint256
  op_n :: u32

record CTxIn =
  prevout :: COutPoint
  scriptSig :: CScript
  nSequence :: u32

record CTxOut =
  nValue :: i64
  scriptPubKey :: CScript

record CMutableTransaction =
  nVersion :: int
  vin :: "CTxIn list"
  vout :: "CTxOut list"
  nLockTime :: u32

section \<open>Environment\<close>

text \<open>
  \<open>'u\<close> is a \<open>UniValue\<close>, \<open>'w\<close> a coins view, \<open>'ks\<close> a key store and \<open>'k\<close> a private key.
  A file is its contents and whether reading it ends with an error.
\<close>

record ('u, 'w, 'ks, 'k) tool_env =
  le :: le_io
  atoi :: "string \<Rightarrow> int"
  atoi64 :: "string \<Rightarrow> int"
  CURRENT_VERSION :: int
  MAX_BLOCK_SIZE :: nat
  SEQUENCE_FINAL :: u32
  IsHex :: "string \<Rightarrow> bool"
  ParseHex :: "string \<Rightarrow> byte list"
  uint256S :: "string \<Rightarrow> uint256"
  ParseMoney :: "string \<Rightarrow> i64 option"
  address_valid :: "string \<Rightarrow> bool"
  script_for_address :: "string \<Rightarrow> CScript"
  ParseScript :: "string \<Rightarrow> CScript res"
  uv_read :: "string \<Rightarrow> 'u option"
  uv_size :: "'u \<Rightarrow> nat"
  uv_at :: "'u \<Rightarrow> nat \<Rightarrow> 'u"
  uv_key :: "'u \<Rightarrow> string \<Rightarrow> 'u"
  uv_exists :: "'u \<Rightarrow> string \<Rightarrow> bool"
  uv_isStr :: "'u \<Rightarrow> bool"
  uv_isObject :: "'u \<Rightarrow> bool"
  uv_str :: "'u \<Rightarrow> string"
  uv_checkObject :: "'u \<Rightarrow> (string \<times> string) list \<Rightarrow> bool"
  ParseHashUV :: "'u \<Rightarrow> string \<Rightarrow> uint256 res"
  ParseHexUV :: "'u \<Rightarrow> string \<Rightarrow> byte list res"
  secret_key :: "string \<Rightarrow> 'k option"
  ks_empty :: 'ks
  ks_add :: "'ks \<Rightarrow> 'k \<Rightarrow> 'ks"
  ks_add_script :: "'ks \<Rightarrow> CScript \<Rightarrow> 'ks"
  view_empty :: 'w
  ModifyCoins :: "'w \<Rightarrow> uint256 \<Rightarrow> CTxOut list"
  view_set :: "'w \<Rightarrow> uint256 \<Rightarrow> CTxOut list \<Rightarrow> 'w"
  AccessCoins :: "'w \<Rightarrow> uint256 \<Rightarrow> CTxOut list option"
  IsAvailable :: "CTxOut list \<Rightarrow> nat \<Rightarrow> bool"
  null_out :: CTxOut
  IsPayToScriptHash :: "CScript \<Rightarrow> bool"
  ScriptToAsmStr :: "CScript \<Rightarrow> string"
  SignSignature :: "'ks \<Rightarrow> CScript \<Rightarrow> CMutableTransaction \<Rightarrow> nat \<Rightarrow> int \<Rightarrow> CScript"
  CombineSignatures :: "CScript \<Rightarrow> CMutableTransaction \<Rightarrow> nat \<Rightarrow> CScript \<Rightarrow> CScript \<Rightarrow> CScript"
  VerifyScript :: "CScript \<Rightarrow> CScript \<Rightarrow> CMutableTransaction \<Rightarrow> nat \<Rightarrow> bool"
  fopen :: "string \<Rightarrow> (string \<times> bool) option"
  stdin :: "string \<times> bool"
  trim_right :: "string \<Rightarrow> string"
  IsSwitchChar :: "char \<Rightarrow> bool"
  DecodeHexTx :: "string \<Rightarrow> CMutableTransaction option"
  empty_tx :: CMutableTransaction
  EncodeHexTx :: "CMutableTransaction \<Rightarrow> string"
  tx_json :: "CMutableTransaction \<Rightarrow> string"
  tx_hash_hex :: "CMutableTransaction \<Rightarrow> string"
  bool_arg :: "string \<Rightarrow> bool"
  has_arg :: "string \<Rightarrow> bool"
  SelectParams :: "unit res"
  FormatFullVersion :: string
  HelpMessageGroup :: "string \<Rightarrow> string"
  HelpMessageOpt :: "string \<Rightarrow> string \<Rightarrow> string"
  params_help :: string

type_synonym 'u registers = "(string, 'u) stdmap"

definition throw :: "string \<Rightarrow> 'a res" where
  "throw msg = Inl (Thrown msg)"

section \<open>Registers\<close>

definition RegisterSetJson ::
    "('u, 'w, 'ks, 'k) tool_env \<Rightarrow> string \<Rightarrow> string \<Rightarrow> 'u registers \<Rightarrow> 'u registers res" where
  "RegisterSetJson E key rawJson regs =
     (case uv_read E rawJson of
        None \<Rightarrow> throw (''Cannot parse JSON for key '' @ key)
      | Some val \<Rightarrow> Inr (smap_put regs key val))"

text \<open>
  The tests and substrings around a separator that most commands share: an error if the colon
  is missing, first or last.
\<close>

definition split_colon :: "string \<Rightarrow> string \<Rightarrow> (string \<times> string) res" where
  "split_colon msg strInput =
     (let pos = str_find strInput (CHR '':'') in
      if pos = npos \<or> pos = 0 \<or> pos = of_nat (length strInput) - 1 then throw msg
      else rbind (str_substr strInput 0 pos) (\<lambda>key.
           rbind (str_substr strInput (pos + 1) npos) (\<lambda>val. Inr (key, val))))"

definition RegisterSet ::
    "('u, 'w, 'ks, 'k) tool_env \<Rightarrow> string \<Rightarrow> 'u registers \<Rightarrow> 'u registers res" where
  "RegisterSet E strInput regs =
     rbind (split_colon ''Register input requires NAME:VALUE'' strInput) (\<lambda>(key, valStr).
       RegisterSetJson E key valStr regs)"

text \<open>
  \<open>fread\<close> on a file with the given rest: the bytes, the new rest, and whether the end-of-file
  or error indicator is set. The reading loops take chunks of 4096 bytes.
\<close>

definition fread :: "nat \<Rightarrow> string \<Rightarrow> string \<times> string \<times> bool" where
  "fread n rest = (take n rest, drop n rest, length rest < n)"

function read_loop :: "string \<Rightarrow> string \<Rightarrow> string" where
  "read_loop rest valStr =
     (let (buf, rest, ended) = fread 4096 rest in
      if length buf \<le> 0 then valStr
      else if ended then valStr @ buf else read_loop rest (valStr @ buf))"
  by pat_completeness auto
termination
  by (relation "measure (\<lambda>(rest, v). length rest)") (auto simp: fread_def)

declare read_loop.simps [simp del]

definition RegisterLoad ::
    "('u, 'w, 'ks, 'k) tool_env \<Rightarrow> string \<Rightarrow> 'u registers \<Rightarrow> 'u registers res" where
  "RegisterLoad E strInput regs =
     rbind (split_colon ''Register load requires NAME:FILENAME'' strInput) (\<lambda>(key, filename).
       case fopen E filename of
         None \<Rightarrow> throw (''Cannot open file '' @ filename)
       | Some (contents, fails) \<Rightarrow>
           let valStr = read_loop contents [] in
           if fails then throw (''Error reading file '' @ filename)
           else RegisterSetJson E key valStr regs)"

section \<open>Commands on a transaction\<close>

definition MutateTxVersion ::
    "('u, 'w, 'ks, 'k) tool_env \<Rightarrow> CMutableTransaction \<Rightarrow> string \<Rightarrow> CMutableTransaction res" where
  "MutateTxVersion E tx cmdVal =
     (let newVersion = atoi64 E cmdVal in
      if newVersion < 1 \<or> newVersion > CURRENT_VERSION E then throw ''Invalid TX version requested''
      else Inr (tx\<lparr>nVersion := newVersion\<rparr>))"

definition MutateTxLocktime ::
    "('u, 'w, 'ks, 'k) tool_env \<Rightarrow> CMutableTransaction \<Rightarrow> string \<Rightarrow> CMutableTransaction res" where
  "MutateTxLocktime E tx cmdVal =
     (let newLocktime = atoi64 E cmdVal in
      if newLocktime < 0 \<or> newLocktime > 0xffffffff then throw ''Invalid TX locktime requested''
      else Inr (tx\<lparr>nLockTime := word_of_int newLocktime\<rparr>))"

definition MutateTxAddInput ::
    "('u, 'w, 'ks, 'k) tool_env \<Rightarrow> CMutableTransaction \<Rightarrow> string \<Rightarrow> CMutableTransaction res" where
  "MutateTxAddInput E tx strInput =
     rbind (split_colon ''TX input missing separator'' strInput) (\<lambda>(strTxid, strVout).
       if length strTxid \<noteq> 64 \<or> \<not> IsHex E strTxid then throw ''invalid TX input txid''
       else let txid = uint256S E strTxid; minTxOutSz = 9; maxVout = MAX_BLOCK_SIZE E div minTxOutSz;
                vout = atoi E strVout
            in if vout < 0 \<or> vout > int maxVout then throw ''invalid TX input vout''
               else Inr (tx\<lparr>vin := vin tx @ [\<lparr>prevout = \<lparr>op_hash = txid, op_n = word_of_int vout\<rparr>,
                          scriptSig = [], nSequence = SEQUENCE_FINAL E\<rparr>]\<rparr>))"

definition MutateTxAddOutAddr ::
    "('u, 'w, 'ks, 'k) tool_env \<Rightarrow> CMutableTransaction \<Rightarrow> string \<Rightarrow> CMutableTransaction res" where
  "MutateTxAddOutAddr E tx strInput =
     rbind (split_colon ''TX output missing separator'' strInput) (\<lambda>(strValue, strAddr).
       case ParseMoney E strValue of
         None \<Rightarrow> throw ''invalid TX output value''
       | Some value \<Rightarrow>
           if \<not> address_valid E strAddr then throw ''invalid TX output address''
           else Inr (tx\<lparr>vout := vout tx @ [\<lparr>nValue = value, scriptPubKey = script_for_address E strAddr\<rparr>]\<rparr>))"

text \<open>Without a colon \<open>pos\<close> is \<open>npos\<close>, and \<open>pos + 1\<close> wraps to 0: all of the input is data.\<close>

definition MutateTxAddOutData ::
    "('u, 'w, 'ks, 'k) tool_env \<Rightarrow> CMutableTransaction \<Rightarrow> string \<Rightarrow> CMutableTransaction res" where
  "MutateTxAddOutData E tx strInput =
     (let pos = str_find strInput (CHR '':'') in
      if pos = 0 then throw ''TX output value not specified''
      else rbind
        (if pos \<noteq> npos then
           rbind (str_substr strInput 0 pos) (\<lambda>strValue.
             case ParseMoney E strValue of None \<Rightarrow> throw ''invalid TX output value'' | Some v \<Rightarrow> Inr v)
         else Inr 0) (\<lambda>value.
      rbind (str_substr strInput (pos + 1) npos) (\<lambda>strData.
        if \<not> IsHex E strData then throw ''invalid TX output data''
        else rbind (push_opcode [] OP_RETURN) (\<lambda>s.
          Inr (tx\<lparr>vout := vout tx @ [\<lparr>nValue = value,
                 scriptPubKey = push_vch (le E) s (ParseHex E strData)\<rparr>]\<rparr>)))))"

definition MutateTxAddOutScript ::
    "('u, 'w, 'ks, 'k) tool_env \<Rightarrow> CMutableTransaction \<Rightarrow> string \<Rightarrow> CMutableTransaction res" where
  "MutateTxAddOutScript E tx strInput =
     (let pos = str_find strInput (CHR '':'') in
      if pos = npos \<or> pos = 0 then throw ''TX output missing separator''
      else rbind (str_substr strInput 0 pos) (\<lambda>strValue.
        case ParseMoney E strValue of
          None \<Rightarrow> throw ''invalid TX output value''
        | Some value \<Rightarrow>
            rbind (str_substr strInput (pos + 1) npos) (\<lambda>strScript.
            rbind (ParseScript E strScript) (\<lambda>script.
              Inr (tx\<lparr>vout := vout tx @ [\<lparr>nValue = value, scriptPubKey = script\<rparr>]\<rparr>)))))"

definition erase_at :: "'a list \<Rightarrow> nat \<Rightarrow> 'a list" where
  "erase_at xs i = take i xs @ drop (Suc i) xs"

definition MutateTxDelInput ::
    "('u, 'w, 'ks, 'k) tool_env \<Rightarrow> CMutableTransaction \<Rightarrow> string \<Rightarrow> CMutableTransaction res" where
  "MutateTxDelInput E tx strInIdx =
     (let inIdx = atoi E strInIdx in
      if inIdx < 0 \<or> inIdx \<ge> int (length (vin tx))
      then throw (''Invalid TX input index '' @ [CHR 0x27] @ strInIdx @ [CHR 0x27])
      else Inr (tx\<lparr>vin := erase_at (vin tx) (nat inIdx)\<rparr>))"

definition MutateTxDelOutput ::
    "('u, 'w, 'ks, 'k) tool_env \<Rightarrow> CMutableTransaction \<Rightarrow> string \<Rightarrow> CMutableTransaction res" where
  "MutateTxDelOutput E tx strOutIdx =
     (let outIdx = atoi E strOutIdx in
      if outIdx < 0 \<or> outIdx \<ge> int (length (vout tx))
      then throw (''Invalid TX output index '' @ [CHR 0x27] @ strOutIdx @ [CHR 0x27])
      else Inr (tx\<lparr>vout := erase_at (vout tx) (nat outIdx)\<rparr>))"

section \<open>Signing\<close>

definition sighashOptions :: "(string \<times> int) list" where
  "sighashOptions = [
     (''ALL'', SIGHASH_ALL), (''NONE'', SIGHASH_NONE), (''SINGLE'', SIGHASH_SINGLE),
     (''ALL|ANYONECANPAY'', SIGHASH_ALL OR SIGHASH_ANYONECANPAY),
     (''NONE|ANYONECANPAY'', SIGHASH_NONE OR SIGHASH_ANYONECANPAY),
     (''SINGLE|ANYONECANPAY'', SIGHASH_SINGLE OR SIGHASH_ANYONECANPAY)]"

fun find_flags :: "(string \<times> int) list \<Rightarrow> string \<Rightarrow> bool \<times> int" where
  "find_flags [] flagStr = (False, 0)"
| "find_flags ((s, f) # opts) flagStr = (if flagStr = s then (True, f) else find_flags opts flagStr)"

definition findSighashFlags :: "string \<Rightarrow> bool \<times> int" where
  "findSighashFlags flagStr = find_flags sighashOptions flagStr"

definition ParseHashUO ::
    "('u, 'w, 'ks, 'k) tool_env \<Rightarrow> 'u registers \<Rightarrow> string \<Rightarrow> uint256 res" where
  "ParseHashUO E obj strKey =
     (case smap_find obj strKey of None \<Rightarrow> Inr 0 | Some v \<Rightarrow> ParseHashUV E v strKey)"

definition ParseHexUO ::
    "('u, 'w, 'ks, 'k) tool_env \<Rightarrow> 'u registers \<Rightarrow> string \<Rightarrow> byte list res" where
  "ParseHexUO E obj strKey =
     (case smap_find obj strKey of None \<Rightarrow> Inr [] | Some v \<Rightarrow> ParseHexUV E v strKey)"

text \<open>The private keys: \<open>keys_loop E keysObj ks kidx\<close> handles the keys from \<open>kidx\<close> on.\<close>

function keys_loop :: "('u, 'w, 'ks, 'k) tool_env \<Rightarrow> 'u \<Rightarrow> 'ks \<Rightarrow> nat \<Rightarrow> 'ks res" where
  "keys_loop E keysObj tempKeystore kidx =
     (if kidx < uv_size E keysObj then
        (if \<not> uv_isStr E (uv_at E keysObj kidx) then throw ''privatekey not a string''
         else case secret_key E (uv_str E (uv_at E keysObj kidx)) of
           None \<Rightarrow> throw ''privatekey not valid''
         | Some key \<Rightarrow> keys_loop E keysObj (ks_add E tempKeystore key) (kidx + 1))
      else Inr tempKeystore)"
  by pat_completeness auto
termination
  by (relation "measure (\<lambda>(E, u, ks, kidx). uv_size E u - kidx)") auto

declare keys_loop.simps [simp del]

definition resize_outs :: "CTxOut \<Rightarrow> CTxOut list \<Rightarrow> nat \<Rightarrow> CTxOut list" where
  "resize_outs null outs n = take n outs @ replicate (n - length outs) null"

text \<open>One previous output: check it, enter it in the view, and add its redeem script.\<close>

definition add_prevout ::
    "('u, 'w, 'ks, 'k) tool_env \<Rightarrow> 'u \<Rightarrow> 'w \<Rightarrow> 'ks \<Rightarrow> ('w \<times> 'ks) res" where
  "add_prevout E prevOut view tempKeystore =
     (if \<not> uv_isObject E prevOut then throw ''expected prevtxs internal object''
      else if \<not> uv_checkObject E prevOut
               [(''txid'', ''VSTR''), (''vout'', ''VNUM''), (''scriptPubKey'', ''VSTR'')]
        then throw ''prevtxs internal object typecheck fail''
      else rbind (ParseHashUV E (uv_key E prevOut ''txid'') ''txid'') (\<lambda>txid.
        let nOut = atoi E (uv_str E (uv_key E prevOut ''vout'')) in
        if nOut < 0 then throw ''vout must be positive''
        else rbind (ParseHexUV E (uv_key E prevOut ''scriptPubKey'') ''scriptPubKey'') (\<lambda>script.
          let coins = ModifyCoins E view txid; n = nat nOut in
          if IsAvailable E coins n \<and> scriptPubKey (coins ! n) \<noteq> script
          then throw (''Previous output scriptPubKey mismatch:'' @ [CHR 0x0A] @
                 ScriptToAsmStr E (scriptPubKey (coins ! n)) @ [CHR 0x0A] @ ''vs:'' @ [CHR 0x0A] @
                 ScriptToAsmStr E script)
          else if nOut = i32_max \<and> length coins \<le> n then Inl SignedOverflow
          else let coins = (if length coins \<le> n then resize_outs (null_out E) coins (n + 1) else coins);
                   coins = coins[n := \<lparr>nValue = 0, scriptPubKey = script\<rparr>];
                   view = view_set E view txid coins
               in if IsPayToScriptHash E script \<and> uv_exists E prevOut ''redeemScript''
                  then rbind (ParseHexUV E (uv_key E prevOut ''redeemScript'') ''redeemScript'') (\<lambda>rsData.
                    Inr (view, ks_add_script E tempKeystore rsData))
                  else Inr (view, tempKeystore))))"

function prevs_loop ::
    "('u, 'w, 'ks, 'k) tool_env \<Rightarrow> 'u \<Rightarrow> 'w \<Rightarrow> 'ks \<Rightarrow> nat \<Rightarrow> ('w \<times> 'ks) res" where
  "prevs_loop E prevtxsObj view tempKeystore previdx =
     (if previdx < uv_size E prevtxsObj then
        rbind (add_prevout E (uv_at E prevtxsObj previdx) view tempKeystore) (\<lambda>(view, tempKeystore).
          prevs_loop E prevtxsObj view tempKeystore (previdx + 1))
      else Inr (view, tempKeystore))"
  by pat_completeness auto
termination
  by (relation "measure (\<lambda>(E, u, w, ks, i). uv_size E u - i)") auto

declare prevs_loop.simps [simp del]

definition set_sig :: "CMutableTransaction \<Rightarrow> nat \<Rightarrow> CScript \<Rightarrow> CMutableTransaction" where
  "set_sig tx i s = tx\<lparr>vin := (vin tx)[i := (vin tx ! i)\<lparr>scriptSig := s\<rparr>]\<rparr>"

text \<open>
  The loop that signs: \<open>tx0\<close> is the original transaction, the only variant; \<open>fComplete\<close> is
  computed but not used by the code.
\<close>

function sign_loop ::
    "('u, 'w, 'ks, 'k) tool_env \<Rightarrow> 'ks \<Rightarrow> 'w \<Rightarrow> int \<Rightarrow> CMutableTransaction \<Rightarrow> CMutableTransaction \<Rightarrow> bool \<Rightarrow>
     nat \<Rightarrow> CMutableTransaction \<times> bool" where
  "sign_loop E keystore view nHashType tx0 mergedTx fComplete i =
     (if i < length (vin mergedTx) then
        (let out = prevout (vin mergedTx ! i) in
         case AccessCoins E view (op_hash out) of
           None \<Rightarrow> sign_loop E keystore view nHashType tx0 mergedTx False (i + 1)
         | Some coins \<Rightarrow>
             if \<not> IsAvailable E coins (unat (op_n out))
             then sign_loop E keystore view nHashType tx0 mergedTx False (i + 1)
             else let prevPubKey = scriptPubKey (coins ! unat (op_n out));
                      fHashSingle = (nHashType AND NOT SIGHASH_ANYONECANPAY = SIGHASH_SINGLE);
                      mergedTx = set_sig mergedTx i [];
                      mergedTx = (if \<not> fHashSingle \<or> i < length (vout mergedTx)
                        then set_sig mergedTx i (SignSignature E keystore prevPubKey mergedTx i nHashType)
                        else mergedTx);
                      mergedTx = set_sig mergedTx i (CombineSignatures E prevPubKey mergedTx i
                        (scriptSig (vin mergedTx ! i)) (scriptSig (vin tx0 ! i)));
                      fComplete = (fComplete \<and> VerifyScript E (scriptSig (vin mergedTx ! i)) prevPubKey mergedTx i)
                  in sign_loop E keystore view nHashType tx0 mergedTx fComplete (i + 1))
      else (mergedTx, fComplete))"
  by pat_completeness auto
termination
  by (relation "measure (\<lambda>(E, ks, w, h, t0, t, f, i). length (vin t) - i)")
     (auto simp: set_sig_def Let_def)

declare sign_loop.simps [simp del]

definition MutateTxSign ::
    "('u, 'w, 'ks, 'k) tool_env \<Rightarrow> 'u registers \<Rightarrow> CMutableTransaction \<Rightarrow> string \<Rightarrow> CMutableTransaction res" where
  "MutateTxSign E regs tx flagStr =
     rbind (if 0 < length flagStr then
              (let (ok, flags) = findSighashFlags flagStr in
               if ok then Inr flags else throw ''unknown sighash flag/sign option'')
            else Inr SIGHASH_ALL) (\<lambda>nHashType.
     case smap_find regs ''privatekeys'' of
       None \<Rightarrow> throw ''privatekeys register variable must be set.''
     | Some keysObj \<Rightarrow>
         rbind (keys_loop E keysObj (ks_empty E) 0) (\<lambda>tempKeystore.
         case smap_find regs ''prevtxs'' of
           None \<Rightarrow> throw ''prevtxs register variable must be set.''
         | Some prevtxsObj \<Rightarrow>
             rbind (prevs_loop E prevtxsObj (view_empty E) tempKeystore 0) (\<lambda>(view, keystore).
               Inr (fst (sign_loop E keystore view nHashType tx tx True 0)))))"

section \<open>Dispatch and driver\<close>

definition MutateTx ::
    "('u, 'w, 'ks, 'k) tool_env \<Rightarrow> CMutableTransaction \<times> 'u registers \<Rightarrow> string \<Rightarrow> string \<Rightarrow>
     (CMutableTransaction \<times> 'u registers) res" where
  "MutateTx E st command commandVal =
     (let (tx, regs) = st;
          on_tx = (\<lambda>r. rbind r (\<lambda>tx. Inr (tx, regs)));
          on_regs = (\<lambda>r. rbind r (\<lambda>regs. Inr (tx, regs)))
      in if command = ''nversion'' then on_tx (MutateTxVersion E tx commandVal)
      else if command = ''locktime'' then on_tx (MutateTxLocktime E tx commandVal)
      else if command = ''delin'' then on_tx (MutateTxDelInput E tx commandVal)
      else if command = ''in'' then on_tx (MutateTxAddInput E tx commandVal)
      else if command = ''delout'' then on_tx (MutateTxDelOutput E tx commandVal)
      else if command = ''outaddr'' then on_tx (MutateTxAddOutAddr E tx commandVal)
      else if command = ''outdata'' then on_tx (MutateTxAddOutData E tx commandVal)
      else if command = ''outscript'' then on_tx (MutateTxAddOutScript E tx commandVal)
      else if command = ''sign'' then on_tx (MutateTxSign E regs tx commandVal)
      else if command = ''load'' then on_regs (RegisterLoad E commandVal regs)
      else if command = ''set'' then on_regs (RegisterSet E commandVal regs)
      else throw ''unknown command'')"

datatype printed = Stdout string | Stderr string

definition OutputTxJSON :: "('u, 'w, 'ks, 'k) tool_env \<Rightarrow> CMutableTransaction \<Rightarrow> printed list" where
  "OutputTxJSON E tx = [Stdout (tx_json E tx @ [CHR 0x0A])]"

definition OutputTxHash :: "('u, 'w, 'ks, 'k) tool_env \<Rightarrow> CMutableTransaction \<Rightarrow> printed list" where
  "OutputTxHash E tx = [Stdout (tx_hash_hex E tx @ [CHR 0x0A])]"

definition OutputTxHex :: "('u, 'w, 'ks, 'k) tool_env \<Rightarrow> CMutableTransaction \<Rightarrow> printed list" where
  "OutputTxHex E tx = [Stdout (EncodeHexTx E tx @ [CHR 0x0A])]"

definition OutputTx :: "('u, 'w, 'ks, 'k) tool_env \<Rightarrow> CMutableTransaction \<Rightarrow> printed list" where
  "OutputTx E tx =
     (if bool_arg E ''-json'' then OutputTxJSON E tx
      else if bool_arg E ''-txid'' then OutputTxHash E tx
      else OutputTxHex E tx)"

function stdin_loop :: "string \<Rightarrow> string \<Rightarrow> string" where
  "stdin_loop rest ret =
     (let (buf, rest, ended) = fread 4096 rest in
      if length buf < 4096 then ret @ buf
      else if ended then ret @ buf else stdin_loop rest (ret @ buf))"
  by pat_completeness auto
termination
  by (relation "measure (\<lambda>(rest, v). length rest)") (auto simp: fread_def)

declare stdin_loop.simps [simp del]

definition readStdin :: "('u, 'w, 'ks, 'k) tool_env \<Rightarrow> string res" where
  "readStdin E =
     (let (contents, fails) = stdin E; ret = stdin_loop contents [] in
      if fails then throw ''error reading stdin'' else Inr (trim_right E ret))"

text \<open>Leading switches are skipped; a lone dash is not a switch.\<close>

fun skip_switches :: "('u, 'w, 'ks, 'k) tool_env \<Rightarrow> string list \<Rightarrow> string list" where
  "skip_switches E [] = []"
| "skip_switches E (a # args) =
     (case a of c # _ # _ \<Rightarrow> if IsSwitchChar E c then skip_switches E args else a # args
              | _ \<Rightarrow> a # args)"

definition split_arg :: "string \<Rightarrow> (string \<times> string) res" where
  "split_arg arg =
     (let eqpos = str_find arg (CHR ''='') in
      if eqpos = npos then Inr (arg, [])
      else rbind (str_substr arg 0 eqpos) (\<lambda>key.
           rbind (str_substr arg (eqpos + 1) npos) (\<lambda>value. Inr (key, value))))"

fun run_commands ::
    "('u, 'w, 'ks, 'k) tool_env \<Rightarrow> string list \<Rightarrow> CMutableTransaction \<times> 'u registers \<Rightarrow>
     (CMutableTransaction \<times> 'u registers) res" where
  "run_commands E [] st = Inr st"
| "run_commands E (arg # args) st =
     rbind (split_arg arg) (\<lambda>(key, value).
     rbind (MutateTx E st key value) (\<lambda>st. run_commands E args st))"

definition EXIT_SUCCESS :: int where "EXIT_SUCCESS = 0"
definition EXIT_FAILURE :: int where "EXIT_FAILURE = 1"
definition CONTINUE_EXECUTION :: int where "CONTINUE_EXECUTION = -1"

text \<open>
  \<open>CommandLineRawTx\<close> on the arguments behind the program name: the exit code and the output.
  A thrown exception is reported; undefined behaviour is an error of the model.
\<close>

definition raw_tx_body ::
    "('u, 'w, 'ks, 'k) tool_env \<Rightarrow> bool \<Rightarrow> string list \<Rightarrow> printed list res" where
  "raw_tx_body E fCreateBlank args =
     (let args = skip_switches E args in
      rbind
        (if \<not> fCreateBlank then
           (case args of
              [] \<Rightarrow> throw ''too few parameters''
            | strHexTx # rest \<Rightarrow>
                rbind (if strHexTx = ''-'' then readStdin E else Inr strHexTx) (\<lambda>strHexTx.
                case DecodeHexTx E strHexTx of
                  None \<Rightarrow> throw ''invalid transaction encoding''
                | Some tx \<Rightarrow> Inr (tx, rest)))
         else Inr (empty_tx E, args)) (\<lambda>(tx, cmds).
      rbind (run_commands E cmds (tx, [])) (\<lambda>(tx, regs). Inr (OutputTx E tx))))"

definition CommandLineRawTx ::
    "('u, 'w, 'ks, 'k) tool_env \<Rightarrow> bool \<Rightarrow> string list \<Rightarrow> (int \<times> printed list) res" where
  "CommandLineRawTx E fCreateBlank args =
     (case raw_tx_body E fCreateBlank args of
        Inr out \<Rightarrow> Inr (0, out)
      | Inl (Thrown what) \<Rightarrow> Inr (EXIT_FAILURE, [Stderr (''error: '' @ what @ [CHR 0x0A])])
      | Inl e \<Rightarrow> Inl e)"

section \<open>Start-up and \<open>main\<close>\<close>

definition usage_head :: "('u, 'w, 'ks, 'k) tool_env \<Rightarrow> string" where
  "usage_head E =
     ''Chainxd Core chainx-tx utility version'' @ '' '' @ FormatFullVersion E @ [CHR 0x0A, CHR 0x0A] @
     ''Usage:'' @ [CHR 0x0A] @
     ''  chainx-tx [options] <hex-tx> [commands]  '' @ ''Update hex-encoded chainx transaction'' @ [CHR 0x0A] @
     ''  chainx-tx [options] -create [commands]   '' @ ''Create hex-encoded chainx transaction'' @ [CHR 0x0A] @
     [CHR 0x0A]"

definition option_help :: "('u, 'w, 'ks, 'k) tool_env \<Rightarrow> string" where
  "option_help E =
     HelpMessageGroup E ''Options:'' @
     concat (map (\<lambda>(opt, msg). HelpMessageOpt E opt msg) [
       (''-?'', ''This help message''),
       (''-create'', ''Create new, empty TX.''),
       (''-json'', ''Select JSON output''),
       (''-txid'', ''Output only the hex-encoded transaction id of the resultant transaction.'')]) @
     params_help E"

definition command_help :: "('u, 'w, 'ks, 'k) tool_env \<Rightarrow> string" where
  "command_help E =
     HelpMessageGroup E ''Commands:'' @
     concat (map (\<lambda>(opt, msg). HelpMessageOpt E opt msg) [
       (''delin=N'', ''Delete input N from TX''),
       (''delout=N'', ''Delete output N from TX''),
       (''in=TXID:VOUT'', ''Add input to TX''),
       (''locktime=N'', ''Set TX lock time to N''),
       (''nversion=N'', ''Set TX version to N''),
       (''outaddr=VALUE:ADDRESS'', ''Add address-based output to TX''),
       (''outdata=[VALUE:]DATA'', ''Add data-based output to TX''),
       (''outscript=VALUE:SCRIPT'', ''Add raw script output to TX''),
       (''sign=SIGHASH-FLAGS'', ''Add zero or more signatures to transaction'' @ ''. '' @
          ''This command requires JSON registers:'' @ ''prevtxs=JSON object'' @ '', '' @
          ''privatekeys=JSON object'' @ ''. '' @
          ''See signrawtransaction docs for format of sighash flags, JSON objects.'')])"

definition register_help :: "('u, 'w, 'ks, 'k) tool_env \<Rightarrow> string" where
  "register_help E =
     HelpMessageGroup E ''Register Commands:'' @
     concat (map (\<lambda>(opt, msg). HelpMessageOpt E opt msg) [
       (''load=NAME:FILENAME'', ''Load JSON file FILENAME into register NAME''),
       (''set=NAME:JSON-STRING'', ''Set register NAME to given JSON-STRING'')])"

text \<open>
  \<open>AppInitRawTx\<close> on the arguments with the program name: exit code, \<open>fCreateBlank\<close> (as it
  was when the chain selection fails) and what it prints.
\<close>

definition AppInitRawTx ::
    "('u, 'w, 'ks, 'k) tool_env \<Rightarrow> string list \<Rightarrow> bool \<Rightarrow> (int \<times> bool \<times> printed list) res" where
  "AppInitRawTx E argv fCreateBlank =
     (case SelectParams E of
        Inl (Thrown what) \<Rightarrow>
          Inr (EXIT_FAILURE, fCreateBlank, [Stderr (''Error: '' @ what @ [CHR 0x0A])])
      | Inl e \<Rightarrow> Inl e
      | Inr _ \<Rightarrow>
          let fCreateBlank = bool_arg E ''-create'' in
          if length argv < 2 \<or> has_arg E ''-?'' \<or> has_arg E ''-h'' \<or> has_arg E ''-help'' then
            let help = [Stdout (usage_head E), Stdout (option_help E), Stdout (command_help E),
                        Stdout (register_help E)] in
            if length argv < 2
            then Inr (EXIT_FAILURE, fCreateBlank, help @ [Stderr (''Error: too few parameters'' @ [CHR 0x0A])])
            else Inr (EXIT_SUCCESS, fCreateBlank, help)
          else Inr (CONTINUE_EXECUTION, fCreateBlank, []))"

definition tool_main ::
    "('u, 'w, 'ks, 'k) tool_env \<Rightarrow> string list \<Rightarrow> (int \<times> printed list) res" where
  "tool_main E argv =
     rbind (AppInitRawTx E argv False) (\<lambda>(ret, fCreateBlank, out).
       if ret \<noteq> CONTINUE_EXECUTION then Inr (ret, out)
       else rbind (CommandLineRawTx E fCreateBlank (tl argv)) (\<lambda>(ret, out'). Inr (ret, out @ out')))"

section \<open>Lemmas\<close>

lemma find_at_found:
  "c \<notin> set pre \<Longrightarrow> find_at c (pre @ c # rest) i = of_nat (i + length pre)"
  by (induction pre arbitrary: i) auto

lemma find_at_none: "c \<notin> set s \<Longrightarrow> find_at c s i = npos"
  by (induction s arbitrary: i) auto

lemma unat_npos: "unat npos = 18446744073709551615"
  by (simp add: npos_def unsigned_minus_1_eq_mask mask_eq_exp_minus_1)

lemma of_nat_small: "n < 18446744073709551615 \<Longrightarrow> of_nat n \<noteq> npos \<and> unat (of_nat n :: u64) = n"
proof -
  assume n: "n < 18446744073709551615"
  then have u: "unat (of_nat n :: u64) = n" by (simp add: unsigned_of_nat take_bit_nat_eq_self)
  then show ?thesis using n unat_npos by auto
qed

lemma substr_tail: "length s < 18446744073709551615 \<Longrightarrow> n \<le> length s \<Longrightarrow>
    str_substr s (of_nat n) npos = Inr (drop n s)"
  using of_nat_small [of n] by (simp add: str_substr_def unat_npos)

lemma substr_head: "length s < 18446744073709551615 \<Longrightarrow> n \<le> length s \<Longrightarrow>
    str_substr s 0 (of_nat n) = Inr (take n s)"
  using of_nat_small [of n] by (simp add: str_substr_def)

text \<open>Splitting at the first colon, for an input of representable length.\<close>

lemma split_colon_ok:
  assumes "CHR '':'' \<notin> set key" "key \<noteq> []" "val \<noteq> []"
    and "length (key @ CHR '':'' # val) < 18446744073709551615"
  shows "split_colon msg (key @ CHR '':'' # val) = Inr (key, val)"
proof -
  let ?s = "key @ CHR '':'' # val"
  have f: "str_find ?s (CHR '':'') = of_nat (length key)"
    using find_at_found [OF assms(1), of val 0] by (simp add: str_find_def)
  have k: "length key < 18446744073709551615" using assms(4) by simp
  note sm = of_nat_small [OF k]
  have nz: "(of_nat (length key) :: u64) \<noteq> 0"
    using sm assms(2) by (metis length_0_conv unat_0)
  have "(of_nat (length ?s) - 1 :: u64) = of_nat (length key + length val)" by simp
  moreover have "unat (of_nat (length key + length val) :: u64) = length key + length val"
    using of_nat_small [of "length key + length val"] assms(4) by simp
  ultimately have last: "(of_nat (length key) :: u64) \<noteq> of_nat (length ?s) - 1"
    using sm assms(3) by (metis add_cancel_left_right length_0_conv)
  have "str_substr ?s 0 (of_nat (length key)) = Inr key"
    using substr_head [OF assms(4), of "length key"] by simp
  moreover have "str_substr ?s (of_nat (length key) + 1) npos = Inr val"
    using substr_tail [OF assms(4), of "Suc (length key)"] by (simp add: add.commute)
  ultimately show ?thesis using f sm nz last by (simp add: split_colon_def Let_def)
qed

lemma fread_loop: "read_loop rest v = v @ rest"
proof (induction rest v rule: read_loop.induct)
  case (1 rest v)
  show ?case
  proof (cases "rest = [] \<or> length rest < 4096")
    case True
    then show ?thesis by (subst read_loop.simps) (auto simp: fread_def)
  next
    case False
    then have "read_loop (drop 4096 rest) (v @ take 4096 rest) = (v @ take 4096 rest) @ drop 4096 rest"
      by (intro "1" [of "(take 4096 rest, drop 4096 rest, False)" "take 4096 rest" "(drop 4096 rest, False)"])
         (auto simp: fread_def)
    then show ?thesis using False by (subst read_loop.simps) (auto simp: fread_def Let_def)
  qed
qed

lemma stdin_loop_all: "stdin_loop rest v = v @ rest"
proof (induction rest v rule: stdin_loop.induct)
  case (1 rest v)
  show ?case
  proof (cases "length rest < 4096")
    case True
    then show ?thesis by (subst stdin_loop.simps) (auto simp: fread_def)
  next
    case False
    then have "stdin_loop (drop 4096 rest) (v @ take 4096 rest) = (v @ take 4096 rest) @ drop 4096 rest"
      by (intro "1" [of "(take 4096 rest, drop 4096 rest, False)" "take 4096 rest" "(drop 4096 rest, False)"])
         (auto simp: fread_def)
    then show ?thesis using False by (subst stdin_loop.simps) (auto simp: fread_def Let_def)
  qed
qed

text \<open>What signing may change: nothing but the signature scripts of the inputs.\<close>

definition unsigned_part :: "CMutableTransaction \<Rightarrow> int \<times> (COutPoint \<times> u32) list \<times> CTxOut list \<times> u32" where
  "unsigned_part tx = (nVersion tx, map (\<lambda>i. (prevout i, nSequence i)) (vin tx), vout tx, nLockTime tx)"

lemma unsigned_set_sig [simp]: "unsigned_part (set_sig tx i s) = unsigned_part tx"
proof (cases "i < length (vin tx)")
  case True
  have "map (\<lambda>i. (prevout i, nSequence i)) ((vin tx)[i := (vin tx ! i)\<lparr>scriptSig := s\<rparr>]) =
        map (\<lambda>i. (prevout i, nSequence i)) (vin tx)"
    using True by (simp add: map_update list_update_same_conv)
  then show ?thesis by (simp add: unsigned_part_def set_sig_def)
qed (simp add: unsigned_part_def set_sig_def list_update_beyond)

lemma vin_set_sig: "vin (set_sig tx i s) ! j = (if j = i \<and> i < length (vin tx) then (vin tx ! i)\<lparr>scriptSig := s\<rparr> else vin tx ! j)"
  by (cases "i < length (vin tx)") (simp_all add: set_sig_def nth_list_update list_update_beyond)

lemma length_set_sig [simp]: "length (vin (set_sig tx i s)) = length (vin tx)"
  by (simp add: set_sig_def)

lemma sign_loop_unsigned: "unsigned_part (fst (sign_loop E ks w h tx0 tx f i)) = unsigned_part tx"
proof (induction E ks w h tx0 tx f i rule: sign_loop.induct)
  case (1 E ks w h tx0 tx f i)
  then show ?case by (subst sign_loop.simps) (simp add: Let_def split: option.split)
qed

section \<open>A concrete environment\<close>

text \<open>
  Simple functions in place of the libraries, for the examples: a number is its length in
  unary, every text is hexadecimal, the codes of its characters are its bytes, no key signs.
\<close>

definition demo_env :: "(string, unit, unit, unit) tool_env" where
  "demo_env = \<lparr>le = le_reference, atoi = (\<lambda>s. int (length s)), atoi64 = (\<lambda>s. int (length s)),
     CURRENT_VERSION = 2, MAX_BLOCK_SIZE = 1000000, SEQUENCE_FINAL = 0xffffffff,
     IsHex = (\<lambda>s. True), ParseHex = map (\<lambda>c. of_nat (of_char c)), uint256S = (\<lambda>s. of_nat (length s)),
     ParseMoney = (\<lambda>s. Some (of_nat (length s))), address_valid = (\<lambda>s. True),
     script_for_address = (\<lambda>s. []), ParseScript = (\<lambda>s. Inr []),
     uv_read = Some, uv_size = (\<lambda>u. 0), uv_at = (\<lambda>u i. u), uv_key = (\<lambda>u k. u), uv_exists = (\<lambda>u k. False),
     uv_isStr = (\<lambda>u. True), uv_isObject = (\<lambda>u. True), uv_str = (\<lambda>u. u), uv_checkObject = (\<lambda>u ts. True),
     ParseHashUV = (\<lambda>u k. Inr 0), ParseHexUV = (\<lambda>u k. Inr []), secret_key = (\<lambda>s. Some ()),
     ks_empty = (), ks_add = (\<lambda>ks k. ()), ks_add_script = (\<lambda>ks s. ()),
     view_empty = (), ModifyCoins = (\<lambda>w h. []), view_set = (\<lambda>w h cs. ()),
     AccessCoins = (\<lambda>w h. Some [\<lparr>nValue = 0, scriptPubKey = []\<rparr>]), IsAvailable = (\<lambda>cs n. n < length cs),
     null_out = \<lparr>nValue = -1, scriptPubKey = []\<rparr>, IsPayToScriptHash = (\<lambda>s. False), ScriptToAsmStr = (\<lambda>s. []),
     SignSignature = (\<lambda>ks s tx i h. [1]), CombineSignatures = (\<lambda>s tx i a b. a), VerifyScript = (\<lambda>a b tx i. True),
     fopen = (\<lambda>f. Some (''{}'', False)), stdin = ([], False), trim_right = (\<lambda>s. s),
     IsSwitchChar = (\<lambda>c. c = CHR ''-''), DecodeHexTx = (\<lambda>s. None),
     empty_tx = \<lparr>nVersion = 1, vin = [], vout = [], nLockTime = 0\<rparr>, EncodeHexTx = (\<lambda>tx. ''00''),
     tx_json = (\<lambda>tx. ''{}''), tx_hash_hex = (\<lambda>tx. ''0''), bool_arg = (\<lambda>s. False), has_arg = (\<lambda>s. False),
     SelectParams = Inr (), FormatFullVersion = ''v'', HelpMessageGroup = (\<lambda>s. s),
     HelpMessageOpt = (\<lambda>a b. a), params_help = []\<rparr>"

definition demo_in :: CTxIn where
  "demo_in = \<lparr>prevout = \<lparr>op_hash = 5, op_n = 0\<rparr>, scriptSig = [], nSequence = 0\<rparr>"

definition demo_tx :: CMutableTransaction where
  "demo_tx = \<lparr>nVersion = 1, vin = [demo_in], vout = [], nLockTime = 0\<rparr>"

section \<open>Properties\<close>

text \<open>
  C37: Signing changes nothing but signatures. If the \<open>sign\<close> command succeeds, the transaction
  has the same version, lock time and outputs, and the same inputs but for their
  \<open>scriptSig\<close>; and it changes no register.
\<close>

theorem sign_changes_only_signatures:
  assumes "MutateTx E (tx, regs) ''sign'' flagStr = Inr (tx', regs')"
  shows "regs' = regs \<and> nVersion tx' = nVersion tx \<and> nLockTime tx' = nLockTime tx \<and> vout tx' = vout tx \<and>
    map (\<lambda>i. (prevout i, nSequence i)) (vin tx') = map (\<lambda>i. (prevout i, nSequence i)) (vin tx)"
proof -
  have m: "MutateTxSign E regs tx flagStr = Inr tx'" "regs' = regs"
    using assms by (auto simp: MutateTx_def rbind_Inr_iff)
  then obtain h ks w where "tx' = fst (sign_loop E ks w h tx tx True 0)"
    by (auto simp: MutateTxSign_def rbind_Inr_iff throw_def Let_def split: option.splits if_splits prod.splits)
  then have "unsigned_part tx' = unsigned_part tx" by (simp add: sign_loop_unsigned)
  then show ?thesis using m(2) by (simp add: unsigned_part_def)
qed

theorem sign_changes_only_signatures_witness:
  "\<exists>tx'. MutateTx demo_env (demo_tx, [(''prevtxs'', ''''), (''privatekeys'', '''')]) ''sign'' ''ALL'' =
      Inr (tx', [(''prevtxs'', ''''), (''privatekeys'', '''')]) \<and>
    vin tx' = [demo_in\<lparr>scriptSig := [1]\<rparr>] \<and> vout tx' = vout demo_tx"
proof -
  let ?regs = "[(''prevtxs'', ''''), (''privatekeys'', '''')]"
  let ?tx = "demo_tx\<lparr>vin := [demo_in\<lparr>scriptSig := [1]\<rparr>]\<rparr>"
  have k: "keys_loop demo_env u ks 0 = Inr ks" for u ks
    by (subst keys_loop.simps) (simp add: demo_env_def)
  have p: "prevs_loop demo_env u w ks 0 = Inr (w, ks)" for u w ks
    by (subst prevs_loop.simps) (simp add: demo_env_def)
  have f: "findSighashFlags ''ALL'' = (True, 1)"
    by (simp add: findSighashFlags_def sighashOptions_def SIGHASH_ALL_def)
  have s: "sign_loop demo_env ks w 1 demo_tx demo_tx True 0 = (?tx, True)" for ks w
    by (subst sign_loop.simps, subst sign_loop.simps)
       (simp add: demo_env_def demo_tx_def demo_in_def set_sig_def SIGHASH_ANYONECANPAY_def SIGHASH_SINGLE_def)
  have m: "MutateTx demo_env (demo_tx, ?regs) ''sign'' ''ALL'' = Inr (?tx, ?regs)"
    by (simp add: MutateTx_def MutateTxSign_def k p f s)
  show ?thesis using sign_changes_only_signatures [OF m] m by simp
qed

lemma erase_last: "erase_at (xs @ [x]) (length xs) = xs"
  by (simp add: erase_at_def)

text \<open>
  Deleting the input or output that was just added restores the transaction, for every
  command that adds one.
\<close>

theorem add_then_delete:
  assumes "MutateTxAddInput E tx a = Inr tx1"
    and "MutateTxAddOutAddr E tx b = Inr tx2 \<or> MutateTxAddOutData E tx b = Inr tx2 \<or>
         MutateTxAddOutScript E tx b = Inr tx2"
    and "atoi E i = int (length (vin tx))" "atoi E j = int (length (vout tx))"
  shows "MutateTxDelInput E tx1 i = Inr tx \<and> MutateTxDelOutput E tx2 j = Inr tx"
proof
  obtain x where "tx1 = tx\<lparr>vin := vin tx @ [x]\<rparr>"
    using assms(1) by (auto simp: MutateTxAddInput_def rbind_Inr_iff throw_def Let_def split: if_splits)
  then show "MutateTxDelInput E tx1 i = Inr tx"
    using assms(3) by (simp add: MutateTxDelInput_def erase_last)
  obtain y where "tx2 = tx\<lparr>vout := vout tx @ [y]\<rparr>"
    using assms(2)
    by (auto simp: MutateTxAddOutAddr_def MutateTxAddOutData_def MutateTxAddOutScript_def rbind_Inr_iff
        throw_def Let_def split: if_splits option.splits)
  then show "MutateTxDelOutput E tx2 j = Inr tx"
    using assms(4) by (simp add: MutateTxDelOutput_def erase_last)
qed

text \<open>
  \<open>load\<close> is \<open>set\<close> with the contents of the file, however many chunks the file is read
  in: for a readable file with those contents both commands end in the same registers, or in
  the same error.
\<close>

theorem load_is_set:
  assumes "fopen E file = Some (contents, False)" "contents \<noteq> []"
    and "CHR '':'' \<notin> set key" "key \<noteq> []" "file \<noteq> []"
    and "length (key @ CHR '':'' # file) < 18446744073709551615"
    and "length (key @ CHR '':'' # contents) < 18446744073709551615"
  shows "MutateTx E st ''load'' (key @ CHR '':'' # file) = MutateTx E st ''set'' (key @ CHR '':'' # contents)"
  using split_colon_ok [OF assms(3,4,5,6)] split_colon_ok [OF assms(3,4,2,7)] assms(1)
  by (simp add: MutateTx_def RegisterLoad_def RegisterSet_def fread_loop split: prod.split)

theorem load_is_set_witness:
  "MutateTx demo_env (demo_tx, []) ''load'' ''k:f'' = MutateTx demo_env (demo_tx, []) ''set'' ''k:{}''"
proof -
  have "MutateTx demo_env (demo_tx, []) ''load'' (''k'' @ CHR '':'' # ''f'') =
        MutateTx demo_env (demo_tx, []) ''set'' (''k'' @ CHR '':'' # ''{}'')"
    by (rule load_is_set) (simp_all add: demo_env_def)
  then show ?thesis by simp
qed

text \<open>
  A data output without a value. When the argument has no colon, all of it is the data,
  the output has value 0, its script is unspendable and reads back as \<open>OP_RETURN\<close> followed by
  a push of exactly the decoded data.
\<close>

theorem outdata_reads_back:
  assumes "le_io_ok (le E)" "CHR '':'' \<notin> set arg" "IsHex E arg" "length arg < 18446744073709551615"
    and "length (ParseHex E arg) < 2 ^ 31"
  shows "\<exists>s. MutateTx E (tx, regs) ''outdata'' arg =
      Inr (tx\<lparr>vout := vout tx @ [\<lparr>nValue = 0, scriptPubKey = s\<rparr>]\<rparr>, regs) \<and>
    IsUnspendable s \<and> read_all (le E) s 0 =
      ([(OP_RETURN, []), (fst (instr_read (PushData (ParseHex E arg))), ParseHex E arg)], True)"
proof -
  let ?d = "ParseHex E arg"
  let ?is = "[Oper OP_RETURN, PushData ?d]"
  let ?s = "push_vch (le E) [word_of_int OP_RETURN] ?d"
  have ok: "list_all instr_ok ?is" using assms(5) by (simp add: opcode_defs)
  have f: "str_find arg (CHR '':'') = npos" using assms(2) by (simp add: str_find_def find_at_none)
  have r: "str_substr arg 0 npos = Inr arg" using substr_tail [OF assms(4), of 0] by simp
  have m: "MutateTxAddOutData E tx arg = Inr (tx\<lparr>vout := vout tx @ [\<lparr>nValue = 0, scriptPubKey = ?s\<rparr>]\<rparr>)"
    using assms(3) r by (simp add: MutateTxAddOutData_def f push_opcode_def opcode_defs npos_def)
  have a: "assemble (le E) [] ?is = Inr ?s" by (simp add: push_opcode_def opcode_defs)
  have len: "length ?s < 2 ^ 32"
    using assms(1,5) by (simp add: push_vch_def le_io_ok_def)
  have s: "?s = [] @ concat (map (instr_bytes (le E)) ?is)"
    using a assemble_bytes [OF ok, of "le E" "[]"] by simp
  have "read_all (le E) ?s 0 = (map instr_read ?is, True)"
    using read_all_instrs [OF assms(1) ok s len] by simp
  moreover have "IsUnspendable ?s" by (simp add: IsUnspendable_def push_vch_def opcode_defs)
  ultimately show ?thesis using m by (auto simp: MutateTx_def)
qed

theorem add_then_delete_witness:
  "\<exists>tx1 tx2. MutateTxAddInput demo_env demo_tx (replicate 64 (CHR ''a'') @ '':1'') = Inr tx1 \<and>
    MutateTxAddOutData demo_env demo_tx ''ab'' = Inr tx2 \<and>
    MutateTxDelInput demo_env tx1 ''x'' = Inr demo_tx \<and> MutateTxDelOutput demo_env tx2 '''' = Inr demo_tx"
proof -
  have c: "split_colon m (replicate 64 (CHR ''a'') @ '':1'') = Inr (replicate 64 (CHR ''a''), ''1'')" for m
    using split_colon_ok [of "replicate 64 (CHR ''a'')" "''1''" m] by simp
  obtain tx1 where a: "MutateTxAddInput demo_env demo_tx (replicate 64 (CHR ''a'') @ '':1'') = Inr tx1"
    by (simp add: MutateTxAddInput_def c) (simp add: demo_env_def)
  have f: "str_find ''ab'' (CHR '':'') = npos" by (simp add: str_find_def)
  have r: "str_substr ''ab'' 0 npos = Inr ''ab''" using substr_tail [of "''ab''" 0] by simp
  have p: "push_opcode [] OP_RETURN = Inr [0x6a]" by (simp add: push_opcode_def opcode_defs)
  obtain tx2 where b: "MutateTxAddOutData demo_env demo_tx ''ab'' = Inr tx2"
    using r p by (simp add: MutateTxAddOutData_def f npos_def) (simp add: demo_env_def)
  have i: "atoi demo_env ''x'' = int (length (vin demo_tx))" "atoi demo_env '''' = int (length (vout demo_tx))"
    by (simp_all add: demo_env_def demo_tx_def)
  show ?thesis using a b add_then_delete [OF a _ i, of "''ab''" tx2] by blast
qed

theorem outdata_reads_back_witness:
  "\<exists>s. MutateTx demo_env (demo_tx, []) ''outdata'' ''ab'' =
      Inr (demo_tx\<lparr>vout := [\<lparr>nValue = 0, scriptPubKey = s\<rparr>]\<rparr>, []) \<and>
    IsUnspendable s \<and> read_all le_reference s 0 = ([(OP_RETURN, []), (2, [0x61, 0x62])], True)"
proof -
  have l: "le_io_ok (le demo_env)" using le_reference_ok by (simp add: demo_env_def)
  have h: "IsHex demo_env ''ab''" "length (ParseHex demo_env ''ab'') < 2 ^ 31" by (simp_all add: demo_env_def)
  have d: "ParseHex demo_env ''ab'' = [0x61, 0x62]" by (simp add: demo_env_def)
  have e: "le demo_env = le_reference" by (simp add: demo_env_def)
  show ?thesis using outdata_reads_back [OF l _ h(1) _ h(2), of demo_tx "[]"]
    by (simp add: d e) (simp add: demo_tx_def)
qed

text \<open>
  The tool prints a transaction only when every command succeeded. It ends either with
  code 0 and the output for the transaction all commands lead to, or with \<open>EXIT_FAILURE\<close>
  and one line on standard error; no exception escapes.
\<close>

theorem command_line_all_or_nothing:
  "case CommandLineRawTx E fCreateBlank args of
     Inr (ret, out) \<Rightarrow>
       (ret = 0 \<and> (\<exists>tx0 cmds tx regs. run_commands E cmds (tx0, []) = Inr (tx, regs) \<and> out = OutputTx E tx)) \<or>
       (ret = EXIT_FAILURE \<and> (\<exists>what. out = [Stderr (''error: '' @ what @ [CHR 0x0A])]))
   | Inl e \<Rightarrow> (\<nexists>what. e = Thrown what)"
proof (cases "raw_tx_body E fCreateBlank args")
  case (Inl e)
  then show ?thesis by (cases e) (simp_all add: CommandLineRawTx_def)
next
  case (Inr out)
  then show ?thesis
    by (fastforce simp: CommandLineRawTx_def raw_tx_body_def rbind_Inr_iff Let_def)
qed

end
