(* ===== verification/ToolPipeline.thy ===== *)
theory ToolPipeline
  imports TxTool
begin

text \<open>
  Runs of the transaction tool (\<open>Maternodes/SRC/chain-tx.cpp\<close>) that feed each other: the
  output of one run, a transaction in hexadecimal, is the input of the next, on the command
  line or through a pipe.
\<close>

section \<open>Lists of commands\<close>

lemma run_commands_append: "run_commands E (cs @ ds) st = rbind (run_commands E cs st) (run_commands E ds)"
proof (induction cs arbitrary: st)
  case (Cons c cs)
  have "run_commands E (cs @ ds) = (\<lambda>st. rbind (run_commands E cs st) (run_commands E ds))"
    by (rule ext) (rule Cons.IH)
  then show ?case by (simp add: rbind_assoc case_prod_unfold)
qed (simp add: rbind_simps)

text \<open>An argument \<open>NAME=VALUE\<close> is split at its first \<open>=\<close>.\<close>

lemma split_arg_assign:
  assumes "CHR ''='' \<notin> set key" "length (key @ CHR ''='' # val) < 18446744073709551615"
  shows "split_arg (key @ CHR ''='' # val) = Inr (key, val)"
proof -
  let ?s = "key @ CHR ''='' # val"
  have "str_find ?s (CHR ''='') = of_nat (length key)"
    using find_at_found [OF assms(1), of val 0] by (simp add: str_find_def)
  moreover have "(of_nat (length key) :: u64) \<noteq> npos"
    using of_nat_small [of "length key"] assms(2) by simp
  moreover have "str_substr ?s 0 (of_nat (length key)) = Inr key"
    using substr_head [OF assms(2), of "length key"] by simp
  moreover have "str_substr ?s (of_nat (length key) + 1) npos = Inr val"
    using substr_tail [OF assms(2), of "Suc (length key)"] by (simp add: add.commute)
  ultimately show ?thesis by (simp add: split_arg_def Let_def rbind_simps)
qed

text \<open>A command that is none of the register commands; the name ends at the first \<open>=\<close>.\<close>

definition keeps_registers :: "string \<Rightarrow> bool" where
  "keeps_registers arg \<longleftrightarrow>
     (case split_arg arg of Inl e \<Rightarrow> False | Inr (key, value) \<Rightarrow> key \<noteq> ''load'' \<and> key \<noteq> ''set'')"

lemma MutateTx_registers:
  assumes "MutateTx E (tx, regs) key value = Inr (tx', regs')" "key \<noteq> ''load''" "key \<noteq> ''set''"
  shows "regs' = regs"
  using assms by (auto simp: MutateTx_def rbind_Inr_iff throw_def split: if_splits)

lemma run_commands_registers:
  "run_commands E cs (tx, regs) = Inr (tx', regs') \<Longrightarrow> list_all keeps_registers cs \<Longrightarrow> regs' = regs"
proof (induction cs arbitrary: tx)
  case (Cons c cs)
  then obtain key v tx1 regs1 where s: "split_arg c = Inr (key, v)" "MutateTx E (tx, regs) key v = Inr (tx1, regs1)"
    and r: "run_commands E cs (tx1, regs1) = Inr (tx', regs')"
    by (auto simp: rbind_Inr_iff)
  have "key \<noteq> ''load''" "key \<noteq> ''set''" using Cons.prems(2) s(1) by (simp_all add: keeps_registers_def)
  then have "regs1 = regs" by (rule MutateTx_registers [OF s(2)])
  then show ?case using Cons.IH r Cons.prems(2) by simp
qed simp

section \<open>Runs\<close>

text \<open>The outcome of the commands, as the tool reports it.\<close>

definition report ::
    "('u, 'w, 'ks, 'k) tool_env \<Rightarrow> (CMutableTransaction \<times> 'u registers) res \<Rightarrow> (int \<times> printed list) res" where
  "report E r = (case r of
     Inr (tx, regs) \<Rightarrow> Inr (0, OutputTx E tx)
   | Inl (Thrown what) \<Rightarrow> Inr (EXIT_FAILURE, [Stderr (''error: '' @ what @ [CHR 0x0A])])
   | Inl e \<Rightarrow> Inl e)"

lemma create_run:
  assumes "skip_switches E cs = cs"
  shows "CommandLineRawTx E True cs = report E (run_commands E cs (empty_tx E, []))"
  by (cases "run_commands E cs (empty_tx E, [])")
    (auto simp: CommandLineRawTx_def raw_tx_body_def assms report_def rbind_simps split: cxx_error.split)

lemma hex_run:
  assumes "skip_switches E (hex # cs) = hex # cs" "hex \<noteq> ''-''" "DecodeHexTx E hex = Some tx"
  shows "CommandLineRawTx E False (hex # cs) = report E (run_commands E cs (tx, []))"
proof -
  have "raw_tx_body E False (hex # cs) =
        rbind (run_commands E cs (tx, [])) (\<lambda>(tx, regs). Inr (OutputTx E tx))"
    unfolding raw_tx_body_def assms(1) Let_def using assms(2, 3) by (simp add: rbind_simps)
  then show ?thesis
    by (cases "run_commands E cs (tx, [])")
      (auto simp: CommandLineRawTx_def report_def rbind_simps split: cxx_error.split)
qed

lemma stdin_run:
  assumes "readStdin E = Inr hex" "DecodeHexTx E hex = Some tx"
  shows "CommandLineRawTx E False (''-'' # cs) = report E (run_commands E cs (tx, []))"
  by (cases "run_commands E cs (tx, [])")
    (auto simp: CommandLineRawTx_def raw_tx_body_def assms report_def rbind_simps split: cxx_error.split)

lemma skip_switches_length: "length (skip_switches E xs) \<le> length xs"
  by (induction xs) (auto split: list.splits)

lemma skip_switches_fixed:
  "skip_switches E (a # xs) = a # xs \<longleftrightarrow> (case a of c # _ # _ \<Rightarrow> \<not> IsSwitchChar E c | _ \<Rightarrow> True)"
proof -
  have "skip_switches E xs \<noteq> a # xs" using skip_switches_length [of E xs] by auto
  then show ?thesis by (auto split: list.splits)
qed

lemma skip_switches_prefix:
  "skip_switches E (cs @ ds) = cs @ ds \<Longrightarrow> cs \<noteq> [] \<Longrightarrow> skip_switches E cs = cs"
  by (cases cs) (simp_all add: skip_switches_fixed del: skip_switches.simps)

text \<open>What a run without \<open>-json\<close> and \<open>-txid\<close> prints, read back by the next one.\<close>

lemma readStdin_hex:
  assumes "stdin E = (hex @ [CHR 0x0A], False)" "trim_right E (hex @ [CHR 0x0A]) = hex"
  shows "readStdin E = Inr hex"
  using assms by (simp add: readStdin_def stdin_loop_all)

section \<open>Properties\<close>

text \<open>
  C39: A pipe of two runs is one run, if the first sets no register. Without \<open>-json\<close> and
  \<open>-txid\<close>, let a run that creates a transaction with the commands \<open>cs1\<close> succeed, none of them
  \<open>set\<close> or \<open>load\<close> (registers do not pass through a pipe). Then it prints the transaction in
  hexadecimal, and a run with the commands \<open>cs2\<close> that reads this line from its standard input,
  or takes it as an argument, ends exactly as the one run with the commands \<open>cs1\<close> and \<open>cs2\<close>:
  with the same transaction or the same error message, and the same exit code. The commands and
  the printed text are no switches, the printed transaction decodes to itself, and trimming
  removes the line break.
\<close>

theorem tool_pipeline:
  assumes "\<not> bool_arg E ''-json''" "\<not> bool_arg E ''-txid''"
    and "cs1 \<noteq> []" "skip_switches E (cs1 @ cs2) = cs1 @ cs2" "list_all keeps_registers cs1"
    and "run_commands E cs1 (empty_tx E, []) = Inr (tx, regs)"
    and "DecodeHexTx E (EncodeHexTx E tx) = Some tx"
    and "stdin E = (EncodeHexTx E tx @ [CHR 0x0A], False)"
    and "trim_right E (EncodeHexTx E tx @ [CHR 0x0A]) = EncodeHexTx E tx"
    and "EncodeHexTx E tx \<noteq> ''-''" "skip_switches E (EncodeHexTx E tx # cs2) = EncodeHexTx E tx # cs2"
  shows "CommandLineRawTx E True cs1 = Inr (0, [Stdout (EncodeHexTx E tx @ [CHR 0x0A])]) \<and>
         CommandLineRawTx E False (''-'' # cs2) = CommandLineRawTx E True (cs1 @ cs2) \<and>
         CommandLineRawTx E False (EncodeHexTx E tx # cs2) = CommandLineRawTx E True (cs1 @ cs2)"
proof -
  have r: "regs = []" by (rule run_commands_registers [OF assms(6, 5)])
  have one: "CommandLineRawTx E True (cs1 @ cs2) = report E (run_commands E cs2 (tx, []))"
    by (simp add: create_run [OF assms(4)] run_commands_append assms(6) r rbind_simps)
  have "CommandLineRawTx E True cs1 = report E (Inr (tx, regs))"
    unfolding create_run [OF skip_switches_prefix [OF assms(4, 3)]] assms(6) ..
  moreover have "OutputTx E tx = [Stdout (EncodeHexTx E tx @ [CHR 0x0A])]"
    using assms(1, 2) by (simp add: OutputTx_def OutputTxHex_def)
  ultimately show ?thesis
    using one stdin_run [OF readStdin_hex [OF assms(8, 9)] assms(7)]
      hex_run [OF assms(11, 10, 7)] by (simp add: report_def)
qed

text \<open>The pipe on the concrete environment: \<open>-create nversion=ab\<close>, then \<open>- locktime=abc\<close>.\<close>

definition pipe_tx :: CMutableTransaction where
  "pipe_tx = \<lparr>nVersion = 2, vin = [], vout = [], nLockTime = 0\<rparr>"

definition pipe_env :: "(string, unit, unit, unit) tool_env" where
  "pipe_env = demo_env\<lparr>stdin := (''00'' @ [CHR 0x0A], False),
     trim_right := (\<lambda>s. rev (dropWhile (\<lambda>c. c = CHR 0x0A) (rev s))),
     DecodeHexTx := (\<lambda>s. if s = ''00'' then Some pipe_tx else None)\<rparr>"

lemma pipe_split:
  "split_arg ''nversion=ab'' = Inr (''nversion'', ''ab'')"
  "split_arg ''locktime=abc'' = Inr (''locktime'', ''abc'')"
  using split_arg_assign [of "''nversion''" "''ab''"] split_arg_assign [of "''locktime''" "''abc''"]
  by simp_all

lemma pipe_first: "run_commands pipe_env [''nversion=ab''] (empty_tx pipe_env, []) = Inr (pipe_tx, [])"
  by (simp add: pipe_split rbind_simps MutateTx_def MutateTxVersion_def)
    (simp add: pipe_env_def demo_env_def pipe_tx_def)

lemma tool_pipeline_witness:
  "CommandLineRawTx pipe_env True [''nversion=ab''] = Inr (0, [Stdout (''00'' @ [CHR 0x0A])]) \<and>
   CommandLineRawTx pipe_env False [''-'', ''locktime=abc''] =
     CommandLineRawTx pipe_env True [''nversion=ab'', ''locktime=abc''] \<and>
   CommandLineRawTx pipe_env False [''00'', ''locktime=abc''] =
     CommandLineRawTx pipe_env True [''nversion=ab'', ''locktime=abc'']"
proof -
  note facts = pipe_env_def demo_env_def
  have e: "EncodeHexTx pipe_env pipe_tx = ''00''" by (simp add: facts)
  have json: "\<not> bool_arg pipe_env ''-json''" and txid: "\<not> bool_arg pipe_env ''-txid''"
    by (simp_all add: facts)
  have "\<not> IsSwitchChar pipe_env (CHR ''n'')" "\<not> IsSwitchChar pipe_env (CHR ''0'')" by (simp_all add: facts)
  then have sw: "skip_switches pipe_env ([''nversion=ab''] @ [''locktime=abc'']) =
        [''nversion=ab''] @ [''locktime=abc'']"
    "skip_switches pipe_env (''00'' # [''locktime=abc'']) = ''00'' # [''locktime=abc'']"
    by simp_all
  have k: "list_all keeps_registers [''nversion=ab'']" by (simp add: keeps_registers_def pipe_split)
  have dec: "DecodeHexTx pipe_env ''00'' = Some pipe_tx" by (simp add: facts)
  have io: "stdin pipe_env = (''00'' @ [CHR 0x0A], False)" by (simp add: facts)
  have tr: "trim_right pipe_env (''00'' @ [CHR 0x0A]) = ''00''" by (simp add: facts)
  show ?thesis
    using tool_pipeline [OF json txid _ sw(1) k pipe_first, unfolded e, OF _ dec io tr _ sw(2)] by simp
qed

end
