(* ===== verification/SigCache.thy ===== *)
theory SigCache
  imports Prelude
begin

text \<open>
  The signature cache of \<open>chainx-ui.id/consensus/sigcache.cpp\<close> and the default signature
  checker of \<open>chainx-ui.id/interpreter.h\<close>. The cache remembers signatures found valid, as
  salted hashes. SHA-256, the elliptic-curve check, the memory estimate, the hash table's
  buckets and the configuration are not part of the repository: they are the fields of
  \<open>sig_env\<close>. The table is the list of its entries; random numbers come from a sequence.
\<close>

section \<open>The checkers' defaults\<close>

record ('num, 'script) SignatureChecker =
  CheckSig :: "byte list \<Rightarrow> byte list \<Rightarrow> 'script \<Rightarrow> bool"
  CheckLockTime :: "'num \<Rightarrow> bool"
  CheckSequence :: "'num \<Rightarrow> bool"

definition BaseSignatureChecker :: "('num, 'script) SignatureChecker" where
  "BaseSignatureChecker = \<lparr>CheckSig = (\<lambda>scriptSig vchPubKey scriptCode. False),
     CheckLockTime = (\<lambda>nLockTime. False), CheckSequence = (\<lambda>nSequence. False)\<rparr>"

section \<open>Environment and state\<close>

text \<open>
  \<open>sha256\<close> hashes the concatenation of its inputs; \<open>verify\<close> is the check of the base class
  \<open>TransactionSignatureChecker\<close>; \<open>bucket\<close> is the first entry of a bucket, if any.
\<close>

record 'pub sig_env =
  sha256 :: "byte list \<Rightarrow> uint256"
  hash_bytes :: "uint256 \<Rightarrow> byte list"
  pub_bytes :: "'pub \<Rightarrow> byte list"
  verify :: "byte list \<Rightarrow> 'pub \<Rightarrow> uint256 \<Rightarrow> bool"
  DynamicUsage :: "uint256 list \<Rightarrow> nat"
  bucket_count :: "uint256 list \<Rightarrow> nat"
  bucket :: "uint256 list \<Rightarrow> nat \<Rightarrow> uint256 option"
  max_size_arg :: i64

record CSignatureCache =
  nonce :: "byte list"
  setValid :: "uint256 list"

definition CSignatureCache_init :: "byte list \<Rightarrow> CSignatureCache" where
  "CSignatureCache_init rnd = \<lparr>nonce = rnd, setValid = []\<rparr>"

definition ComputeEntry ::
    "'pub sig_env \<Rightarrow> CSignatureCache \<Rightarrow> uint256 \<Rightarrow> byte list \<Rightarrow> 'pub \<Rightarrow> uint256" where
  "ComputeEntry E c h vchSig pubkey =
     sha256 E (nonce c @ hash_bytes E h @ pub_bytes E pubkey @ vchSig)"

definition cache_Get :: "CSignatureCache \<Rightarrow> uint256 \<Rightarrow> bool" where
  "cache_Get c entry \<longleftrightarrow> entry \<in> set (setValid c)"

definition cache_Erase :: "CSignatureCache \<Rightarrow> uint256 \<Rightarrow> CSignatureCache" where
  "cache_Erase c entry = c\<lparr>setValid := removeAll entry (setValid c)\<rparr>"

text \<open>
  The limit: the \<open>int64_t\<close> argument is converted to \<open>size_t\<close> and multiplied modulo \<open>2^64\<close>.
\<close>

definition nMaxCacheSize :: "'pub sig_env \<Rightarrow> u64" where
  "nMaxCacheSize E = max_size_arg E * push_bit 20 1"

text \<open>
  The eviction loop erases from random buckets until the table is small enough. It need not
  end, so \<open>None\<close> is a run that does not return; \<open>rnd k\<close> is the \<open>k\<close>-th random number.
\<close>

partial_function (option) evict :: "'pub sig_env \<Rightarrow> (nat \<Rightarrow> nat) \<Rightarrow> nat \<Rightarrow> uint256 list \<Rightarrow> uint256 list option" where
  "evict E rnd k s =
     (if unat (nMaxCacheSize E) < DynamicUsage E s then
        (case bucket E s (rnd k mod bucket_count E s) of
           Some x \<Rightarrow> evict E rnd (k + 1) (removeAll x s)
         | None \<Rightarrow> evict E rnd (k + 1) s)
      else Some s)"

definition cache_Set ::
    "'pub sig_env \<Rightarrow> (nat \<Rightarrow> nat) \<Rightarrow> CSignatureCache \<Rightarrow> uint256 \<Rightarrow> CSignatureCache option" where
  "cache_Set E rnd c entry =
     (if nMaxCacheSize E \<le> 0 then Some c
      else case evict E rnd 0 (setValid c) of
        None \<Rightarrow> None
      | Some s \<Rightarrow> Some (c\<lparr>setValid := List.insert entry s\<rparr>))"

text \<open>
  \<open>CachingTransactionSignatureChecker::VerifySignature\<close>; \<open>store\<close> is the member of the
  checker. The result comes with the cache, which is shared by all checkers.
\<close>

definition VerifySignature ::
    "'pub sig_env \<Rightarrow> (nat \<Rightarrow> nat) \<Rightarrow> bool \<Rightarrow> CSignatureCache \<Rightarrow> byte list \<Rightarrow> 'pub \<Rightarrow> uint256 \<Rightarrow>
     (bool \<times> CSignatureCache) option" where
  "VerifySignature E rnd store c vchSig pubkey sighash =
     (let entry = ComputeEntry E c sighash vchSig pubkey in
      if cache_Get c entry then
        Some (True, if \<not> store then cache_Erase c entry else c)
      else if \<not> verify E vchSig pubkey sighash then Some (False, c)
      else if store then
        (case cache_Set E rnd c entry of None \<Rightarrow> None | Some c \<Rightarrow> Some (True, c))
      else Some (True, c))"

section \<open>Histories of the cache\<close>

inductive cache_reaches :: "'pub sig_env \<Rightarrow> byte list \<Rightarrow> CSignatureCache \<Rightarrow> bool" for E n where
  new: "cache_reaches E n (CSignatureCache_init n)"
| check: "cache_reaches E n c \<Longrightarrow> VerifySignature E rnd store c s p h = Some (b, c') \<Longrightarrow> cache_reaches E n c'"

definition valid_entries :: "'pub sig_env \<Rightarrow> byte list \<Rightarrow> uint256 set" where
  "valid_entries E n = {sha256 E (n @ hash_bytes E h @ pub_bytes E p @ s) | h p s. verify E s p h}"

lemma evict_post:
  assumes "evict E rnd k s = Some t"
  shows "set t \<subseteq> set s \<and> DynamicUsage E t \<le> unat (nMaxCacheSize E)"
proof (rule evict.raw_induct [where P = "\<lambda>E rnd k s t. set t \<subseteq> set s \<and> DynamicUsage E t \<le> unat (nMaxCacheSize E)", OF _ assms])
  fix f :: "'a sig_env \<Rightarrow> (nat \<Rightarrow> nat) \<Rightarrow> nat \<Rightarrow> uint256 list \<Rightarrow> uint256 list option"
    and E :: "'a sig_env" and rnd k s t
  assume ih: "\<And>E rnd k s t. f E rnd k s = Some t \<Longrightarrow> set t \<subseteq> set s \<and> DynamicUsage E t \<le> unat (nMaxCacheSize E)"
    and b: "(if unat (nMaxCacheSize E) < DynamicUsage E s
       then case bucket E s (rnd k mod bucket_count E s) of
          None \<Rightarrow> f E rnd (k + 1) s | Some x \<Rightarrow> f E rnd (k + 1) (removeAll x s)
       else Some s) = Some t"
  show "set t \<subseteq> set s \<and> DynamicUsage E t \<le> unat (nMaxCacheSize E)"
    using b by (fastforce split: if_splits option.splits dest: ih)
qed

lemma cache_Set_cases:
  assumes "cache_Set E rnd c entry = Some c'"
  shows "(c' = c \<and> nMaxCacheSize E = 0) \<or>
    (\<exists>s. c' = c\<lparr>setValid := List.insert entry s\<rparr> \<and> set s \<subseteq> set (setValid c) \<and>
         DynamicUsage E s \<le> unat (nMaxCacheSize E))"
proof (cases "nMaxCacheSize E = 0")
  case True
  then show ?thesis using assms by (simp add: cache_Set_def)
next
  case False
  then obtain s where "evict E rnd 0 (setValid c) = Some s" "c' = c\<lparr>setValid := List.insert entry s\<rparr>"
    using assms by (auto simp: cache_Set_def split: option.splits)
  then show ?thesis using evict_post by blast
qed

lemma cache_Set_entries:
  "cache_Set E rnd c entry = Some c' \<Longrightarrow> nonce c' = nonce c \<and> set (setValid c') \<subseteq> insert entry (set (setValid c))"
  using cache_Set_cases [of E rnd c entry c'] by auto

lemma cache_reaches_valid:
  "cache_reaches E n c \<Longrightarrow> nonce c = n \<and> set (setValid c) \<subseteq> valid_entries E n"
proof (induction rule: cache_reaches.induct)
  case new
  show ?case by (simp add: CSignatureCache_init_def)
next
  case (check c rnd store s p h b c')
  let ?e = "ComputeEntry E c h s p"
  consider (hit) "cache_Get c ?e" | (bad) "\<not> cache_Get c ?e" "\<not> verify E s p h"
    | (good) "\<not> cache_Get c ?e" "verify E s p h" by blast
  then show ?case
  proof cases
    case hit
    then show ?thesis using check by (auto simp: VerifySignature_def cache_Erase_def split: if_splits)
  next
    case bad
    then show ?thesis using check by (simp add: VerifySignature_def)
  next
    case good
    then have "?e \<in> valid_entries E n"
      using check.IH by (auto simp: valid_entries_def ComputeEntry_def)
    then show ?thesis using check good
      by (auto simp: VerifySignature_def dest!: cache_Set_entries split: if_splits option.splits)
  qed
qed

section \<open>Termination of the eviction\<close>

lemma evict_step:
  assumes "unat (nMaxCacheSize E) < DynamicUsage E s"
  shows "evict E rnd k s = (case bucket E s (rnd k mod bucket_count E s) of
           Some x \<Rightarrow> evict E rnd (k + 1) (removeAll x s) | None \<Rightarrow> evict E rnd (k + 1) s)"
  using assms by (subst evict.simps) simp

lemma evict_until_hit:
  assumes "\<And>k x. bucket E s (rnd k mod bucket_count E s) = Some x \<Longrightarrow> \<exists>t. evict E rnd (k + 1) (removeAll x s) = Some t"
    and "bucket E s (rnd (k + d) mod bucket_count E s) \<noteq> None"
  shows "\<exists>t. evict E rnd k s = Some t"
  using assms(2)
proof (induction d arbitrary: k)
  case 0
  then obtain x where x: "bucket E s (rnd k mod bucket_count E s) = Some x" by auto
  then show ?case using assms(1) [OF x] by (subst evict.simps) simp
next
  case (Suc d)
  then have n: "\<exists>t. evict E rnd (k + 1) s = Some t" by simp
  show ?case
    using n assms(1) [of k] by (subst evict.simps) (auto split: option.splits)
qed

lemma cache_Set_total:
  assumes "DynamicUsage E [] \<le> unat (nMaxCacheSize E)"
    and "\<And>s j x. bucket E s j = Some x \<Longrightarrow> x \<in> set s"
    and "\<And>s k. s \<noteq> [] \<Longrightarrow> \<exists>d. bucket E s (rnd (k + d) mod bucket_count E s) \<noteq> None"
  shows "\<exists>c'. cache_Set E rnd c entry = Some c'"
proof -
  have "\<exists>t. evict E rnd k s = Some t" for k s
  proof (induction s arbitrary: k rule: length_induct)
    case (1 s)
    show ?case
    proof (cases "s = []")
      case True
      then show ?thesis using assms(1) by (subst evict.simps) simp
    next
      case False
      then obtain d where "bucket E s (rnd (k + d) mod bucket_count E s) \<noteq> None" using assms(3) by blast
      moreover have "\<exists>t. evict E rnd (k + 1) (removeAll x s) = Some t"
        if "bucket E s (rnd k mod bucket_count E s) = Some x" for k x
        using 1 assms(2) [OF that] by (simp add: length_removeAll_less)
      ultimately show ?thesis by (rule evict_until_hit [rotated])
    qed
  qed
  then obtain t where "evict E rnd 0 (setValid c) = Some t" by blast
  then show ?thesis by (simp add: cache_Set_def)
qed

section \<open>Properties\<close>

text \<open>
  Caching does not change the verdict. In every reachable cache, if no valid triple of
  signature, key and hash shares its salted SHA-256 entry with an invalid one, a check that
  returns gives exactly the result of the uncached verification.
\<close>

theorem cached_verdict_exact:
  assumes "cache_reaches E n c" "VerifySignature E rnd store c s p h = Some (b, c')"
    and "\<And>s' p' h'. verify E s' p' h' \<Longrightarrow>
      sha256 E (n @ hash_bytes E h' @ pub_bytes E p' @ s') = sha256 E (n @ hash_bytes E h @ pub_bytes E p @ s) \<Longrightarrow>
      verify E s p h"
  shows "b = verify E s p h"
proof (cases "cache_Get c (ComputeEntry E c h s p)")
  case True
  then have "ComputeEntry E c h s p \<in> valid_entries E n"
    using cache_reaches_valid [OF assms(1)] by (auto simp: cache_Get_def)
  then have "verify E s p h"
    using assms(3) cache_reaches_valid [OF assms(1)] by (auto simp: valid_entries_def ComputeEntry_def)
  then show ?thesis using True assms(2) by (simp add: VerifySignature_def)
next
  case False
  then show ?thesis using assms(2)
    by (auto simp: VerifySignature_def split: if_splits option.splits)
qed

definition demo_sig_env :: "i64 \<Rightarrow> byte list sig_env" where
  "demo_sig_env arg = \<lparr>sha256 = (\<lambda>bs. of_nat (le_nat bs)), hash_bytes = (\<lambda>h. []), pub_bytes = (\<lambda>p. p),
     verify = (\<lambda>s p h. s = [1]), DynamicUsage = length, bucket_count = (\<lambda>s. 1),
     bucket = (\<lambda>s k. case s of [] \<Rightarrow> None | x # _ \<Rightarrow> Some x), max_size_arg = arg\<rparr>"

theorem cached_verdict_exact_witness:
  "cache_reaches (demo_sig_env 32) [] (CSignatureCache_init []) \<and>
   VerifySignature (demo_sig_env 32) (\<lambda>k. 0) True (CSignatureCache_init []) [1] [] 0 =
     Some (True, (CSignatureCache_init [])\<lparr>setValid := [1]\<rparr>) \<and> True = verify (demo_sig_env 32) [1] [] 0"
proof -
  have r: "cache_reaches (demo_sig_env 32) [] (CSignatureCache_init [])" by (rule cache_reaches.new)
  have v: "VerifySignature (demo_sig_env 32) (\<lambda>k. 0) True (CSignatureCache_init []) [1] [] 0 =
      Some (True, (CSignatureCache_init [])\<lparr>setValid := [1]\<rparr>)"
    by (simp add: VerifySignature_def cache_Get_def ComputeEntry_def cache_Set_def
        CSignatureCache_init_def nMaxCacheSize_def demo_sig_env_def evict.simps)
  have "True = verify (demo_sig_env 32) [1] [] 0"
    by (rule cached_verdict_exact [OF r v]) (simp add: demo_sig_env_def)
  then show ?thesis using r v by simp
qed

text \<open>
  The limit. When \<open>Set\<close> returns, either the limit is zero and nothing changed, or the
  entry was added to a part of the old table that is within the limit.
\<close>

theorem cache_limit:
  assumes "cache_Set E rnd c entry = Some c'"
  shows "(c' = c \<and> nMaxCacheSize E = 0) \<or>
    (\<exists>s. setValid c' = List.insert entry s \<and> set s \<subseteq> set (setValid c) \<and>
         DynamicUsage E s \<le> unat (nMaxCacheSize E))"
  using cache_Set_cases [OF assms] by auto

theorem cache_limit_witness:
  "cache_Set (demo_sig_env 32) (\<lambda>k. 0) (CSignatureCache_init []) 7 = Some ((CSignatureCache_init [])\<lparr>setValid := [7]\<rparr>) \<and>
   (\<exists>s. [7] = List.insert 7 s \<and> set s \<subseteq> {} \<and> 
         length s \<le> unat (nMaxCacheSize (demo_sig_env 32 :: byte list sig_env)))"
proof -
  have v: "cache_Set (demo_sig_env 32) (\<lambda>k. 0) (CSignatureCache_init []) 7 =
      Some ((CSignatureCache_init [])\<lparr>setValid := [7]\<rparr>)"
    by (simp add: cache_Set_def CSignatureCache_init_def nMaxCacheSize_def demo_sig_env_def evict.simps)
  have "DynamicUsage (demo_sig_env 32) = length" by (simp add: demo_sig_env_def)
  with cache_limit [OF v] v show ?thesis by (simp add: CSignatureCache_init_def)
qed

text \<open>
  C25: The eviction ends. If an emptied table is within the limit, a bucket holds only entries
  of the table, and the random numbers hit a non-empty bucket of a non-empty table again and
  again, then the loop of \<open>Set\<close> ends and \<open>Set\<close> returns.
\<close>

theorem cache_Set_returns:
  assumes "DynamicUsage E [] \<le> unat (nMaxCacheSize E)"
    and "\<And>s j x. bucket E s j = Some x \<Longrightarrow> x \<in> set s"
    and "\<And>s k. s \<noteq> [] \<Longrightarrow> \<exists>d. bucket E s (rnd (k + d) mod bucket_count E s) \<noteq> None"
  shows "\<exists>c'. cache_Set E rnd c entry = Some c'"
  by (rule cache_Set_total [OF assms])

theorem cache_Set_returns_witness:
  "\<exists>c'. cache_Set (demo_sig_env 32) (\<lambda>k. k) (CSignatureCache_init []) 7 = Some c'"
proof (rule cache_Set_returns)
  show "DynamicUsage (demo_sig_env 32) [] \<le> unat (nMaxCacheSize (demo_sig_env 32 :: byte list sig_env))"
    by (simp add: demo_sig_env_def)
  show "\<And>s j x. bucket (demo_sig_env 32) s j = Some x \<Longrightarrow> x \<in> set s"
    by (auto simp: demo_sig_env_def split: list.splits)
  show "\<And>s k. s \<noteq> [] \<Longrightarrow> \<exists>d. bucket (demo_sig_env 32) s ((k + d) mod bucket_count (demo_sig_env 32) s) \<noteq> None"
    by (auto simp: demo_sig_env_def split: list.splits)
qed

lemma negative_limit:
  assumes "- (2 ^ 43) \<le> sint (max_size_arg E)" "sint (max_size_arg E) < 0"
  shows "2 ^ 63 \<le> unat (nMaxCacheSize E)"
proof -
  define a where "a = sint (max_size_arg E)"
  have a: "- 8796093022208 \<le> a" "a < 0" using assms by (simp_all add: a_def)
  have "max_size_arg E = of_int a" by (simp add: a_def)
  then have "nMaxCacheSize E = of_int (a * 1048576)" by (simp add: nMaxCacheSize_def)
  then have "uint (nMaxCacheSize E) = (a * 1048576) mod 18446744073709551616"
    by (simp only: uint_word_of_int) simp
  also have "\<dots> = (a * 1048576 + 18446744073709551616) mod 18446744073709551616" by simp
  also have "\<dots> = a * 1048576 + 18446744073709551616" using a by (intro mod_pos_pos_trivial) linarith+
  finally have "9223372036854775808 \<le> uint (nMaxCacheSize E)" using a by linarith
  then have "9223372036854775808 \<le> nat (uint (nMaxCacheSize E))" by linarith
  then show ?thesis by (simp only: unat_eq_nat_uint) simp
qed

text \<open>
  A negative cache size is not a disabled cache. For a \<open>-maxsigcachesize\<close> between
  \<open>-2^43\<close> and -1 the limit wraps to at least \<open>2^63\<close> bytes, and \<open>Set\<close> stores the entry.
\<close>

theorem negative_cache_size_stores:
  assumes "- (2 ^ 43) \<le> sint (max_size_arg E)" "sint (max_size_arg E) < 0"
    and "DynamicUsage E (setValid c) \<le> 2 ^ 63"
  shows "cache_Set E rnd c entry = Some (c\<lparr>setValid := List.insert entry (setValid c)\<rparr>)"
proof -
  have l: "2 ^ 63 \<le> unat (nMaxCacheSize E)" by (rule negative_limit [OF assms(1,2)])
  then have "nMaxCacheSize E \<noteq> 0" by auto
  moreover have "evict E rnd 0 (setValid c) = Some (setValid c)"
    using l assms(3) by (subst evict.simps) simp
  ultimately show ?thesis by (simp add: cache_Set_def)
qed

theorem negative_cache_size_stores_witness:
  "cache_Set (demo_sig_env (-1)) (\<lambda>k. 0) (CSignatureCache_init []) 7 =
     Some ((CSignatureCache_init [])\<lparr>setValid := List.insert 7 []\<rparr>)"
  using negative_cache_size_stores [of "demo_sig_env (-1)" "CSignatureCache_init []" "\<lambda>k. 0" 7]
  by (simp add: demo_sig_env_def CSignatureCache_init_def)

end
