(* ===== verification/SigThreads.thy ===== *)
theory SigThreads
  imports SigCache
begin

text \<open>
  Script checks that run in several threads and share one signature cache
  (\<open>chainx-ui.id/consensus/sigcache.cpp\<close>). The locks of the cache cover a single \<open>Get\<close>,
  \<open>Erase\<close> or \<open>Set\<close>, so \<open>VerifySignature\<close> is not one step: between its steps other threads
  run. The script interpreter is not part of the repository; what it does with a checker is
  a tree of signature checks.
\<close>

section \<open>Checks as trees of questions\<close>

datatype 'pub script_run =
    Verdict bool
  | Check "byte list" 'pub uint256 "bool \<Rightarrow> 'pub script_run"

text \<open>The verdict when every signature is verified anew, as the base class does.\<close>

primrec plain_run :: "'pub sig_env \<Rightarrow> 'pub script_run \<Rightarrow> bool" where
  "plain_run E (Verdict b) = b"
| "plain_run E (Check s p h k) = plain_run E (k (verify E s p h))"

section \<open>Threads\<close>

text \<open>
  Where a thread is: before a check, after \<open>Get\<close> has found the entry (and it is to be erased),
  after \<open>Get\<close> has not found it, and before \<open>Set\<close>.
\<close>

datatype 'pub phase =
    Running "'pub script_run"
  | Found uint256 "'pub script_run"
  | Missed "byte list" 'pub uint256 uint256 "bool \<Rightarrow> 'pub script_run"
  | Storing uint256 "'pub script_run"

fun thread_step ::
    "'pub sig_env \<Rightarrow> (nat \<Rightarrow> nat) \<Rightarrow> bool \<Rightarrow> 'pub phase \<Rightarrow> CSignatureCache \<Rightarrow>
     ('pub phase \<times> CSignatureCache) option" where
  "thread_step E rnd store (Running (Verdict b)) c = None"
| "thread_step E rnd store (Running (Check s p h k)) c =
     (let entry = ComputeEntry E c h s p in
      Some (if cache_Get c entry then if \<not> store then Found entry (k True) else Running (k True)
            else Missed s p h entry k, c))"
| "thread_step E rnd store (Found entry t) c = Some (Running t, cache_Erase c entry)"
| "thread_step E rnd store (Missed s p h entry k) c =
     Some (if \<not> verify E s p h then Running (k False)
           else if store then Storing entry (k True) else Running (k True), c)"
| "thread_step E rnd store (Storing entry t) c =
     (case cache_Set E rnd c entry of None \<Rightarrow> None | Some c \<Rightarrow> Some (Running t, c))"

text \<open>A thread that is not interrupted makes the call in the steps of \<open>VerifySignature\<close>.\<close>

abbreviation alone ::
    "'pub sig_env \<Rightarrow> (nat \<Rightarrow> nat) \<Rightarrow> bool \<Rightarrow> 'pub phase \<times> CSignatureCache \<Rightarrow> 'pub phase \<times> CSignatureCache \<Rightarrow> bool" where
  "alone E rnd store \<equiv> (\<lambda>(p, c) s. thread_step E rnd store p c = Some s)"

lemma VerifySignature_steps:
  assumes "VerifySignature E rnd store c s p h = Some (b, c')"
  shows "(alone E rnd store)\<^sup>*\<^sup>* (Running (Check s p h k), c) (Running (k b), c')"
proof -
  let ?e = "ComputeEntry E c h s p"
  note step = converse_rtranclp_into_rtranclp [where r = "alone E rnd store"]
  consider (hit) "cache_Get c ?e" | (bad) "\<not> cache_Get c ?e" "\<not> verify E s p h"
    | (good) "\<not> cache_Get c ?e" "verify E s p h" by blast
  then show ?thesis
  proof cases
    case hit
    then have b: "b = True" "c' = (if store then c else cache_Erase c ?e)"
      using assms by (auto simp: VerifySignature_def Let_def)
    have g: "alone E rnd store (Running (Check s p h k), c) (if store then Running (k True) else Found ?e (k True), c)"
      using hit by (simp add: Let_def)
    show ?thesis
    proof (cases store)
      case True
      then have "alone E rnd store (Running (Check s p h k), c) (Running (k b), c')"
        using b g by (simp only: if_True)
      then show ?thesis ..
    next
      case False
      then have "alone E rnd store (Found ?e (k True), c) (Running (k b), c')"
        "alone E rnd store (Running (Check s p h k), c) (Found ?e (k True), c)"
        using b g by (simp_all only: if_False) simp_all
      then show ?thesis by (blast intro: step)
    qed
  next
    case bad
    then have "b = False" "c' = c" using assms by (simp_all add: VerifySignature_def)
    moreover have "alone E rnd store (Running (Check s p h k), c) (Missed s p h ?e k, c)"
      "alone E rnd store (Missed s p h ?e k, c) (Running (k False), c)" using bad by (simp_all add: Let_def)
    ultimately show ?thesis by (blast intro: step)
  next
    case good
    have m: "alone E rnd store (Running (Check s p h k), c) (Missed s p h ?e k, c)"
      using good by (simp add: Let_def)
    show ?thesis
    proof (cases store)
      case True
      then have "b = True" "cache_Set E rnd c ?e = Some c'"
        using good assms by (auto simp: VerifySignature_def split: option.splits)
      then have "alone E rnd store (Missed s p h ?e k, c) (Storing ?e (k True), c)"
        "alone E rnd store (Storing ?e (k True), c) (Running (k b), c')" using good True by simp_all
      with m show ?thesis by (blast intro: step)
    next
      case False
      then have "alone E rnd store (Missed s p h ?e k, c) (Running (k b), c')"
        using good assms by (simp add: VerifySignature_def)
      with m show ?thesis by (blast intro: step)
    qed
  qed
qed

section \<open>Interleavings\<close>

text \<open>
  The system: the cache and the threads, each with the \<open>store\<close> flag of its checker. Any
  thread may make the next step, with any random numbers.
\<close>

type_synonym 'pub system = "CSignatureCache \<times> (bool \<times> 'pub phase) list"

inductive system_step :: "'pub sig_env \<Rightarrow> 'pub system \<Rightarrow> 'pub system \<Rightarrow> bool" for E where
  thread: "i < length ts \<Longrightarrow> ts ! i = (store, p) \<Longrightarrow> thread_step E rnd store p c = Some (p', c') \<Longrightarrow>
    system_step E (c, ts) (c', ts[i := (store, p')])"

inductive_cases system_stepE: "system_step E (c, ts) s"

text \<open>The same by a given schedule.\<close>

fun schedule :: "'pub sig_env \<Rightarrow> (nat \<Rightarrow> nat) \<Rightarrow> nat list \<Rightarrow> 'pub system \<Rightarrow> 'pub system option" where
  "schedule E rnd [] s = Some s"
| "schedule E rnd (i # is) (c, ts) =
     (if i < length ts then
        (case thread_step E rnd (fst (ts ! i)) (snd (ts ! i)) c of
           None \<Rightarrow> None
         | Some (p, c) \<Rightarrow> schedule E rnd is (c, ts[i := (fst (ts ! i), p)]))
      else None)"

lemma schedule_steps: "schedule E rnd is s = Some s' \<Longrightarrow> (system_step E)\<^sup>*\<^sup>* s s'"
proof (induction E rnd "is" s rule: schedule.induct)
  case (2 E rnd i js c ts)
  then obtain p c1 where i: "i < length ts" and p: "thread_step E rnd (fst (ts ! i)) (snd (ts ! i)) c = Some (p, c1)"
    and "schedule E rnd js (c1, ts[i := (fst (ts ! i), p)]) = Some s'"
    by (auto split: if_splits option.splits)
  then have "(system_step E)\<^sup>*\<^sup>* (c1, ts[i := (fst (ts ! i), p)]) s'" using 2(1) by blast
  moreover have "system_step E (c, ts) (c1, ts[i := (fst (ts ! i), p)])"
    by (rule system_step.thread [OF i _ p]) simp
  ultimately show ?case by (rule converse_rtranclp_into_rtranclp [rotated])
qed simp

definition start :: "byte list \<Rightarrow> (bool \<times> 'pub script_run) list \<Rightarrow> 'pub system" where
  "start n jobs = (CSignatureCache_init n, map (\<lambda>(store, t). (store, Running t)) jobs)"

text \<open>The verdict that a thread still has to give, and what it may be about to store.\<close>

fun outcome :: "'pub sig_env \<Rightarrow> 'pub phase \<Rightarrow> bool" where
  "outcome E (Running t) = plain_run E t"
| "outcome E (Found entry t) = plain_run E t"
| "outcome E (Missed s p h entry k) = plain_run E (Check s p h k)"
| "outcome E (Storing entry t) = plain_run E t"

fun entry_ok :: "'pub sig_env \<Rightarrow> byte list \<Rightarrow> 'pub phase \<Rightarrow> bool" where
  "entry_ok E n (Missed s p h entry k) \<longleftrightarrow> entry = sha256 E (n @ hash_bytes E h @ pub_bytes E p @ s)"
| "entry_ok E n (Storing entry t) \<longleftrightarrow> entry \<in> valid_entries E n"
| "entry_ok E n p \<longleftrightarrow> True"

definition cache_ok :: "'pub sig_env \<Rightarrow> byte list \<Rightarrow> CSignatureCache \<Rightarrow> bool" where
  "cache_ok E n c \<longleftrightarrow> nonce c = n \<and> set (setValid c) \<subseteq> valid_entries E n"

text \<open>No valid triple has the entry of an invalid one.\<close>

definition entries_separate :: "'pub sig_env \<Rightarrow> byte list \<Rightarrow> bool" where
  "entries_separate E n \<longleftrightarrow> (\<forall>s p h. sha256 E (n @ hash_bytes E h @ pub_bytes E p @ s) \<in> valid_entries E n \<longrightarrow> verify E s p h)"

lemma valid_entryI:
  "verify E s p h \<Longrightarrow> sha256 E (n @ hash_bytes E h @ pub_bytes E p @ s) \<in> valid_entries E n"
  by (auto simp: valid_entries_def)

lemma thread_step_keeps:
  assumes "entries_separate E n" "cache_ok E n c" "entry_ok E n p" "thread_step E rnd store p c = Some (p', c')"
  shows "cache_ok E n c' \<and> entry_ok E n p' \<and> outcome E p' = outcome E p"
proof (cases p)
  case (Running t)
  then obtain s pk h k where t: "t = Check s pk h k" using assms(4) by (cases t) auto
  let ?e = "ComputeEntry E c h s pk"
  have e: "?e = sha256 E (n @ hash_bytes E h @ pub_bytes E pk @ s)"
    using assms(2) by (simp add: ComputeEntry_def cache_ok_def)
  show ?thesis
  proof (cases "cache_Get c ?e")
    case True
    then have "verify E s pk h"
      using assms(1,2) e by (auto simp: cache_Get_def cache_ok_def entries_separate_def)
    then show ?thesis using assms(2,4) True by (cases store) (auto simp: Running t Let_def)
  next
    case False
    then show ?thesis using assms(2,4) e by (auto simp: Running t Let_def)
  qed
next
  case (Found entry t)
  then show ?thesis using assms(2,4) by (auto simp: cache_ok_def cache_Erase_def)
next
  case (Missed s pk h entry k)
  then show ?thesis using assms(2-4)
    by (cases "verify E s pk h"; cases store) (auto intro: valid_entryI)
next
  case (Storing entry t)
  then show ?thesis using assms(2-4)
    by (auto simp: cache_ok_def dest!: cache_Set_entries split: option.splits)
qed

definition system_ok :: "'pub sig_env \<Rightarrow> byte list \<Rightarrow> (bool \<times> 'pub script_run) list \<Rightarrow> 'pub system \<Rightarrow> bool" where
  "system_ok E n jobs s \<longleftrightarrow> cache_ok E n (fst s) \<and>
     list_all2 (\<lambda>j t. fst t = fst j \<and> entry_ok E n (snd t) \<and> outcome E (snd t) = plain_run E (snd j)) jobs (snd s)"

lemma start_ok: "system_ok E n jobs (start n jobs)"
  by (auto simp: system_ok_def start_def cache_ok_def CSignatureCache_init_def list_all2_conv_all_nth split: prod.split)

lemma system_step_keeps:
  assumes "entries_separate E n" "system_ok E n jobs s" "system_step E s s'"
  shows "system_ok E n jobs s'"
  using assms(3)
proof cases
  case (thread i ts store p rnd c p' c')
  then have l: "list_all2 (\<lambda>j t. fst t = fst j \<and> entry_ok E n (snd t) \<and> outcome E (snd t) = plain_run E (snd j)) jobs ts"
    and c: "cache_ok E n c" using assms(2) by (simp_all add: system_ok_def)
  then have i: "i < length jobs" "store = fst (jobs ! i)" "entry_ok E n p" "outcome E p = plain_run E (snd (jobs ! i))"
    using list_all2_nthD2 [OF l thread(3)] list_all2_lengthD [OF l] thread(3,4) by simp_all
  have "cache_ok E n c' \<and> entry_ok E n p' \<and> outcome E p' = outcome E p"
    by (rule thread_step_keeps [OF assms(1) c i(3) thread(5)])
  then show ?thesis using l i unfolding thread(2) system_ok_def
    by (auto simp: list_all2_conv_all_nth nth_list_update)
qed

lemma reachable_ok:
  assumes "entries_separate E n" "(system_step E)\<^sup>*\<^sup>* (start n jobs) s"
  shows "system_ok E n jobs s"
  using assms(2) by induction (auto intro: start_ok system_step_keeps [OF assms(1)])

section \<open>Properties\<close>

text \<open>
  C18: sharing the cache does not change a verdict. Whatever checks run in however many
  threads, in whatever order their steps interleave and whatever the random numbers are,
  every thread that has finished has the verdict it would have without a cache, provided
  that no valid triple of signature, key and hash has the SHA-256 entry of an invalid one;
  and the cache then holds entries of valid triples only.
\<close>

theorem concurrent_verdicts_exact:
  assumes "(system_step E)\<^sup>*\<^sup>* (start n jobs) (c, ts)" "entries_separate E n"
    and "i < length ts" "snd (ts ! i) = Running (Verdict b)"
  shows "i < length jobs \<and> b = plain_run E (snd (jobs ! i)) \<and> set (setValid c) \<subseteq> valid_entries E n"
proof (intro conjI)
  have "system_ok E n jobs (c, ts)" by (rule reachable_ok [OF assms(2,1)])
  then have l: "list_all2 (\<lambda>j t. fst t = fst j \<and> entry_ok E n (snd t) \<and> outcome E (snd t) = plain_run E (snd j)) jobs ts"
    and c: "cache_ok E n c" by (simp_all add: system_ok_def)
  show "i < length jobs" using list_all2_lengthD [OF l] assms(3) by simp
  show "b = plain_run E (snd (jobs ! i))" using list_all2_nthD2 [OF l assms(3)] assms(4) by simp
  show "set (setValid c) \<subseteq> valid_entries E n" using c by (simp add: cache_ok_def)
qed

section \<open>An example\<close>

text \<open>
  Two threads check the same signature, one of them removes what it finds; the entry is
  stored by the first, found by the second and removed.
\<close>

definition demo_thread_env :: "unit sig_env" where
  "demo_thread_env = \<lparr>sha256 = (\<lambda>bs. if bs = [1] then 1 else 0), hash_bytes = (\<lambda>h. []), pub_bytes = (\<lambda>p. []),
     verify = (\<lambda>s p h. s = [1]), DynamicUsage = length, bucket_count = (\<lambda>s. 1),
     bucket = (\<lambda>s k. case s of [] \<Rightarrow> None | x # _ \<Rightarrow> Some x), max_size_arg = 32\<rparr>"

definition demo_jobs :: "(bool \<times> unit script_run) list" where
  "demo_jobs = [(True, Check [1] () 0 Verdict),
     (False, Check [1] () 0 (\<lambda>b. if b then Check [2] () 0 Verdict else Verdict b))]"

definition demo_end :: "unit system" where
  "demo_end = (CSignatureCache_init [], [(True, Running (Verdict True)), (False, Running (Verdict False))])"

lemma demo_separate: "entries_separate demo_thread_env []"
  by (auto simp: entries_separate_def valid_entries_def demo_thread_env_def split: if_splits)

lemma demo_thread_simps:
  "ComputeEntry demo_thread_env c h s p = (if nonce c @ s = [1] then 1 else 0)"
  "verify demo_thread_env s p h = (s = [1])"
  by (simp_all add: demo_thread_env_def ComputeEntry_def)

lemma demo_Set: "cache_Set demo_thread_env rnd \<lparr>nonce = [], setValid = []\<rparr> entry = Some \<lparr>nonce = [], setValid = [entry]\<rparr>"
  by (simp add: cache_Set_def nMaxCacheSize_def demo_thread_env_def evict.simps)

lemma demo_schedule: "schedule demo_thread_env (\<lambda>k. 0) [0, 0, 0, 1, 1, 1, 1] (start [] demo_jobs) = Some demo_end"
  by (simp add: start_def demo_jobs_def demo_end_def CSignatureCache_init_def demo_thread_simps demo_Set
      cache_Get_def cache_Erase_def)

theorem concurrent_verdicts_exact_witness:
  "(system_step demo_thread_env)\<^sup>*\<^sup>* (start [] demo_jobs) demo_end \<and> 1 < length demo_jobs \<and>
   False = plain_run demo_thread_env (snd (demo_jobs ! 1)) \<and> set [] \<subseteq> valid_entries demo_thread_env []"
proof -
  have r: "(system_step demo_thread_env)\<^sup>*\<^sup>* (start [] demo_jobs) demo_end"
    by (rule schedule_steps [OF demo_schedule])
  then show ?thesis
    using concurrent_verdicts_exact [OF r [unfolded demo_end_def] demo_separate, of 1 False]
    by (simp add: CSignatureCache_init_def)
qed

end
