(* ===== verification/Consensus.thy ===== *)
theory Consensus
  imports Prelude
begin

text \<open>
  The script verification library, \<open>chainx-ui.id/consensus/chainxconcensus.cpp\<close>. The
  transaction decoder, the serialized size and \<open>VerifyScript\<close> are not part of the repository
  and are fields of \<open>consensus_env\<close>. A decoder is a tree of the reads it makes on its
  stream, since reading is all the stream offers to it. Buffers are the bytes that are really
  there, with \<open>None\<close> for a null pointer, beside the length the caller states.
\<close>

section \<open>The input stream\<close>

record TxInputStream =
  m_type :: int
  m_version :: int
  m_data :: "byte list option"
  m_remaining :: nat

definition TxInputStream_init :: "int \<Rightarrow> int \<Rightarrow> byte list option \<Rightarrow> nat \<Rightarrow> TxInputStream" where
  "TxInputStream_init nTypeIn nVersionIn txTo txToLen =
     \<lparr>m_type = nTypeIn, m_version = nVersionIn, m_data = txTo, m_remaining = txToLen\<rparr>"

text \<open>
  \<open>read\<close>: the flag tells whether the destination is not null; the bytes are what \<open>memcpy\<close>
  copies there.
\<close>

definition stream_read :: "TxInputStream \<Rightarrow> bool \<Rightarrow> nat \<Rightarrow> (byte list \<times> TxInputStream) res" where
  "stream_read s pch nSize =
     (if m_remaining s < nSize then Inl (Thrown ''read: end of data'')
      else if \<not> pch then Inl (Thrown ''read: bad destination buffer'')
      else case m_data s of
        None \<Rightarrow> Inl (Thrown ''read: bad source buffer'')
      | Some d \<Rightarrow>
          if length d < nSize then Inl BufferOverflow
          else Inr (take nSize d,
                 s\<lparr>m_remaining := m_remaining s - nSize, m_data := Some (drop nSize d)\<rparr>))"

datatype 'a decoder =
    Decoded 'a
  | DecodeThrow string
  | Read bool nat "byte list \<Rightarrow> 'a decoder"

primrec stream_decode :: "'a decoder \<Rightarrow> TxInputStream \<Rightarrow> ('a \<times> TxInputStream) res" where
  "stream_decode (Decoded x) s = Inr (x, s)"
| "stream_decode (DecodeThrow e) s = Inl (Thrown e)"
| "stream_decode (Read pch n k) s = rbind (stream_read s pch n) (\<lambda>(bs, s). stream_decode (k bs) s)"

section \<open>The library call\<close>

datatype chainxconsensus_error =
    chainx_ERR_OK | bitcoinconsensus_ERR_TX_INDEX | chainxconsensus_ERR_TX_SIZE_MISMATCH
  | chainx_ERR_TX_DESERIALIZE

record 'tx consensus_env =
  SER_NETWORK :: int
  PROTOCOL_VERSION :: int
  CHAINX_API_VER :: u32
  Unserialize :: "int \<Rightarrow> int \<Rightarrow> 'tx decoder"
  vin_scriptSigs :: "'tx \<Rightarrow> byte list list"
  GetSerializeSize :: "'tx \<Rightarrow> int \<Rightarrow> int \<Rightarrow> nat"
  VerifyScript :: "byte list \<Rightarrow> byte list \<Rightarrow> u32 \<Rightarrow> 'tx \<Rightarrow> nat \<Rightarrow> bool res"

text \<open>
  \<open>set_error\<close> writes through a pointer that may be null (\<open>None\<close>) and returns 0.
\<close>

definition set_error ::
    "chainxconsensus_error option \<Rightarrow> chainxconsensus_error \<Rightarrow> int \<times> chainxconsensus_error option" where
  "set_error ret serror = (0, case ret of None \<Rightarrow> None | Some _ \<Rightarrow> Some serror)"

definition script_of_buffer :: "byte list option \<Rightarrow> nat \<Rightarrow> byte list res" where
  "script_of_buffer p len = (case p of
     None \<Rightarrow> if len = 0 then Inr [] else Inl NullDeref
   | Some d \<Rightarrow> if length d < len then Inl BufferOverflow else Inr (take len d))"

definition catch_std :: "'a \<Rightarrow> 'a res \<Rightarrow> 'a res" where
  "catch_std h r = (case r of Inl (Thrown e) \<Rightarrow> Inr h | _ \<Rightarrow> r)"

definition bitcoinconsensus_verify_script ::
    "'tx consensus_env \<Rightarrow> byte list option \<Rightarrow> u32 \<Rightarrow> byte list option \<Rightarrow> u32 \<Rightarrow> u32 \<Rightarrow> u32 \<Rightarrow>
     chainxconsensus_error option \<Rightarrow> (int \<times> chainxconsensus_error option) res" where
  "bitcoinconsensus_verify_script E scriptPubKey scriptPubKeyLen txTo txToLen nIn flags err =
     catch_std (set_error err chainx_ERR_TX_DESERIALIZE)
      (rbind (stream_decode (Unserialize E (SER_NETWORK E) (PROTOCOL_VERSION E))
               (TxInputStream_init (SER_NETWORK E) (PROTOCOL_VERSION E) txTo (unat txToLen)))
        (\<lambda>(tx, s).
          if length (vin_scriptSigs E tx) \<le> unat nIn then Inr (set_error err bitcoinconsensus_ERR_TX_INDEX)
          else if GetSerializeSize E tx (SER_NETWORK E) (PROTOCOL_VERSION E) \<noteq> unat txToLen then
            Inr (set_error err chainxconsensus_ERR_TX_SIZE_MISMATCH)
          else
            rbind (script_of_buffer scriptPubKey (unat scriptPubKeyLen)) (\<lambda>script.
            rbind (VerifyScript E (vin_scriptSigs E tx ! unat nIn) script flags tx (unat nIn)) (\<lambda>r.
            Inr (if r then 1 else 0, snd (set_error err chainx_ERR_OK))))))"

definition chainx_version :: "'tx consensus_env \<Rightarrow> u32" where
  "chainx_version E = CHAINX_API_VER E"

section \<open>The decoder as a parser of the bytes\<close>

primrec parse :: "'a decoder \<Rightarrow> byte list \<Rightarrow> ('a \<times> byte list) option" where
  "parse (Decoded x) bs = Some (x, bs)"
| "parse (DecodeThrow e) bs = None"
| "parse (Read pch n k) bs = (if pch \<and> n \<le> length bs then parse (k (take n bs)) (drop n bs) else None)"

definition stream_over :: "byte list \<Rightarrow> TxInputStream \<Rightarrow> bool" where
  "stream_over d s \<longleftrightarrow> m_data s = Some d \<and> m_remaining s = length d"

lemma stream_over_init: "stream_over d (TxInputStream_init t v (Some d) (length d))"
  by (simp add: stream_over_def TxInputStream_init_def)

lemma stream_read_over:
  assumes "stream_over d s"
  shows "if pch \<and> n \<le> length d
    then \<exists>s'. stream_read s pch n = Inr (take n d, s') \<and> stream_over (drop n d) s'
    else \<exists>e. stream_read s pch n = Inl (Thrown e)"
  using assms by (auto simp: stream_over_def stream_read_def)

lemma stream_decode_parse:
  "stream_over d s \<Longrightarrow>
    (case parse p d of
       None \<Rightarrow> \<exists>e. stream_decode p s = Inl (Thrown e)
     | Some (x, r) \<Rightarrow> \<exists>s'. stream_decode p s = Inr (x, s') \<and> stream_over r s')"
proof (induction p arbitrary: d s)
  case (Read pch n k)
  show ?case
  proof (cases "pch \<and> n \<le> length d")
    case True
    then obtain s' where s': "stream_read s pch n = Inr (take n d, s')" "stream_over (drop n d) s'"
      using stream_read_over [OF Read.prems, of pch n] by auto
    have e: "stream_decode (Read pch n k) s = stream_decode (k (take n d)) s'" using s'(1) by simp
    have e': "parse (Read pch n k) d = parse (k (take n d)) (drop n d)" using True by simp
    show ?thesis unfolding e e' by (rule Read.IH [OF _ s'(2)]) simp
  next
    case False
    then show ?thesis using stream_read_over [OF Read.prems, of pch n] by auto
  qed
qed auto

section \<open>The contract of the call\<close>

text \<open>
  What the call promises for buffers that are as long as stated: the code it reports and,
  with the code \<open>chainx_ERR_OK\<close>, the verdict.
\<close>

definition verify_spec ::
    "'tx consensus_env \<Rightarrow> byte list \<Rightarrow> byte list \<Rightarrow> u32 \<Rightarrow> u32 \<Rightarrow> chainxconsensus_error \<times> bool" where
  "verify_spec E script txd nIn flags =
     (case parse (Unserialize E (SER_NETWORK E) (PROTOCOL_VERSION E)) txd of
        None \<Rightarrow> (chainx_ERR_TX_DESERIALIZE, False)
      | Some (tx, r) \<Rightarrow>
          if length (vin_scriptSigs E tx) \<le> unat nIn then (bitcoinconsensus_ERR_TX_INDEX, False)
          else if GetSerializeSize E tx (SER_NETWORK E) (PROTOCOL_VERSION E) \<noteq> length txd
          then (chainxconsensus_ERR_TX_SIZE_MISMATCH, False)
          else case VerifyScript E (vin_scriptSigs E tx ! unat nIn) script flags tx (unat nIn) of
            Inl e \<Rightarrow> (chainx_ERR_TX_DESERIALIZE, False)
          | Inr v \<Rightarrow> (chainx_ERR_OK, v))"

definition buffer_is :: "byte list option \<Rightarrow> u32 \<Rightarrow> byte list \<Rightarrow> bool" where
  "buffer_is p len d \<longleftrightarrow> p = Some d \<and> unat len = length d"

lemma script_of_buffer_is: "buffer_is p len d \<Longrightarrow> script_of_buffer p (unat len) = Inr d"
  by (auto simp: buffer_is_def script_of_buffer_def)

definition only_throws :: "'tx consensus_env \<Rightarrow> bool" where
  "only_throws E \<longleftrightarrow> (\<forall>s p f t n. case VerifyScript E s p f t n of Inl (Thrown _) \<Rightarrow> True | Inl _ \<Rightarrow> False | Inr _ \<Rightarrow> True)"

lemma only_throws_cases:
  assumes "only_throws E"
  obtains e where "VerifyScript E s p f t n = Inl (Thrown e)" | v where "VerifyScript E s p f t n = Inr v"
proof (cases "VerifyScript E s p f t n")
  case (Inl x)
  moreover have "case VerifyScript E s p f t n of Inl (Thrown _) \<Rightarrow> True | Inl _ \<Rightarrow> False | Inr _ \<Rightarrow> True"
    using assms unfolding only_throws_def by blast
  ultimately show ?thesis using that(1) by (cases x) auto
qed (use that in auto)

lemma catch_std_simps [simp]:
  "catch_std h (Inl (Thrown e)) = Inr h" "catch_std h (Inr x) = Inr x"
  by (simp_all add: catch_std_def)

lemma verify_decoded:
  assumes "stream_decode (Unserialize E (SER_NETWORK E) (PROTOCOL_VERSION E))
      (TxInputStream_init (SER_NETWORK E) (PROTOCOL_VERSION E) txTo (unat txToLen)) = Inr (tx, s)"
    and "buffer_is scriptPubKey scriptPubKeyLen script"
  shows "bitcoinconsensus_verify_script E scriptPubKey scriptPubKeyLen txTo txToLen nIn flags err =
     (if length (vin_scriptSigs E tx) \<le> unat nIn then Inr (set_error err bitcoinconsensus_ERR_TX_INDEX)
      else if GetSerializeSize E tx (SER_NETWORK E) (PROTOCOL_VERSION E) \<noteq> unat txToLen
      then Inr (set_error err chainxconsensus_ERR_TX_SIZE_MISMATCH)
      else catch_std (set_error err chainx_ERR_TX_DESERIALIZE)
        (rbind (VerifyScript E (vin_scriptSigs E tx ! unat nIn) script flags tx (unat nIn))
          (\<lambda>r. Inr (if r then 1 else 0, snd (set_error err chainx_ERR_OK)))))"
  using assms by (simp add: bitcoinconsensus_verify_script_def script_of_buffer_is)

text \<open>
  C27: the library call implements its contract. For buffers as long as stated it never
  touches memory outside them, and it returns exactly the code and the verdict of
  \<open>verify_spec\<close>: 1 only for a transaction that is decoded, has the input, has no trailing
  bytes by its serialized size, and whose script verification succeeds.
\<close>

theorem verify_script_contract:
  assumes "buffer_is scriptPubKey scriptPubKeyLen script" "buffer_is txTo txToLen txd" "only_throws E"
  shows "bitcoinconsensus_verify_script E scriptPubKey scriptPubKeyLen txTo txToLen nIn flags err =
     Inr (if snd (verify_spec E script txd nIn flags) then 1 else 0,
          snd (set_error err (fst (verify_spec E script txd nIn flags))))"
proof -
  let ?d = "Unserialize E (SER_NETWORK E) (PROTOCOL_VERSION E)"
  let ?s = "TxInputStream_init (SER_NETWORK E) (PROTOCOL_VERSION E) txTo (unat txToLen)"
  have s: "stream_over txd ?s" using assms(2) by (simp add: buffer_is_def stream_over_init)
  have len: "unat txToLen = length txd" using assms(2) by (simp add: buffer_is_def)
  show ?thesis
  proof (cases "parse ?d txd")
    case None
    then show ?thesis using stream_decode_parse [OF s, of ?d]
      by (auto simp: bitcoinconsensus_verify_script_def verify_spec_def set_error_def)
  next
    case (Some a)
    then obtain tx r s' where p: "parse ?d txd = Some (tx, r)" "stream_decode ?d ?s = Inr (tx, s')"
      using stream_decode_parse [OF s, of ?d] by (cases a) auto
    show ?thesis
      by (cases rule: only_throws_cases [OF assms(3), of "vin_scriptSigs E tx ! unat nIn" script flags tx "unat nIn"])
        (cases err; simp add: verify_decoded [OF p(2) assms(1)] verify_spec_def set_error_def p(1) len)+
  qed
qed

definition demo_consensus :: "byte list consensus_env" where
  "demo_consensus = \<lparr>SER_NETWORK = 1, PROTOCOL_VERSION = 70000, CHAINX_API_VER = 0,
     Unserialize = (\<lambda>t v. Read True 2 Decoded), vin_scriptSigs = (\<lambda>tx. [tx]),
     GetSerializeSize = (\<lambda>tx t v. length tx),
     VerifyScript = (\<lambda>sig script flags tx n. if script = [] then Inl (Thrown ''empty'') else Inr (sig = script))\<rparr>"

lemma demo_only_throws: "only_throws demo_consensus"
  by (auto simp: only_throws_def demo_consensus_def split: sum.splits if_splits)

theorem verify_script_contract_witness:
  "bitcoinconsensus_verify_script demo_consensus (Some [1, 2]) 2 (Some [1, 2]) 2 0 0 (Some chainx_ERR_TX_DESERIALIZE) =
     Inr (1, Some chainx_ERR_OK) \<and>
   bitcoinconsensus_verify_script demo_consensus (Some [1, 2]) 2 (Some [1, 2, 3]) 3 0 0 None = Inr (0, None)"
  using verify_script_contract [of "Some [1, 2]" 2 "[1, 2]" "Some [1, 2]" 2 "[1, 2]" demo_consensus 0 0 "Some chainx_ERR_TX_DESERIALIZE"]
    verify_script_contract [of "Some [1, 2]" 2 "[1, 2]" "Some [1, 2, 3]" 3 "[1, 2, 3]" demo_consensus 0 0 None]
  by (simp add: buffer_is_def demo_only_throws verify_spec_def set_error_def) (simp add: demo_consensus_def)

text \<open>
  A script verification that throws is reported as a transaction that cannot be decoded,
  although the call has recorded that the transaction has no error.
\<close>

theorem verification_exception_blames_transaction:
  assumes "buffer_is scriptPubKey scriptPubKeyLen script" "buffer_is txTo txToLen txd"
    and "parse (Unserialize E (SER_NETWORK E) (PROTOCOL_VERSION E)) txd = Some (tx, r)"
    and "unat nIn < length (vin_scriptSigs E tx)"
    and "GetSerializeSize E tx (SER_NETWORK E) (PROTOCOL_VERSION E) = length txd"
    and "VerifyScript E (vin_scriptSigs E tx ! unat nIn) script flags tx (unat nIn) = Inl (Thrown e)"
  shows "bitcoinconsensus_verify_script E scriptPubKey scriptPubKeyLen txTo txToLen nIn flags (Some err) =
     Inr (0, Some chainx_ERR_TX_DESERIALIZE)"
proof -
  have "stream_over txd (TxInputStream_init (SER_NETWORK E) (PROTOCOL_VERSION E) txTo (unat txToLen))"
    using assms(2) by (simp add: buffer_is_def stream_over_init)
  from stream_decode_parse [OF this, of "Unserialize E (SER_NETWORK E) (PROTOCOL_VERSION E)"] assms(2-6) show ?thesis
    by (auto simp: verify_decoded [OF _ assms(1)] set_error_def buffer_is_def)
qed

theorem verification_exception_blames_transaction_witness:
  "bitcoinconsensus_verify_script demo_consensus (Some []) 0 (Some [1, 2]) 2 0 0 (Some chainx_ERR_OK) =
     Inr (0, Some chainx_ERR_TX_DESERIALIZE)"
  by (rule verification_exception_blames_transaction [where script = "[]" and txd = "[1, 2]" and tx = "[1, 2]" and r = "[]" and e = "''empty''"])
    (simp_all add: demo_consensus_def buffer_is_def)

end
