(* ===== verification/WalletDb.thy ===== *)
theory WalletDb
  imports StdMap "HOL-Library.Char_ord" "HOL-Library.List_Lexorder"
begin

text \<open>
  The wallet's database layer, \<open>Wallet/db.cpp\<close> and \<open>Wallet/db.h\<close>: the environment
  \<open>CDBEnv\<close> with its count of users per file, the accessor \<open>CDB\<close>, and the salvage of a damaged
  file. Berkeley DB, the paths and the configuration are not part of the repository: what
  they return is a field of \<open>bdb\<close>, and the calls that configure the environment are
  recorded. \<open>CDB::Close\<close>, \<open>Flush\<close>, \<open>Rewrite\<close> and a few more are declared only.
\<close>

section \<open>State\<close>

datatype db_flag = DB_CREATE | DB_INIT_LOCK | DB_INIT_LOG | DB_INIT_MPOOL | DB_INIT_TXN | DB_THREAD
  | DB_RECOVER | DB_PRIVATE | DB_AUTO_COMMIT | DB_TXN_WRITE_NOSYNC | DB_LOG_AUTO_REMOVE
  | DB_LOG_IN_MEMORY | DB_SALVAGE | DB_AGGRESSIVE | DB_NOOVERWRITE

datatype dbenv_call =
    New_DbEnv
  | Set_lg_dir string
  | Set_cachesize nat nat nat
  | Set_lg_bsize nat
  | Set_lg_max nat
  | Set_lk_max_locks nat
  | Set_lk_max_objects nat
  | Set_errfile string
  | Set_flags db_flag
  | Log_set_config db_flag
  | Env_open "string option" "db_flag list"
  | Env_close
  | Env_remove string
  | Txn_checkpoint
  | Lsn_reset string

text \<open>
  \<open>'db\<close> is the handle of an open database, and a null pointer in \<open>mapDb\<close> is \<open>None\<close>. The
  databases themselves, shared by all accessors of a file, are the state \<open>files\<close>.
\<close>

record ('db, 'w) CDBEnv =
  fDbEnvInit :: bool
  fMockDb :: bool
  strPath :: string
  mapFileUseCount :: "(string, int) stdmap"
  mapDb :: "(string, 'db option) stdmap"
  dbenv_calls :: "dbenv_call list"
  files :: 'w

record ('db, 'txn) CDB =
  pdb :: "'db option"
  strFile :: string
  activeTxn :: "'txn option"
  fReadOnly :: bool
  fFlushOnClose :: bool

text \<open>
  What one call sees of its surroundings: the return codes of Berkeley DB, and the
  operations on an open database with their results.
\<close>

record ('db, 'txn, 'w) bdb =
  privdb :: bool
  path_sub :: "string \<Rightarrow> string \<Rightarrow> string"
  GetDataDir :: string
  env_open_ret :: int
  new_Db :: "'w \<Rightarrow> 'db"
  mpf_set_flags_ret :: int
  db_open :: "'w \<Rightarrow> 'db \<Rightarrow> string option \<Rightarrow> string \<Rightarrow> db_flag list \<Rightarrow> int \<times> 'w"
  db_verify :: "'w \<Rightarrow> string \<Rightarrow> db_flag list \<Rightarrow> int \<times> string"
  DB_VERIFY_BAD :: int
  DB_NOTFOUND :: int
  db_get :: "'w \<Rightarrow> 'db \<Rightarrow> 'txn option \<Rightarrow> byte list \<Rightarrow> int \<times> byte list option"
  db_put :: "'w \<Rightarrow> 'db \<Rightarrow> 'txn option \<Rightarrow> byte list \<Rightarrow> byte list \<Rightarrow> db_flag list \<Rightarrow> int \<times> 'w"
  db_del :: "'w \<Rightarrow> 'db \<Rightarrow> 'txn option \<Rightarrow> byte list \<Rightarrow> int \<times> 'w"
  db_exists :: "'w \<Rightarrow> 'db \<Rightarrow> 'txn option \<Rightarrow> byte list \<Rightarrow> int"
  txn_begin :: "'w \<Rightarrow> int \<times> 'txn option \<times> 'w"
  txn_commit :: "'w \<Rightarrow> 'txn \<Rightarrow> int \<times> 'w"
  txn_abort :: "'w \<Rightarrow> 'txn \<Rightarrow> int \<times> 'w"
  ParseHex :: "string \<Rightarrow> byte list"
  ser_string :: "string \<Rightarrow> byte list"
  ser_int :: "int \<Rightarrow> byte list"
  unser_int :: "byte list \<Rightarrow> int \<Rightarrow> bool \<times> int"
  CLIENT_VERSION :: int
  format_ret :: "int \<Rightarrow> string"

definition note_calls :: "dbenv_call list \<Rightarrow> ('db, 'w) CDBEnv \<Rightarrow> ('db, 'w) CDBEnv" where
  "note_calls cs e = e\<lparr>dbenv_calls := dbenv_calls e @ cs\<rparr>"

section \<open>The environment\<close>

definition env_Reset :: "('db, 'w) CDBEnv \<Rightarrow> ('db, 'w) CDBEnv" where
  "env_Reset e = (note_calls [New_DbEnv] e)\<lparr>fDbEnvInit := False, fMockDb := False\<rparr>"

definition CDBEnv_init :: "'w \<Rightarrow> ('db, 'w) CDBEnv" where
  "CDBEnv_init w = env_Reset \<lparr>fDbEnvInit = False, fMockDb = False, strPath = [], mapFileUseCount = [],
     mapDb = [], dbenv_calls = [], files = w\<rparr>"

text \<open>An error of \<open>close\<close> is only logged.\<close>

definition EnvShutdown :: "('db, 'w) CDBEnv \<Rightarrow> ('db, 'w) CDBEnv" where
  "EnvShutdown e =
     (if \<not> fDbEnvInit e then e
      else note_calls (Env_close # (if \<not> fMockDb e then [Env_remove (strPath e)] else []))
             (e\<lparr>fDbEnvInit := False\<rparr>))"

definition env_Close :: "('db, 'w) CDBEnv \<Rightarrow> ('db, 'w) CDBEnv" where
  "env_Close e = EnvShutdown e"

definition open_flags :: "db_flag list" where
  "open_flags = [DB_CREATE, DB_INIT_LOCK, DB_INIT_LOG, DB_INIT_MPOOL, DB_INIT_TXN, DB_THREAD, DB_RECOVER]"

definition env_Open :: "('db, 'txn, 'w) bdb \<Rightarrow> ('db, 'w) CDBEnv \<Rightarrow> string \<Rightarrow> bool \<times> ('db, 'w) CDBEnv" where
  "env_Open B e pathIn =
     (if fDbEnvInit e then (True, e)
      else
        let e = e\<lparr>strPath := pathIn\<rparr>;
            e = note_calls [Set_lg_dir (path_sub B pathIn ''database''), Set_cachesize 0 0x100000 1,
                  Set_lg_bsize 0x10000, Set_lg_max 1048576, Set_lk_max_locks 40000, Set_lk_max_objects 40000,
                  Set_errfile (path_sub B pathIn ''db.log''), Set_flags DB_AUTO_COMMIT,
                  Set_flags DB_TXN_WRITE_NOSYNC, Log_set_config DB_LOG_AUTO_REMOVE,
                  Env_open (Some (strPath e)) (open_flags @ (if privdb B then [DB_PRIVATE] else []))] e
        in if env_open_ret B \<noteq> 0 then (False, e)
           else (True, e\<lparr>fDbEnvInit := True, fMockDb := False\<rparr>))"

text \<open>
  \<open>MakeMock\<close>, without the line 123, a function header inside the body that is not C++. It
  treats only positive codes as errors.
\<close>

definition MakeMock :: "('db, 'txn, 'w) bdb \<Rightarrow> ('db, 'w) CDBEnv \<Rightarrow> unit res \<times> ('db, 'w) CDBEnv" where
  "MakeMock B e =
     (if fDbEnvInit e then (Inl (Thrown ''CDBEnv::MakeMock: Already initialized''), e)
      else
        let e = note_calls [Set_cachesize 1 0 1, Set_lg_bsize (10485760 * 4), Set_lg_max 10485760,
                  Set_lk_max_locks 10000, Set_lk_max_objects 10000, Set_flags DB_AUTO_COMMIT,
                  Log_set_config DB_LOG_IN_MEMORY,
                  Env_open None [DB_CREATE, DB_INIT_LOCK, DB_INIT_LOG, DB_INIT_MPOOL, DB_INIT_TXN, DB_THREAD, DB_PRIVATE]] e
        in if env_open_ret B > 0 then
             (Inl (Thrown (''CDBEnv::MakeMock: Error '' @ format_ret B (env_open_ret B) @ '' opening database environment.'')), e)
           else (Inr (), e\<lparr>fDbEnvInit := True, fMockDb := True\<rparr>))"

datatype VerifyResult = VERIFY_OK | RECOVER_OK | RECOVER_FAIL

text \<open>\<open>recoverFunc\<close> may change the environment.\<close>

definition env_Verify ::
    "('db, 'txn, 'w) bdb \<Rightarrow> ('db, 'w) CDBEnv \<Rightarrow> string \<Rightarrow> (('db, 'w) CDBEnv \<Rightarrow> string \<Rightarrow> bool \<times> ('db, 'w) CDBEnv) option \<Rightarrow>
     (VerifyResult \<times> ('db, 'w) CDBEnv) res" where
  "env_Verify B e file recoverFunc =
     cxx_assert (\<not> smap_has (mapFileUseCount e) file)
       (if fst (db_verify B (files e) file []) = 0 then Inr (VERIFY_OK, e)
        else case recoverFunc of
          None \<Rightarrow> Inr (RECOVER_FAIL, e)
        | Some f \<Rightarrow> (let (fRecovered, e) = f e file in Inr (if fRecovered then RECOVER_OK else RECOVER_FAIL, e)))"

definition CheckpointLSN :: "('db, 'w) CDBEnv \<Rightarrow> string \<Rightarrow> ('db, 'w) CDBEnv" where
  "CheckpointLSN e file =
     (let e = note_calls [Txn_checkpoint] e in if fMockDb e then e else note_calls [Lsn_reset file] e)"

definition env_TxnBegin :: "('db, 'txn, 'w) bdb \<Rightarrow> ('db, 'w) CDBEnv \<Rightarrow> 'txn option \<times> ('db, 'w) CDBEnv" where
  "env_TxnBegin B e =
     (let (ret, ptxn, w) = txn_begin B (files e) in
      (if ptxn = None \<or> ret \<noteq> 0 then None else ptxn, e\<lparr>files := w\<rparr>))"

section \<open>Salvage\<close>

text \<open>
  A \<open>stringstream\<close> and \<open>getline\<close>: at the end of the stream the string is left as it was.
\<close>

record istream =
  content :: string
  eofbit :: bool

definition getline :: "istream \<Rightarrow> string \<Rightarrow> string \<times> istream" where
  "getline s old =
     (if eofbit s then (old, s)
      else case dropWhile (\<lambda>c. c \<noteq> CHR 0x0A) (content s) of
        [] \<Rightarrow> (content s, s\<lparr>content := [], eofbit := True\<rparr>)
      | _ # tail \<Rightarrow> (takeWhile (\<lambda>c. c \<noteq> CHR 0x0A) (content s), s\<lparr>content := tail\<rparr>))"

definition stream_left :: "istream \<Rightarrow> nat" where
  "stream_left s = (if eofbit s then 0 else Suc (length (content s)))"

lemma getline_progress: "\<not> eofbit s \<Longrightarrow> stream_left (snd (getline s old)) < stream_left s"
proof -
  assume a: "\<not> eofbit s"
  have "length (dropWhile (\<lambda>c. c \<noteq> CHR 0x0A) (content s)) \<le> length (content s)"
    by (rule length_dropWhile_le)
  then show ?thesis using a
    by (auto simp: getline_def stream_left_def split: list.split)
qed

lemma getline_weak: "stream_left (snd (getline s old)) \<le> stream_left s"
  using getline_progress [of s old] by (cases "eofbit s") (simp_all add: getline_def)

lemma getline_progress2:
  "\<not> eofbit s \<Longrightarrow> stream_left (snd (getline (snd (getline s old)) old')) < stream_left s"
  using getline_progress getline_weak by (rule le_less_trans [rotated])

function skip_header :: "istream \<Rightarrow> string \<Rightarrow> istream" where
  "skip_header s strLine =
     (if \<not> eofbit s \<and> strLine \<noteq> ''HEADER=END'' then
        skip_header (snd (getline s strLine)) (fst (getline s strLine))
      else s)"
  by pat_completeness auto
termination
  by (relation "measure (\<lambda>(s, l). stream_left s)") (simp_all add: getline_progress case_prod_unfold)

function salvage_data :: "(string \<Rightarrow> byte list) \<Rightarrow> istream \<Rightarrow> string \<Rightarrow> string \<Rightarrow> (byte list \<times> byte list) list" where
  "salvage_data hex s keyHex valueHex =
     (if \<not> eofbit s \<and> keyHex \<noteq> ''DATA=END'' then
        (let k = fst (getline s keyHex); s' = snd (getline s keyHex) in
         if k \<noteq> ''DATA=END'' then
           (let v = fst (getline s' valueHex); s'' = snd (getline s' valueHex)
            in (hex k, hex v) # salvage_data hex s'' k v)
         else salvage_data hex s' k valueHex)
      else [])"
  by pat_completeness auto
termination
  by (relation "measure (\<lambda>(hex, s, k, v). stream_left s)")
    (simp_all add: getline_progress getline_progress2)

declare skip_header.simps [simp del] salvage_data.simps [simp del]

definition salvage_dump :: "(string \<Rightarrow> byte list) \<Rightarrow> string \<Rightarrow> (byte list \<times> byte list) list" where
  "salvage_dump hex strDump = salvage_data hex (skip_header \<lparr>content = strDump, eofbit = False\<rparr> []) [] []"

definition Salvage ::
    "('db, 'txn, 'w) bdb \<Rightarrow> ('db, 'w) CDBEnv \<Rightarrow> string \<Rightarrow> bool \<Rightarrow> (byte list \<times> byte list) list \<Rightarrow>
     (bool \<times> (byte list \<times> byte list) list) res" where
  "Salvage B e file fAggressive vResult =
     cxx_assert (\<not> smap_has (mapFileUseCount e) file)
       (let (result, strDump) = db_verify B (files e) file (DB_SALVAGE # (if fAggressive then [DB_AGGRESSIVE] else [])) in
        if result = DB_VERIFY_BAD B \<and> \<not> fAggressive then Inr (False, vResult)
        else if result \<noteq> 0 \<and> result \<noteq> DB_VERIFY_BAD B then Inr (False, vResult)
        else Inr (result = 0, vResult @ salvage_dump (ParseHex B) strDump))"

section \<open>The accessor\<close>

text \<open>
  The templates, for a serialized key. \<open>unser\<close> reads a value in place: it returns whether it
  finished without an exception, and the value as far as it was read.
\<close>

definition CDB_Read ::
    "('db, 'txn, 'w) bdb \<Rightarrow> ('db, 'w) CDBEnv \<Rightarrow> ('db, 'txn) CDB \<Rightarrow> (byte list \<Rightarrow> 'v \<Rightarrow> bool \<times> 'v) \<Rightarrow>
     byte list \<Rightarrow> 'v \<Rightarrow> bool \<times> 'v" where
  "CDB_Read B e c unser key v = (case pdb c of
     None \<Rightarrow> (False, v)
   | Some h \<Rightarrow>
       (let (ret, datValue) = db_get B (files e) h (activeTxn c) key in
        case datValue of
          None \<Rightarrow> (False, v)
        | Some d \<Rightarrow> (let (ok, v) = unser d v in if \<not> ok then (False, v) else (ret = 0, v))))"

definition CDB_Write ::
    "('db, 'txn, 'w) bdb \<Rightarrow> ('db, 'w) CDBEnv \<Rightarrow> ('db, 'txn) CDB \<Rightarrow> byte list \<Rightarrow> byte list \<Rightarrow> bool \<Rightarrow>
     (bool \<times> ('db, 'w) CDBEnv) res" where
  "CDB_Write B e c key v fOverwrite = (case pdb c of
     None \<Rightarrow> Inr (False, e)
   | Some h \<Rightarrow>
       cxx_assert (\<not> fReadOnly c)
        (let (ret, w) = db_put B (files e) h (activeTxn c) key v (if fOverwrite then [] else [DB_NOOVERWRITE])
         in Inr (ret = 0, e\<lparr>files := w\<rparr>)))"

definition CDB_Erase ::
    "('db, 'txn, 'w) bdb \<Rightarrow> ('db, 'w) CDBEnv \<Rightarrow> ('db, 'txn) CDB \<Rightarrow> byte list \<Rightarrow> (bool \<times> ('db, 'w) CDBEnv) res" where
  "CDB_Erase B e c key = (case pdb c of
     None \<Rightarrow> Inr (False, e)
   | Some h \<Rightarrow>
       cxx_assert (\<not> fReadOnly c)
        (let (ret, w) = db_del B (files e) h (activeTxn c) key
         in Inr (ret = 0 \<or> ret = DB_NOTFOUND B, e\<lparr>files := w\<rparr>)))"

definition CDB_Exists ::
    "('db, 'txn, 'w) bdb \<Rightarrow> ('db, 'w) CDBEnv \<Rightarrow> ('db, 'txn) CDB \<Rightarrow> byte list \<Rightarrow> bool" where
  "CDB_Exists B e c key = (case pdb c of
     None \<Rightarrow> False
   | Some h \<Rightarrow> db_exists B (files e) h (activeTxn c) key = 0)"

definition TxnBegin ::
    "('db, 'txn, 'w) bdb \<Rightarrow> ('db, 'w) CDBEnv \<Rightarrow> ('db, 'txn) CDB \<Rightarrow> bool \<times> ('db, 'txn) CDB \<times> ('db, 'w) CDBEnv" where
  "TxnBegin B e c =
     (if pdb c = None \<or> activeTxn c \<noteq> None then (False, c, e)
      else (let (ptxn, e) = env_TxnBegin B e in
            if ptxn = None then (False, c, e) else (True, c\<lparr>activeTxn := ptxn\<rparr>, e)))"

definition TxnCommit ::
    "('db, 'txn, 'w) bdb \<Rightarrow> ('db, 'w) CDBEnv \<Rightarrow> ('db, 'txn) CDB \<Rightarrow> bool \<times> ('db, 'txn) CDB \<times> ('db, 'w) CDBEnv" where
  "TxnCommit B e c = (case activeTxn c of
     None \<Rightarrow> (False, c, e)
   | Some t \<Rightarrow>
       if pdb c = None then (False, c, e)
       else (let (ret, w) = txn_commit B (files e) t in (ret = 0, c\<lparr>activeTxn := None\<rparr>, e\<lparr>files := w\<rparr>)))"

definition TxnAbort ::
    "('db, 'txn, 'w) bdb \<Rightarrow> ('db, 'w) CDBEnv \<Rightarrow> ('db, 'txn) CDB \<Rightarrow> bool \<times> ('db, 'txn) CDB \<times> ('db, 'w) CDBEnv" where
  "TxnAbort B e c = (case activeTxn c of
     None \<Rightarrow> (False, c, e)
   | Some t \<Rightarrow>
       if pdb c = None then (False, c, e)
       else (let (ret, w) = txn_abort B (files e) t in (ret = 0, c\<lparr>activeTxn := None\<rparr>, e\<lparr>files := w\<rparr>)))"

definition ReadVersion ::
    "('db, 'txn, 'w) bdb \<Rightarrow> ('db, 'w) CDBEnv \<Rightarrow> ('db, 'txn) CDB \<Rightarrow> bool \<times> int" where
  "ReadVersion B e c = CDB_Read B e c (unser_int B) (ser_string B ''version'') 0"

definition WriteVersion ::
    "('db, 'txn, 'w) bdb \<Rightarrow> ('db, 'w) CDBEnv \<Rightarrow> ('db, 'txn) CDB \<Rightarrow> int \<Rightarrow> (bool \<times> ('db, 'w) CDBEnv) res" where
  "WriteVersion B e c nVersion = CDB_Write B e c (ser_string B ''version'') (ser_int B nVersion) True"

text \<open>
  A cursor and what it returns: code, key and value. The streams are the bytes they hold.
\<close>

datatype cursor_flag = DB_NEXT | DB_SET | DB_SET_RANGE | DB_GET_BOTH | DB_GET_BOTH_RANGE | DB_OTHER_FLAG

definition GetCursor :: "('db, 'txn) CDB \<Rightarrow> ('db \<Rightarrow> int \<times> 'cur option) \<Rightarrow> 'cur option" where
  "GetCursor c cursor = (case pdb c of
     None \<Rightarrow> None
   | Some h \<Rightarrow> (let (ret, pcursor) = cursor h in if ret \<noteq> 0 then None else pcursor))"

definition ReadAtCursor ::
    "(byte list option \<Rightarrow> byte list option \<Rightarrow> cursor_flag \<Rightarrow> int \<times> byte list option \<times> byte list option) \<Rightarrow>
     byte list \<Rightarrow> byte list \<Rightarrow> cursor_flag \<Rightarrow> int \<times> byte list \<times> byte list" where
  "ReadAtCursor cur_get ssKey ssValue fFlags =
     (let inKey = (if fFlags \<in> {DB_SET, DB_SET_RANGE, DB_GET_BOTH, DB_GET_BOTH_RANGE} then Some ssKey else None);
          inValue = (if fFlags \<in> {DB_GET_BOTH, DB_GET_BOTH_RANGE} then Some ssValue else None);
          (ret, datKey, datValue) = cur_get inKey inValue fFlags
      in if ret \<noteq> 0 then (ret, ssKey, ssValue)
         else case (datKey, datValue) of
           (Some k, Some v) \<Rightarrow> (0, k, v)
         | _ \<Rightarrow> (99999, ssKey, ssValue))"

section \<open>Opening a database\<close>

text \<open>The count of users of a file is an \<open>int\<close>: a file with the largest count takes no more.\<close>

definition use_count :: "('db, 'w) CDBEnv \<Rightarrow> string \<Rightarrow> int" where
  "use_count e file = (case smap_find (mapFileUseCount e) file of None \<Rightarrow> 0 | Some n \<Rightarrow> n)"

definition add_use :: "int \<Rightarrow> string \<Rightarrow> ('db, 'w) CDBEnv \<Rightarrow> ('db, 'w) CDBEnv" where
  "add_use d file e = e\<lparr>mapFileUseCount := smap_put (mapFileUseCount e) file (use_count e file + d)\<rparr>"

text \<open>
  The version is written through an accessor that is not read-only for the moment; the
  result of the write is not looked at.
\<close>

definition stamp_version ::
    "('db, 'txn, 'w) bdb \<Rightarrow> bool \<Rightarrow> ('db, 'txn) CDB \<Rightarrow> ('db, 'w) CDBEnv \<Rightarrow> ('db, 'w) CDBEnv res" where
  "stamp_version B fCreate c e =
     (if fCreate \<and> \<not> CDB_Exists B e c (ser_string B ''version'') then
        rbind (WriteVersion B e (c\<lparr>fReadOnly := False\<rparr>) (CLIENT_VERSION B)) (\<lambda>(_, e). Inr e)
      else Inr e)"

text \<open>The handle that \<open>mapDb\<close> has for a file; looking it up inserts a null pointer.\<close>

definition handle_of :: "('db, 'w) CDBEnv \<Rightarrow> string \<Rightarrow> 'db option" where
  "handle_of e f = (case smap_find (mapDb e) f of None \<Rightarrow> None | Some p \<Rightarrow> p)"

definition ready :: "string \<Rightarrow> ('db, 'w) CDBEnv \<Rightarrow> ('db, 'w) CDBEnv" where
  "ready name e = (let e = add_use 1 name e in
     if smap_has (mapDb e) name then e else e\<lparr>mapDb := smap_put (mapDb e) name None\<rparr>)"

definition new_CDB :: "string \<Rightarrow> string \<Rightarrow> bool \<Rightarrow> 'db option \<Rightarrow> ('db, 'txn) CDB" where
  "new_CDB name mode fl h = \<lparr>pdb = h, strFile = name, activeTxn = None,
     fReadOnly = CHR ''+'' \<notin> set mode \<and> CHR ''w'' \<notin> set mode, fFlushOnClose = fl\<rparr>"

definition env_failed :: cxx_error where
  "env_failed = Thrown ''CDB: Failed to open database environment.''"

definition pool_failed :: "string \<Rightarrow> cxx_error" where
  "pool_failed name = Thrown (''CDB: Failed to configure for no temp file backing for database '' @ name)"

definition open_failed :: "('db, 'txn, 'w) bdb \<Rightarrow> int \<Rightarrow> string \<Rightarrow> cxx_error" where
  "open_failed B ret name = Thrown (''CDB: Error '' @ format_ret B ret @ '', can't open database '' @ name)"

text \<open>The constructor when the file is not open yet.\<close>

definition open_new ::
    "('db, 'txn, 'w) bdb \<Rightarrow> ('db, 'w) CDBEnv \<Rightarrow> string \<Rightarrow> string \<Rightarrow> bool \<Rightarrow> ('db, 'txn) CDB res \<times> ('db, 'w) CDBEnv" where
  "open_new B e name mode fl =
     (let fCreate = (CHR ''c'' \<in> set mode);
          nFlags = DB_THREAD # (if fCreate then [DB_CREATE] else []);
          h = new_Db B (files e)
      in if fMockDb e \<and> mpf_set_flags_ret B \<noteq> 0 then (Inl (pool_failed name), e)
         else let (ret, w) = db_open B (files e) h (if fMockDb e then None else Some name)
                               (if fMockDb e then name else ''main'') nFlags;
                  e = e\<lparr>files := w\<rparr>
              in if ret \<noteq> 0 then (Inl (open_failed B ret name), add_use (- 1) name e)
                 else case stamp_version B fCreate (new_CDB name mode fl (Some h)) e of
                   Inl x \<Rightarrow> (Inl x, e)
                 | Inr e \<Rightarrow> (Inr (new_CDB name mode fl (Some h)), e\<lparr>mapDb := smap_put (mapDb e) name (Some h)\<rparr>))"

definition CDB_open ::
    "('db, 'txn, 'w) bdb \<Rightarrow> ('db, 'w) CDBEnv \<Rightarrow> string \<Rightarrow> string \<Rightarrow> bool \<Rightarrow> ('db, 'txn) CDB res \<times> ('db, 'w) CDBEnv" where
  "CDB_open B e strFilename pszMode fFlushOnCloseIn =
     (if strFilename = [] then (Inr (new_CDB [] pszMode fFlushOnCloseIn None), e)
      else let (ok, e) = env_Open B e (GetDataDir B) in
        if \<not> ok then (Inl env_failed, e)
        else if use_count e strFilename = i32_max then (Inl SignedOverflow, e)
        else case handle_of e strFilename of
          Some h \<Rightarrow> (Inr (new_CDB strFilename pszMode fFlushOnCloseIn (Some h)), ready strFilename e)
        | None \<Rightarrow> open_new B (ready strFilename e) strFilename pszMode fFlushOnCloseIn)"

section \<open>Lemmas on the dump\<close>

definition lines_text :: "string list \<Rightarrow> string" where
  "lines_text ls = concat (map (\<lambda>l. l @ [CHR 0x0A]) ls)"

lemma lines_text_simps [simp]:
  "lines_text [] = []" "lines_text (l # ls) = l @ CHR 0x0A # lines_text ls"
  "lines_text (ls @ ms) = lines_text ls @ lines_text ms"
  by (simp_all add: lines_text_def)

abbreviation at_text :: "string \<Rightarrow> istream" where
  "at_text t \<equiv> \<lparr>content = t, eofbit = False\<rparr>"

lemma getline_line:
  assumes "CHR 0x0A \<notin> set l"
  shows "getline (at_text (l @ CHR 0x0A # t)) old = (l, at_text t)"
proof -
  have "dropWhile (\<lambda>c. c \<noteq> CHR 0x0A) (l @ CHR 0x0A # t) = CHR 0x0A # t"
    "takeWhile (\<lambda>c. c \<noteq> CHR 0x0A) (l @ CHR 0x0A # t) = l"
    using assms by (induction l) auto
  then show ?thesis by (simp add: getline_def)
qed

lemma skip_header_lines:
  "\<forall>l \<in> set hs. CHR 0x0A \<notin> set l \<and> l \<noteq> ''HEADER=END'' \<Longrightarrow> old \<noteq> ''HEADER=END'' \<Longrightarrow>
   skip_header (at_text (lines_text (hs @ [''HEADER=END'']) @ t)) old = at_text t"
proof (induction hs arbitrary: old)
  case Nil
  then show ?case
    using getline_line [of "''HEADER=END''" t old] by (simp add: skip_header.simps)
next
  case (Cons h hs)
  then show ?case
    using getline_line [of h "lines_text (hs @ [''HEADER=END'']) @ t" old]
    by (subst skip_header.simps) simp
qed

definition data_lines :: "(string \<times> string) list \<Rightarrow> string list" where
  "data_lines kvs = concat (map (\<lambda>(k, v). [k, v]) kvs)"

lemma data_lines_simps [simp]:
  "data_lines [] = []" "data_lines ((k, v) # kvs) = k # v # data_lines kvs"
  by (simp_all add: data_lines_def)

lemma salvage_data_lines:
  assumes "\<forall>(k, v) \<in> set kvs. CHR 0x0A \<notin> set k \<and> CHR 0x0A \<notin> set v \<and> k \<noteq> ''DATA=END''"
    and "old \<noteq> ''DATA=END''"
  shows "salvage_data hex (at_text (lines_text (data_lines kvs) @ t)) old old' =
    map (\<lambda>(k, v). (hex k, hex v)) kvs @
    salvage_data hex (at_text t) (if kvs = [] then old else fst (last kvs)) (if kvs = [] then old' else snd (last kvs))"
  using assms
proof (induction kvs arbitrary: old old')
  case (Cons kv kvs)
  obtain k v where kv: "kv = (k, v)" by fastforce
  let ?t = "lines_text (data_lines kvs) @ t"
  have "getline (at_text (k @ CHR 0x0A # v @ CHR 0x0A # ?t)) old = (k, at_text (v @ CHR 0x0A # ?t))"
    "getline (at_text (v @ CHR 0x0A # ?t)) old' = (v, at_text ?t)"
    using Cons.prems(1) kv by (auto intro: getline_line)
  moreover have "k \<noteq> ''DATA=END''" using Cons.prems(1) kv by simp
  ultimately have "salvage_data hex (at_text (lines_text (data_lines (kv # kvs)) @ t)) old old' =
      (hex k, hex v) # salvage_data hex (at_text ?t) k v"
    using Cons.prems(2) by (subst salvage_data.simps) (simp add: kv Let_def)
  then show ?case using Cons.IH [of k v] Cons.prems(1) kv \<open>k \<noteq> ''DATA=END''\<close> by simp
qed simp

lemma salvage_data_end: "old \<noteq> ''DATA=END'' \<Longrightarrow> salvage_data hex (at_text (lines_text [''DATA=END''] @ t)) old old' = []"
  using getline_line [of "''DATA=END''" t old] by (subst salvage_data.simps) (simp add: Let_def salvage_data.simps)

text \<open>A header line, and a key and a value, as \<open>db_dump\<close> writes them.\<close>

definition header_line :: "string \<Rightarrow> bool" where
  "header_line l \<longleftrightarrow> CHR 0x0A \<notin> set l \<and> l \<noteq> ''HEADER=END''"

definition data_pair :: "string \<times> string \<Rightarrow> bool" where
  "data_pair kv \<longleftrightarrow> CHR 0x0A \<notin> set (fst kv) \<and> CHR 0x0A \<notin> set (snd kv) \<and> fst kv \<noteq> ''DATA=END''"

lemma salvage_dump_split:
  assumes "\<forall>l \<in> set hs. header_line l" "\<forall>kv \<in> set kvs. data_pair kv"
  shows "salvage_dump hex (lines_text (hs @ [''HEADER=END''] @ data_lines kvs) @ t) =
    map (\<lambda>(k, v). (hex k, hex v)) kvs @
    salvage_data hex (at_text t) (if kvs = [] then [] else fst (last kvs)) (if kvs = [] then [] else snd (last kvs))"
proof -
  have "skip_header (at_text (lines_text (hs @ [''HEADER=END'']) @ lines_text (data_lines kvs) @ t)) [] =
      at_text (lines_text (data_lines kvs) @ t)"
    using assms(1) by (intro skip_header_lines) (auto simp: header_line_def)
  moreover have "\<forall>(k, v) \<in> set kvs. CHR 0x0A \<notin> set k \<and> CHR 0x0A \<notin> set v \<and> k \<noteq> ''DATA=END''"
    using assms(2) by (auto simp: data_pair_def)
  ultimately show ?thesis
    unfolding salvage_dump_def using salvage_data_lines [of kvs "[]" hex t "[]"] by simp
qed

section \<open>Properties\<close>

text \<open>
  C21: a complete dump is salvaged exactly. From the text that the database's verifier writes
  (header lines, the end of the header, pairs of lines with a key and a value, the end of the
  data, and anything after it) \<open>Salvage\<close> gives every pair once, in order, and no other.
\<close>

theorem salvage_complete:
  assumes "\<forall>l \<in> set hs. header_line l" "\<forall>kv \<in> set kvs. data_pair kv" "\<not> smap_has (mapFileUseCount e) file"
    and "db_verify B (files e) file (DB_SALVAGE # (if aggressive then [DB_AGGRESSIVE] else [])) =
      (0, lines_text (hs @ [''HEADER=END''] @ data_lines kvs @ [''DATA=END'']) @ rest)"
    and "DB_VERIFY_BAD B \<noteq> 0"
  shows "Salvage B e file aggressive res = Inr (True, res @ map (\<lambda>(k, v). (ParseHex B k, ParseHex B v)) kvs)"
proof -
  let ?old = "if kvs = [] then [] else fst (last kvs)"
  have "?old \<noteq> ''DATA=END''" using assms(2) by (auto simp: data_pair_def)
  from salvage_data_end [OF this]
  have "salvage_dump (ParseHex B) (lines_text (hs @ [''HEADER=END''] @ data_lines kvs @ [''DATA=END'']) @ rest) =
      map (\<lambda>(k, v). (ParseHex B k, ParseHex B v)) kvs"
    using salvage_dump_split [OF assms(1,2), of "ParseHex B" "lines_text [''DATA=END''] @ rest"] by simp
  then show ?thesis using assms(3-5) by (simp add: Salvage_def)
qed

text \<open>
  An in-memory database: an association list. \<open>dump\<close> is what its verifier writes, and
  \<open>ret\<close> the code of opening a database.
\<close>

definition demo_bdb :: "string \<Rightarrow> int \<Rightarrow> (nat, unit, (byte list \<times> byte list) list) bdb" where
  "demo_bdb dump ret = \<lparr>privdb = True, path_sub = (\<lambda>p f. p @ ''/'' @ f), GetDataDir = ''d'', env_open_ret = 0,
     new_Db = (\<lambda>w. 1), mpf_set_flags_ret = 0, db_open = (\<lambda>w h f l fl. (ret, w)),
     db_verify = (\<lambda>w f fl. (0, dump)), DB_VERIFY_BAD = - 30970, DB_NOTFOUND = - 30988,
     db_get = (\<lambda>w h t k. case map_of w k of None \<Rightarrow> (- 30988, None) | Some v \<Rightarrow> (0, Some v)),
     db_put = (\<lambda>w h t k v fl. (0, (k, v) # w)), db_del = (\<lambda>w h t k. (0, filter (\<lambda>p. fst p \<noteq> k) w)),
     db_exists = (\<lambda>w h t k. case map_of w k of None \<Rightarrow> - 30988 | Some v \<Rightarrow> 0),
     txn_begin = (\<lambda>w. (0, Some (), w)), txn_commit = (\<lambda>w t. (0, w)), txn_abort = (\<lambda>w t. (0, w)),
     ParseHex = map of_char, ser_string = map of_char, ser_int = (\<lambda>i. [of_int i]),
     unser_int = (\<lambda>b i. (True, uint (hd b))), CLIENT_VERSION = 120, format_ret = (\<lambda>i. [])\<rparr>"

theorem salvage_complete_witness:
  "Salvage (demo_bdb (lines_text [''VERSION=3'', ''HEADER=END'', ''k'', ''v'', ''DATA=END'']) 0) (CDBEnv_init []) ''w'' True [] =
     Inr (True, [([of_char (CHR ''k'')], [of_char (CHR ''v'')])])"
  using salvage_complete [of "[''VERSION=3'']" "[(''k'', ''v'')]" "CDBEnv_init []" "''w''"
      "demo_bdb (lines_text [''VERSION=3'', ''HEADER=END'', ''k'', ''v'', ''DATA=END'']) 0" True "[]" "[]"]
  by (simp add: header_line_def data_pair_def demo_bdb_def CDBEnv_init_def env_Reset_def note_calls_def smap_has_def)

text \<open>
  A dump that breaks off yields a record that is not in it. If the text ends after the
  last pair, without the line \<open>DATA=END\<close>, \<open>Salvage\<close> adds a record with an empty key and the
  value of the last pair, since \<open>getline\<close> leaves its string alone at the end of the stream.
\<close>

theorem salvage_truncated_phantom:
  assumes "\<forall>l \<in> set hs. header_line l" "\<forall>kv \<in> set kvs. data_pair kv" "kvs \<noteq> []" "\<not> smap_has (mapFileUseCount e) file"
    and "db_verify B (files e) file [DB_SALVAGE, DB_AGGRESSIVE] =
      (DB_VERIFY_BAD B, lines_text (hs @ [''HEADER=END''] @ data_lines kvs))"
    and "DB_VERIFY_BAD B \<noteq> 0"
  shows "Salvage B e file True res = Inr (False, res @ map (\<lambda>(k, v). (ParseHex B k, ParseHex B v)) kvs @
     [(ParseHex B [], ParseHex B (snd (last kvs)))])"
proof -
  have "fst (last kvs) \<noteq> ''DATA=END''" using assms(2,3) by (auto simp: data_pair_def)
  then have "salvage_data (ParseHex B) (at_text []) (fst (last kvs)) (snd (last kvs)) =
      [(ParseHex B [], ParseHex B (snd (last kvs)))]"
    by (subst salvage_data.simps) (simp add: Let_def getline_def salvage_data.simps)
  then show ?thesis
    using salvage_dump_split [OF assms(1,2), of "ParseHex B" "[]"] assms(3-6) by (simp add: Salvage_def)
qed

theorem salvage_truncated_phantom_witness:
  "Salvage ((demo_bdb [] 0)\<lparr>db_verify := \<lambda>w f fl. (- 30970, lines_text [''HEADER=END'', ''k'', ''v''])\<rparr>)
     (CDBEnv_init []) ''w'' True [] =
   Inr (False, [([of_char (CHR ''k'')], [of_char (CHR ''v'')]), ([], [of_char (CHR ''v'')])])"
  using salvage_truncated_phantom [of "[]" "[(''k'', ''v'')]" "CDBEnv_init []" "''w''"
      "(demo_bdb [] 0)\<lparr>db_verify := \<lambda>w f fl. (- 30970, lines_text [''HEADER=END'', ''k'', ''v''])\<rparr>" "[]"]
  by (simp add: data_pair_def demo_bdb_def CDBEnv_init_def env_Reset_def note_calls_def smap_has_def)

section \<open>Users of a file\<close>

lemma use_count_add [simp]:
  "use_count (add_use d f e) g = (if g = f then use_count e f + d else use_count e g)"
  by (simp add: use_count_def add_use_def)

lemma use_count_unchanged [simp]:
  "use_count (e\<lparr>files := w\<rparr>) f = use_count e f" "use_count (e\<lparr>mapDb := m\<rparr>) f = use_count e f"
  "use_count (e\<lparr>fDbEnvInit := b\<rparr>) f = use_count e f" "use_count (e\<lparr>fMockDb := b\<rparr>) f = use_count e f"
  "use_count (e\<lparr>strPath := p\<rparr>) f = use_count e f" "use_count (note_calls cs e) f = use_count e f"
  by (simp_all add: use_count_def note_calls_def)

lemma env_Open_use_count: "env_Open B e p = (ok, e') \<Longrightarrow> use_count e' f = use_count e f"
  by (auto simp: env_Open_def Let_def split: if_splits)

lemma env_Open_init: "fDbEnvInit e \<Longrightarrow> env_Open B e p = (True, e)"
  by (simp add: env_Open_def)

lemma CDB_Write_env: "CDB_Write B e c k v ow = Inr (b, e') \<Longrightarrow> \<exists>w. e' = e\<lparr>files := w\<rparr>"
proof (cases "pdb c")
  case None
  assume "CDB_Write B e c k v ow = Inr (b, e')"
  then have "e' = e\<lparr>files := files e\<rparr>" using None by (simp add: CDB_Write_def)
  then show ?thesis by blast
next
  case (Some h)
  assume "CDB_Write B e c k v ow = Inr (b, e')"
  then show ?thesis using Some by (auto simp: CDB_Write_def cxx_assert_Inr_iff split: prod.splits)
qed

lemma stamp_version_env:
  assumes "stamp_version B fCreate c e = Inr e'"
  shows "\<exists>w. e' = e\<lparr>files := w\<rparr>"
proof (cases "fCreate \<and> \<not> CDB_Exists B e c (ser_string B ''version'')")
  case True
  then show ?thesis using assms
    by (auto simp: stamp_version_def WriteVersion_def rbind_Inr_iff dest: CDB_Write_env)
next
  case False
  then have "e' = e\<lparr>files := files e\<rparr>" using assms by (auto simp: stamp_version_def)
  then show ?thesis by blast
qed

lemma ready_simps [simp]:
  "fMockDb (ready name e) = fMockDb e" "files (ready name e) = files e"
  "use_count (ready name e) f = (if f = name then use_count e f + 1 else use_count e f)"
  "fDbEnvInit (ready name e) = fDbEnvInit e"
  "handle_of (ready name e) f = handle_of e f"
  by (simp_all add: ready_def Let_def) (auto simp: add_use_def handle_of_def smap_has_def)

lemma CDB_open_shared:
  assumes "fDbEnvInit e" "handle_of e name = Some h" "name \<noteq> []" "use_count e name \<noteq> i32_max"
  shows "CDB_open B e name mode fl = (Inr (new_CDB name mode fl (Some h)), ready name e)"
  using assms by (simp add: CDB_open_def env_Open_init)

lemma open_new_cases:
  assumes "db_open B (files e) (new_Db B (files e)) (if fMockDb e then None else Some name)
      (if fMockDb e then name else ''main'') (DB_THREAD # (if CHR ''c'' \<in> set mode then [DB_CREATE] else [])) = (ret, w)"
  shows "open_new B e name mode fl =
    (if fMockDb e \<and> mpf_set_flags_ret B \<noteq> 0 then (Inl (pool_failed name), e)
     else if ret \<noteq> 0 then (Inl (open_failed B ret name), add_use (- 1) name (e\<lparr>files := w\<rparr>))
     else case stamp_version B (CHR ''c'' \<in> set mode) (new_CDB name mode fl (Some (new_Db B (files e)))) (e\<lparr>files := w\<rparr>) of
        Inl x \<Rightarrow> (Inl x, e\<lparr>files := w\<rparr>)
      | Inr e3 \<Rightarrow> (Inr (new_CDB name mode fl (Some (new_Db B (files e)))),
          e3\<lparr>mapDb := smap_put (mapDb e3) name (Some (new_Db B (files e)))\<rparr>))"
  unfolding open_new_def Let_def assms prod.case by (rule refl)

lemma handle_of_unchanged [simp]:
  "handle_of (e\<lparr>files := w\<rparr>) f = handle_of e f" "handle_of (note_calls cs e) f = handle_of e f"
  "handle_of (add_use d g e) f = handle_of e f"
  "handle_of (e\<lparr>mapDb := smap_put (mapDb e) g p\<rparr>) f = (if f = g then p else handle_of e f)"
  by (simp_all add: handle_of_def note_calls_def add_use_def)

lemma init_unchanged [simp]:
  "fDbEnvInit (note_calls cs e) = fDbEnvInit e" "fDbEnvInit (add_use d g e) = fDbEnvInit e"
  by (simp_all add: note_calls_def add_use_def)

lemma open_new_any:
  assumes "open_new B e name mode fl = (r, e')"
  shows "fDbEnvInit e' = fDbEnvInit e \<and> (\<forall>f. f \<noteq> name \<longrightarrow> handle_of e' f = handle_of e f) \<and>
    (\<forall>c. r = Inr c \<longrightarrow> (\<forall>f. use_count e' f = use_count e f) \<and> (\<exists>h. pdb c = Some h \<and> handle_of e' name = Some h))"
proof -
  let ?h = "new_Db B (files e)"
  obtain ret w where d: "db_open B (files e) ?h (if fMockDb e then None else Some name)
      (if fMockDb e then name else ''main'') (DB_THREAD # (if CHR ''c'' \<in> set mode then [DB_CREATE] else [])) = (ret, w)"
    by fastforce
  show ?thesis
  proof (cases "stamp_version B (CHR ''c'' \<in> set mode) (new_CDB name mode fl (Some ?h)) (e\<lparr>files := w\<rparr>)")
    case (Inl x)
    then show ?thesis using assms unfolding open_new_cases [OF d] by (auto split: if_splits)
  next
    case (Inr e3)
    obtain w' where "e3 = e\<lparr>files := w\<rparr>\<lparr>files := w'\<rparr>" using stamp_version_env [OF Inr] by blast
    then show ?thesis using assms Inr unfolding open_new_cases [OF d]
      by (auto simp: new_CDB_def handle_of_def use_count_def add_use_def split: if_splits)
  qed
qed

lemma env_Open_keeps: "env_Open B e p = (ok, e') \<Longrightarrow> handle_of e' f = handle_of e f \<and> (fDbEnvInit e \<longrightarrow> fDbEnvInit e')"
  by (auto simp: env_Open_def Let_def handle_of_def note_calls_def split: if_splits)

lemma CDB_open_keeps:
  assumes "CDB_open B e name mode fl = (r, e')"
  shows "handle_of e f = Some h \<Longrightarrow> handle_of e' f = Some h" "fDbEnvInit e \<Longrightarrow> fDbEnvInit e'"
proof -
  obtain ok e1 where o: "env_Open B e (GetDataDir B) = (ok, e1)" by fastforce
  note keep = env_Open_keeps [OF o]
  have "(handle_of e f = Some h \<longrightarrow> handle_of e' f = Some h) \<and> (fDbEnvInit e \<longrightarrow> fDbEnvInit e')"
  proof (cases "name = [] \<or> \<not> ok \<or> use_count e1 name = i32_max \<or> handle_of e1 name \<noteq> None")
    case True
    then show ?thesis using assms o keep by (auto simp: CDB_open_def split: if_splits)
  next
    case False
    then have n: "open_new B (ready name e1) name mode fl = (r, e')" and none: "handle_of e1 name = None"
      using assms o by (simp_all add: CDB_open_def)
    have "handle_of e f = Some h \<Longrightarrow> f \<noteq> name" using none keep by auto
    then show ?thesis using open_new_any [OF n] keep by auto
  qed
  then show "handle_of e f = Some h \<Longrightarrow> handle_of e' f = Some h" "fDbEnvInit e \<Longrightarrow> fDbEnvInit e'" by blast+
qed

text \<open>
  What may happen to an environment while it is not closed: accessors are made, with success
  or not, and read and change the databases; the environment is opened again or checkpointed.
\<close>

inductive env_step :: "('db, 'txn, 'w) bdb \<Rightarrow> ('db, 'w) CDBEnv \<Rightarrow> ('db, 'w) CDBEnv \<Rightarrow> bool" for B where
  "CDB_open B e name mode fl = (r, e') \<Longrightarrow> env_step B e e'"
| "CDB_Write B e c k v ow = Inr (b, e') \<Longrightarrow> env_step B e e'"
| "CDB_Erase B e c k = Inr (b, e') \<Longrightarrow> env_step B e e'"
| "TxnBegin B e c = (b, c', e') \<Longrightarrow> env_step B e e'"
| "TxnCommit B e c = (b, c', e') \<Longrightarrow> env_step B e e'"
| "TxnAbort B e c = (b, c', e') \<Longrightarrow> env_step B e e'"
| "env_Open B e p = (b, e') \<Longrightarrow> env_step B e e'"
| "MakeMock B e = (x, e') \<Longrightarrow> env_step B e e'"
| "env_step B e (CheckpointLSN e f)"

text \<open>Each step may find Berkeley DB in another condition.\<close>

inductive env_runs :: "('db, 'txn, 'w) bdb list \<Rightarrow> ('db, 'w) CDBEnv \<Rightarrow> ('db, 'w) CDBEnv \<Rightarrow> bool" where
  "env_runs [] e e"
| "env_step B e e' \<Longrightarrow> env_runs Bs e' e'' \<Longrightarrow> env_runs (B # Bs) e e''"

lemma env_step_keeps:
  assumes "env_step B e e'" "fDbEnvInit e"
  shows "fDbEnvInit e' \<and> (handle_of e f = Some h \<longrightarrow> handle_of e' f = Some h)"
  using assms
proof (cases rule: env_step.cases)
  case (1 name mode fl r)
  then show ?thesis using CDB_open_keeps [OF 1] assms(2) by blast
next
  case (2 c k v ow b)
  then show ?thesis using CDB_Write_env assms(2) by fastforce
next
  case (3 c k b)
  then show ?thesis using assms(2)
    by (auto simp: CDB_Erase_def cxx_assert_Inr_iff split: option.splits prod.splits)
next
  case (4 c b c')
  then show ?thesis using assms(2)
    by (auto simp: TxnBegin_def env_TxnBegin_def Let_def split: if_splits prod.splits)
next
  case (5 c b c')
  then show ?thesis using assms(2) by (auto simp: TxnCommit_def split: option.splits if_splits prod.splits)
next
  case (6 c b c')
  then show ?thesis using assms(2) by (auto simp: TxnAbort_def split: option.splits if_splits prod.splits)
next
  case (7 p b)
  then show ?thesis using env_Open_keeps [OF 7] assms(2) by auto
next
  case (8 x)
  then show ?thesis using assms(2) by (simp add: MakeMock_def)
next
  case (9 f')
  then show ?thesis using assms(2) by (simp add: CheckpointLSN_def Let_def)
qed

lemma env_runs_keeps:
  "env_runs Bs e e' \<Longrightarrow> fDbEnvInit e \<Longrightarrow> handle_of e f = Some h \<Longrightarrow> fDbEnvInit e' \<and> handle_of e' f = Some h"
proof (induction rule: env_runs.induct)
  case (2 B e e' Bs e'')
  then show ?case using env_step_keeps [OF 2(1,4), of f h] by blast
qed simp

text \<open>
  C16: accessors of a file share its database. When an accessor for a named file has been
  made, the file has one user more and no other file's count changed, the environment is
  open, and no file has lost its handle. From then on, whatever accessors are made of this or
  other files and whatever they read, change, commit or abort, until the environment is
  closed, an accessor of the file is made without an error and with the same database handle,
  unless the count of its users is already the largest \<open>int\<close>.
\<close>

theorem accessors_share_database:
  assumes "CDB_open B e name mode fl = (Inr c, e')" "name \<noteq> []"
  shows "use_count e' name = use_count e name + 1 \<and> (\<forall>f. f \<noteq> name \<longrightarrow> use_count e' f = use_count e f) \<and>
    fDbEnvInit e' \<and> (\<forall>f h. handle_of e f = Some h \<longrightarrow> handle_of e' f = Some h) \<and>
    (\<exists>h. pdb c = Some h \<and>
      (\<forall>Bs e2 B' mode' fl'. env_runs Bs e' e2 \<and> use_count e2 name \<noteq> i32_max \<longrightarrow>
        (\<exists>c' e3. CDB_open B' e2 name mode' fl' = (Inr c', e3) \<and> pdb c' = Some h)))"
proof -
  obtain ok e1 where o: "env_Open B e (GetDataDir B) = (ok, e1)" by fastforce
  have ok using assms o by (cases ok) (simp_all add: CDB_open_def)
  then have o: "env_Open B e (GetDataDir B) = (True, e1)" and init: "fDbEnvInit e1"
    using o by (auto simp: env_Open_def Let_def split: if_splits)
  have small: "use_count e1 name \<noteq> i32_max" using assms o by (auto simp: CDB_open_def)
  have "(\<forall>f. use_count e' f = use_count (ready name e1) f) \<and> (\<exists>h. pdb c = Some h \<and> handle_of e' name = Some h) \<and> fDbEnvInit e'"
  proof (cases "handle_of e1 name")
    case (Some h)
    then have "c = new_CDB name mode fl (Some h)" "e' = ready name e1"
      using assms o small by (simp_all add: CDB_open_def)
    then show ?thesis using Some init by (simp add: new_CDB_def)
  next
    case None
    then have "open_new B (ready name e1) name mode fl = (Inr c, e')" using assms o small by (simp add: CDB_open_def)
    from open_new_any [OF this] show ?thesis using init by simp
  qed
  moreover from this obtain h where h: "pdb c = Some h" "handle_of e' name = Some h" "fDbEnvInit e'" by blast
  moreover have "\<exists>c' e3. CDB_open B' e2 name mode' fl' = (Inr c', e3) \<and> pdb c' = Some h"
    if "env_runs Bs e' e2" "use_count e2 name \<noteq> i32_max" for Bs e2 B' mode' fl'
  proof -
    have k: "fDbEnvInit e2" "handle_of e2 name = Some h" using env_runs_keeps [OF that(1) h(3,2)] by simp_all
    show ?thesis unfolding CDB_open_shared [OF k assms(2) that(2)] by (simp add: new_CDB_def)
  qed
  ultimately show ?thesis
    using env_Open_use_count [OF o] h(1) CDB_open_keeps(1) [OF assms(1)] by (metis ready_simps(3))
qed

text \<open>An accessor of the wallet file, then one of another file, then the wallet file again.\<close>

theorem accessors_share_database_witness:
  "\<exists>c1 e1 c2 e2 c3 e3. CDB_open (demo_bdb [] 0) (CDBEnv_init []) ''w'' ''cr+'' True = (Inr c1, e1) \<and>
     use_count e1 ''w'' = 1 \<and> CDB_open (demo_bdb [] 0) e1 ''x'' ''cr+'' True = (Inr c2, e2) \<and>
     CDB_open (demo_bdb [] 0) e2 ''w'' ''r'' True = (Inr c3, e3) \<and> pdb c3 = pdb c1"
proof -
  let ?B = "demo_bdb [] 0"
  note facts = CDB_open_def env_Open_def open_new_def stamp_version_def CDB_Exists_def WriteVersion_def
    CDB_Write_def demo_bdb_def CDBEnv_init_def env_Reset_def note_calls_def ready_def add_use_def
    handle_of_def new_CDB_def Let_def use_count_def i32_max_def
  have "\<exists>c1 e1. CDB_open ?B (CDBEnv_init []) ''w'' ''cr+'' True = (Inr c1, e1) \<and>
      (\<exists>c2 e2. CDB_open ?B e1 ''x'' ''cr+'' True = (Inr c2, e2) \<and> use_count e2 ''w'' = 1)"
    by (simp add: facts smap_has_def)
  then obtain c1 e1 c2 e2 where o: "CDB_open ?B (CDBEnv_init []) ''w'' ''cr+'' True = (Inr c1, e1)"
    and o2: "CDB_open ?B e1 ''x'' ''cr+'' True = (Inr c2, e2)" and n: "use_count e2 ''w'' = 1" by blast
  have z: "use_count (CDBEnv_init [] :: (nat, (byte list \<times> byte list) list) CDBEnv) ''w'' = 0"
    by (simp add: use_count_def CDBEnv_init_def env_Reset_def note_calls_def)
  have run: "env_runs [?B] e1 e2" by (rule env_runs.intros(2) [OF env_step.intros(1) [OF o2] env_runs.intros(1)])
  note all = accessors_share_database [OF o, simplified z]
  obtain h where h: "pdb c1 = Some h" "\<exists>c3 e3. CDB_open ?B e2 ''w'' ''r'' True = (Inr c3, e3) \<and> pdb c3 = Some h"
    using all run n by (fastforce simp: i32_max_def)
  then show ?thesis using o o2 all by auto
qed

text \<open>
  A failed opening blocks the file. If the database of a file cannot be opened, the
  constructor throws and the count of users is what it was before, but the file stays in the
  table of counts, so that \<open>Verify\<close> and \<open>Salvage\<close> of it fail their assertion from then on,
  although nobody uses the file.
\<close>

theorem failed_open_blocks_salvage:
  assumes "fDbEnvInit e" "\<not> fMockDb e" "name \<noteq> []" "handle_of e name = None" "use_count e name \<noteq> i32_max"
    and "db_open B (files e) (new_Db B (files e)) (Some name) ''main''
      (DB_THREAD # (if CHR ''c'' \<in> set mode then [DB_CREATE] else [])) = (ret, w)" "ret \<noteq> 0"
  shows "\<exists>e'. CDB_open B e name mode fl = (Inl (open_failed B ret name), e') \<and>
    use_count e' name = use_count e name \<and> env_Verify B2 e' name rf = Inl AssertFail \<and>
    Salvage B2 e' name aggressive res = Inl AssertFail"
proof -
  let ?e = "add_use (- 1) name ((ready name e)\<lparr>files := w\<rparr>)"
  have o: "open_new B (ready name e) name mode fl = (Inl (open_failed B ret name), ?e)"
    using assms(2,7) by (subst open_new_cases [where ret = ret and w = w]) (simp_all add: assms(6))
  have "CDB_open B e name mode fl = (Inl (open_failed B ret name), ?e)"
    using assms(1,3-5) o by (simp add: CDB_open_def env_Open_init)
  moreover have "use_count ?e name = use_count e name" by simp
  moreover have "smap_has (mapFileUseCount ?e) name" by (simp add: add_use_def)
  ultimately show ?thesis by (intro exI [of _ ?e]) (simp add: env_Verify_def Salvage_def)
qed

theorem failed_open_blocks_salvage_witness:
  "\<exists>e'. CDB_open (demo_bdb [] 2) ((CDBEnv_init [])\<lparr>fDbEnvInit := True\<rparr>) ''w'' ''r+'' True =
     (Inl (open_failed (demo_bdb [] 2) 2 ''w''), e') \<and> Salvage (demo_bdb [] 0) e' ''w'' True [] = Inl AssertFail"
  using failed_open_blocks_salvage [of "(CDBEnv_init [])\<lparr>fDbEnvInit := True\<rparr>" "''w''" "demo_bdb [] 2" "''r+''" 2 "[]"
      True "demo_bdb [] 0" None True "[]"]
  by (force simp: demo_bdb_def CDBEnv_init_def env_Reset_def note_calls_def handle_of_def use_count_def i32_max_def)

section \<open>Reading back what was written\<close>

text \<open>
  What \<open>db.h\<close> relies on: a put that succeeds outside a transaction is seen by a later get,
  and an integer survives its serialization.
\<close>

definition put_then_get :: "('db, 'txn, 'w) bdb \<Rightarrow> bool" where
  "put_then_get B \<longleftrightarrow> (\<forall>w h k v w'. db_put B w h None k v [] = (0, w') \<longrightarrow> db_get B w' h None k = (0, Some v))"

definition int_serial :: "('db, 'txn, 'w) bdb \<Rightarrow> int \<Rightarrow> bool" where
  "int_serial B n \<longleftrightarrow> (\<forall>old. unser_int B (ser_int B n) old = (True, n))"

lemma write_then_read:
  assumes "put_then_get B" "CDB_Write B e c k v True = Inr (True, e')" "activeTxn c = None" "pdb c' = pdb c"
    "activeTxn c' = None" "unser v old = (True, x)"
  shows "CDB_Read B e' c' unser k old = (True, x)"
proof -
  obtain h where h: "pdb c = Some h" using assms(2) by (cases "pdb c") (simp_all add: CDB_Write_def)
  obtain ret w where p: "db_put B (files e) h None k v [] = (ret, w)" by fastforce
  have r: "ret = 0" "e' = e\<lparr>files := w\<rparr>"
    using assms(2,3) h p by (simp_all add: CDB_Write_def cxx_assert_Inr_iff)
  have "db_get B w h None k = (0, Some v)" using assms(1) p r(1) by (simp add: put_then_get_def)
  then show ?thesis using h assms(4-6) r(2) by (simp add: CDB_Read_def)
qed

lemma CDB_Write_plain:
  "pdb c = Some h \<Longrightarrow> activeTxn c = None \<Longrightarrow> \<not> fReadOnly c \<Longrightarrow> db_put B (files e) h None k v [] = (r, w) \<Longrightarrow>
   CDB_Write B e c k v True = Inr (r = 0, e\<lparr>files := w\<rparr>)"
  by (simp add: CDB_Write_def)

lemma new_CDB_simps [simp]:
  "pdb (new_CDB name mode fl h) = h" "activeTxn (new_CDB name mode fl h) = None"
  by (simp_all add: new_CDB_def)

lemma stamp_new:
  assumes "db_put B (files e) h None (ser_string B ''version'') (ser_int B (CLIENT_VERSION B)) [] = (0, w)"
    and "db_exists B (files e) h None (ser_string B ''version'') \<noteq> 0"
  shows "stamp_version B True (new_CDB name mode fl (Some h)) e = Inr (e\<lparr>files := w\<rparr>)"
proof -
  let ?c = "new_CDB name mode fl (Some h)"
  have "CDB_Write B e (?c\<lparr>fReadOnly := False\<rparr>) (ser_string B ''version'') (ser_int B (CLIENT_VERSION B)) True =
      Inr (True, e\<lparr>files := w\<rparr>)"
    by (subst CDB_Write_plain [OF _ _ _ assms(1)]) simp_all
  moreover have "\<not> CDB_Exists B e ?c (ser_string B ''version'')" using assms(2) by (simp add: CDB_Exists_def)
  ultimately show ?thesis by (simp add: stamp_version_def WriteVersion_def)
qed

lemma read_stamped:
  assumes "put_then_get B" "int_serial B (CLIENT_VERSION B)"
    and "db_put B w h None (ser_string B ''version'') (ser_int B (CLIENT_VERSION B)) [] = (0, files e)"
  shows "ReadVersion B e (new_CDB name mode fl (Some h)) = (True, CLIENT_VERSION B)"
proof -
  have "db_get B (files e) h None (ser_string B ''version'') = (0, Some (ser_int B (CLIENT_VERSION B)))"
    using assms(1,3) by (simp add: put_then_get_def)
  then show ?thesis using assms(2) by (simp add: ReadVersion_def CDB_Read_def int_serial_def)
qed

text \<open>
  A new wallet file carries the version of the client. When the constructor with a mode
  that creates opens a file that has no version yet, and the write of the version reaches the
  database, then \<open>ReadVersion\<close> through the accessor it gives returns \<open>CLIENT_VERSION\<close>, even if
  the accessor is read-only.
\<close>

theorem created_file_has_version:
  assumes "put_then_get B" "int_serial B (CLIENT_VERSION B)" "fDbEnvInit e" "\<not> fMockDb e" "name \<noteq> []"
    and "handle_of e name = None" "CHR ''c'' \<in> set mode"
    and "db_open B (files e) (new_Db B (files e)) (Some name) ''main'' [DB_THREAD, DB_CREATE] = (0, w)"
    and "db_exists B w (new_Db B (files e)) None (ser_string B ''version'') \<noteq> 0"
    and "fst (db_put B w (new_Db B (files e)) None (ser_string B ''version'') (ser_int B (CLIENT_VERSION B)) []) = 0"
    and "use_count e name \<noteq> i32_max"
  shows "\<exists>c e'. CDB_open B e name mode fl = (Inr c, e') \<and> ReadVersion B e' c = (True, CLIENT_VERSION B)"
proof -
  let ?h = "new_Db B (files e)"
  obtain w2 where p: "db_put B w ?h None (ser_string B ''version'') (ser_int B (CLIENT_VERSION B)) [] = (0, w2)"
    using assms(10) by (cases "db_put B w ?h None (ser_string B ''version'') (ser_int B (CLIENT_VERSION B)) []") simp
  define e2 where "e2 = (ready name e)\<lparr>files := w\<rparr>\<lparr>files := w2\<rparr>"
  have st: "stamp_version B True (new_CDB name mode fl (Some ?h)) ((ready name e)\<lparr>files := w\<rparr>) = Inr e2"
    unfolding e2_def using p assms(9) by (intro stamp_new) simp_all
  have "open_new B (ready name e) name mode fl =
      (Inr (new_CDB name mode fl (Some ?h)), e2\<lparr>mapDb := smap_put (mapDb e2) name (Some ?h)\<rparr>)"
    by (subst open_new_cases [where ret = 0 and w = w])
      (simp_all only: ready_simps assms(4,7,8) st sum.case simp_thms if_True if_False)
  then have "CDB_open B e name mode fl =
      (Inr (new_CDB name mode fl (Some ?h)), e2\<lparr>mapDb := smap_put (mapDb e2) name (Some ?h)\<rparr>)"
    using assms(3,5,6,11) by (simp add: CDB_open_def env_Open_init)
  moreover have "ReadVersion B (e2\<lparr>mapDb := smap_put (mapDb e2) name (Some ?h)\<rparr>) (new_CDB name mode fl (Some ?h)) =
      (True, CLIENT_VERSION B)"
    using p by (intro read_stamped [OF assms(1,2)]) (simp add: e2_def)
  ultimately show ?thesis by blast
qed

theorem created_file_has_version_witness:
  "\<exists>c e'. CDB_open (demo_bdb [] 0) ((CDBEnv_init [])\<lparr>fDbEnvInit := True\<rparr>) ''w'' ''cr'' True = (Inr c, e') \<and>
     ReadVersion (demo_bdb [] 0) e' c = (True, 120)"
proof -
  have "put_then_get (demo_bdb [] 0)" by (simp add: put_then_get_def demo_bdb_def)
  moreover have "int_serial (demo_bdb [] 0) (CLIENT_VERSION (demo_bdb [] 0))"
    by (simp add: int_serial_def demo_bdb_def)
  moreover have "db_open (demo_bdb [] 0) w h f l fl = (0, w)" for w h f l fl by (simp add: demo_bdb_def)
  ultimately show ?thesis
    using created_file_has_version [of "demo_bdb [] 0" "(CDBEnv_init [])\<lparr>fDbEnvInit := True\<rparr>" "''w''" "''cr''" "[]" True]
    by (simp add: demo_bdb_def CDBEnv_init_def env_Reset_def note_calls_def handle_of_def use_count_def i32_max_def)
qed

end
