(* ===== verification/TxnMap.thy ===== *)
theory TxnMap
  imports WalletDb
begin

text \<open>
  What an accessor of the wallet's database (\<open>CDB\<close>, \<open>Wallet/db.h\<close>) promises to its callers: a
  map with transactions. The operations of \<open>WalletDb\<close> are shown to implement it by a
  simulation, over what Berkeley DB documents of a database and its transactions (\<open>bdb_ok\<close>).
\<close>

section \<open>Simulations\<close>

text \<open>
  A detailed step relation implements an abstract one when each of its steps, from related
  states, is an abstract step with the same input and output to related states.
\<close>

inductive runs :: "('s \<Rightarrow> 'op \<Rightarrow> 'out \<Rightarrow> 's \<Rightarrow> bool) \<Rightarrow> 's \<Rightarrow> 'op list \<Rightarrow> 'out list \<Rightarrow> 's \<Rightarrow> bool" for step where
  nil: "runs step s [] [] s"
| cons: "step s x y s' \<Longrightarrow> runs step s' xs ys s'' \<Longrightarrow> runs step s (x # xs) (y # ys) s''"

inductive_simps runs_Nil [simp]: "runs step s [] ys s'"
inductive_simps runs_Cons: "runs step s (x # xs) ys s'"

locale simulation =
  fixes cstep :: "'s \<Rightarrow> 'op \<Rightarrow> 'out \<Rightarrow> 's \<Rightarrow> bool"
    and astep :: "'a \<Rightarrow> 'op \<Rightarrow> 'out \<Rightarrow> 'a \<Rightarrow> bool"
    and related :: "'s \<Rightarrow> 'a \<Rightarrow> bool"
  assumes step: "related s a \<Longrightarrow> cstep s x y s' \<Longrightarrow> \<exists>a'. astep a x y a' \<and> related s' a'"
begin

lemma simulates:
  assumes "runs cstep s xs ys s'" "related s a"
  shows "\<exists>a'. runs astep a xs ys a' \<and> related s' a'"
  using assms
proof (induction arbitrary: a)
  case (nil s)
  then show ?case by (auto intro: runs.nil)
next
  case (cons s x y s' xs ys s'')
  from step [OF cons.prems cons.hyps(1)] obtain a1 where a1: "astep a x y a1" "related s' a1" by blast
  with cons.IH obtain a' where "runs astep a1 xs ys a'" "related s'' a'" by blast
  with a1(1) show ?case by (blast intro: runs.cons)
qed

end

section \<open>The abstract map\<close>

text \<open>
  The committed map, and within a transaction the map that the transaction sees. Either may
  be unknown, after a failure that leaves it open.
\<close>

type_synonym bytes_map = "byte list \<Rightarrow> byte list option"
type_synonym txn_map = "bytes_map option \<times> bytes_map option option"

datatype db_op = OpRead "byte list" | OpExists "byte list" | OpWrite "byte list" "byte list" bool
  | OpErase "byte list" | OpBegin | OpCommit | OpAbort

datatype db_out = Value "byte list option" | Flag bool

fun current :: "txn_map \<Rightarrow> bytes_map option" where
  "current (m, None) = m"
| "current (m, Some s) = s"

fun update_current :: "txn_map \<Rightarrow> (bytes_map \<Rightarrow> bytes_map) \<Rightarrow> txn_map" where
  "update_current (m, None) f = (map_option f m, None)"
| "update_current (m, Some s) f = (m, Some (map_option f s))"

text \<open>What a key may have, as far as the current map is known.\<close>

definition may_be :: "txn_map \<Rightarrow> byte list \<Rightarrow> byte list option \<Rightarrow> bool" where
  "may_be a k x \<longleftrightarrow> (\<forall>m. current a = Some m \<longrightarrow> m k = x)"

text \<open>A change that fails in a transaction leaves open what the transaction sees.\<close>

fun fail_change :: "txn_map \<Rightarrow> txn_map" where
  "fail_change (m, None) = (m, None)"
| "fail_change (m, Some s) = (m, Some None)"

text \<open>
  Every operation may fail. A failed change outside a transaction changes nothing; in a
  transaction it spoils what the transaction sees, and the committed map is as before. A
  failed commit aborts; a failed abort leaves nothing known. That a key was not found may
  mean that the search failed, unless the database is known to be \<open>reliable\<close>.
\<close>

inductive txn_step :: "bool \<Rightarrow> txn_map \<Rightarrow> db_op \<Rightarrow> db_out \<Rightarrow> txn_map \<Rightarrow> bool" for reliable where
  read: "may_be a k x \<Longrightarrow> txn_step reliable a (OpRead k) (Value x) a"
| present: "may_be a k x \<Longrightarrow> txn_step reliable a (OpExists k) (Flag (x \<noteq> None)) a"
| put: "overwrite \<or> may_be a k None \<Longrightarrow>
    txn_step reliable a (OpWrite k v overwrite) (Flag True) (update_current a (\<lambda>m. m(k \<mapsto> v)))"
| erase: "txn_step reliable a (OpErase k) (Flag True) (update_current a (\<lambda>m. m(k := None)))"
| begin_txn: "txn_step reliable (m, None) OpBegin (Flag True) (m, Some m)"
| commit: "txn_step reliable (m, Some s) OpCommit (Flag True) (s, None)"
| commit_fails: "txn_step reliable (m, Some s) OpCommit (Flag False) (m, None)"
| abort: "txn_step reliable (m, Some s) OpAbort (Flag True) (m, None)"
| abort_fails: "txn_step reliable (m, Some s) OpAbort (Flag False) (None, None)"
| read_fails: "\<not> reliable \<Longrightarrow> txn_step reliable a (OpRead k) (Value None) a"
| present_fails: "\<not> reliable \<Longrightarrow> txn_step reliable a (OpExists k) (Flag False) a"
| write_fails: "txn_step reliable a (OpWrite k v overwrite) (Flag False) (fail_change a)"
| erase_fails: "txn_step reliable a (OpErase k) (Flag False) (fail_change a)"
| begin_fails: "txn_step reliable a OpBegin (Flag False) a"
| no_txn: "x = OpCommit \<or> x = OpAbort \<Longrightarrow> txn_step reliable (m, None) x (Flag False) (m, None)"

section \<open>The operations of an accessor\<close>

definition raw_value :: "byte list \<Rightarrow> byte list option \<Rightarrow> bool \<times> byte list option" where
  "raw_value d v = (True, Some d)"

fun db_do ::
    "('db, 'txn, 'w) bdb \<Rightarrow> ('db, 'txn) CDB \<times> ('db, 'w) CDBEnv \<Rightarrow> db_op \<Rightarrow>
     (db_out \<times> ('db, 'txn) CDB \<times> ('db, 'w) CDBEnv) res" where
  "db_do B (c, e) (OpRead k) =
     (case CDB_Read B e c raw_value k None of (ok, v) \<Rightarrow> Inr (Value (if ok then v else None), c, e))"
| "db_do B (c, e) (OpExists k) = Inr (Flag (CDB_Exists B e c k), c, e)"
| "db_do B (c, e) (OpWrite k v overwrite) =
     rbind (CDB_Write B e c k v overwrite) (\<lambda>(ok, e). Inr (Flag ok, c, e))"
| "db_do B (c, e) (OpErase k) = rbind (CDB_Erase B e c k) (\<lambda>(ok, e). Inr (Flag ok, c, e))"
| "db_do B (c, e) OpBegin = (case TxnBegin B e c of (ok, c, e) \<Rightarrow> Inr (Flag ok, c, e))"
| "db_do B (c, e) OpCommit = (case TxnCommit B e c of (ok, c, e) \<Rightarrow> Inr (Flag ok, c, e))"
| "db_do B (c, e) OpAbort = (case TxnAbort B e c of (ok, c, e) \<Rightarrow> Inr (Flag ok, c, e))"

fun db_run ::
    "('db, 'txn, 'w) bdb \<Rightarrow> ('db, 'txn) CDB \<times> ('db, 'w) CDBEnv \<Rightarrow> db_op list \<Rightarrow>
     (db_out list \<times> ('db, 'txn) CDB \<times> ('db, 'w) CDBEnv) res" where
  "db_run B s [] = Inr ([], s)"
| "db_run B s (x # xs) = rbind (db_do B s x) (\<lambda>(y, s). rbind (db_run B s xs) (\<lambda>(ys, s). Inr (y # ys, s)))"

definition db_step where
  "db_step B s x y s' \<longleftrightarrow> db_do B s x = Inr (y, s')"

lemma db_run_runs: "db_run B s xs = Inr (ys, s') \<Longrightarrow> runs (db_step B) s xs ys s'"
proof (induction xs arbitrary: s ys)
  case (Cons x xs)
  then obtain y s1 ys1 where "db_do B s x = Inr (y, s1)" "db_run B s1 xs = Inr (ys1, s')" "ys = y # ys1"
    by (auto simp: rbind_Inr_iff)
  moreover from Cons.IH [OF this(2)] have "runs (db_step B) s1 xs ys1 s'" .
  ultimately show ?case unfolding db_step_def [symmetric] by (simp only:) (rule runs.cons)
qed (simp add: runs.nil)

section \<open>What Berkeley DB documents\<close>

text \<open>The contents of a database as its users see it, and as a transaction sees it.\<close>

record ('txn, 'w) db_view =
  stored :: "'w \<Rightarrow> bytes_map"
  shadow :: "'w \<Rightarrow> 'txn \<Rightarrow> bytes_map"

definition seen :: "('txn, 'w) db_view \<Rightarrow> 'w \<Rightarrow> 'txn option \<Rightarrow> bytes_map" where
  "seen V w x = (case x of None \<Rightarrow> stored V w | Some t \<Rightarrow> shadow V w t)"

text \<open>
  For a handle \<open>h\<close> that one accessor uses. \<open>get\<close> and \<open>exists\<close> return 0 for a key that is
  seen, with its value, \<open>DB_NOTFOUND\<close> for one that is not, and may return other codes (a
  deadlock, say), of which nothing is assumed. A change returns 0 when it was made; the
  environment is opened with \<open>DB_AUTO_COMMIT\<close>, so that a change outside a transaction that
  fails has no effect, and changes in a transaction leave the stored contents alone; what a
  transaction sees after a failed change is left open. A transaction starts with the stored
  contents, which become its own when it commits; a commit that fails has aborted it. An
  abort that returns 0 leaves the stored contents.
\<close>

definition bdb_reads :: "('txn, 'w) db_view \<Rightarrow> ('db, 'txn, 'w) bdb \<Rightarrow> 'db \<Rightarrow> bool" where
  "bdb_reads V B h \<longleftrightarrow> (\<forall>w x k.
     (fst (db_get B w h x k) = 0 \<longrightarrow> snd (db_get B w h x k) = seen V w x k \<and> seen V w x k \<noteq> None) \<and>
     (fst (db_get B w h x k) = DB_NOTFOUND B \<longrightarrow> seen V w x k = None) \<and>
     (db_exists B w h x k = 0 \<longrightarrow> seen V w x k \<noteq> None) \<and>
     (db_exists B w h x k = DB_NOTFOUND B \<longrightarrow> seen V w x k = None))"

definition changed ::
    "('txn, 'w) db_view \<Rightarrow> 'w \<Rightarrow> 'txn option \<Rightarrow> bool \<Rightarrow> (bytes_map \<Rightarrow> bytes_map) \<Rightarrow> 'w \<Rightarrow> bool" where
  "changed V w x ok f w' \<longleftrightarrow> (ok \<longrightarrow> seen V w' x = f (seen V w x)) \<and> (\<not> ok \<or> x \<noteq> None \<longrightarrow> stored V w' = stored V w)"

definition bdb_changes :: "('txn, 'w) db_view \<Rightarrow> ('db, 'txn, 'w) bdb \<Rightarrow> 'db \<Rightarrow> bool" where
  "bdb_changes V B h \<longleftrightarrow>
     (\<forall>w x k v fl r w'. db_put B w h x k v fl = (r, w') \<longrightarrow>
        changed V w x (r = 0) (\<lambda>m. m(k \<mapsto> v)) w' \<and>
        (r = 0 \<and> DB_NOOVERWRITE \<in> set fl \<longrightarrow> seen V w x k = None)) \<and>
     (\<forall>w x k r w'. db_del B w h x k = (r, w') \<longrightarrow>
        changed V w x (r = 0 \<or> r = DB_NOTFOUND B) (\<lambda>m. m(k := None)) w')"

definition bdb_txns :: "('txn, 'w) db_view \<Rightarrow> ('db, 'txn, 'w) bdb \<Rightarrow> bool" where
  "bdb_txns V B \<longleftrightarrow>
     (\<forall>w r p w'. txn_begin B w = (r, p, w') \<longrightarrow> stored V w' = stored V w \<and>
        (\<forall>t. r = 0 \<and> p = Some t \<longrightarrow> shadow V w' t = stored V w)) \<and>
     (\<forall>w t r w'. txn_commit B w t = (r, w') \<longrightarrow> stored V w' = (if r = 0 then shadow V w t else stored V w)) \<and>
     (\<forall>w t w'. txn_abort B w t = (0, w') \<longrightarrow> stored V w' = stored V w)"

definition bdb_ok :: "('txn, 'w) db_view \<Rightarrow> ('db, 'txn, 'w) bdb \<Rightarrow> 'db \<Rightarrow> bool" where
  "bdb_ok V B h \<longleftrightarrow> bdb_reads V B h \<and> bdb_changes V B h \<and> bdb_txns V B"

text \<open>A database whose searches never fail.\<close>

definition reads_reliably :: "('db, 'txn, 'w) bdb \<Rightarrow> 'db \<Rightarrow> bool" where
  "reads_reliably B h \<longleftrightarrow> (\<forall>w x k. fst (db_get B w h x k) \<in> {0, DB_NOTFOUND B} \<and>
     db_exists B w h x k \<in> {0, DB_NOTFOUND B})"

section \<open>The simulation\<close>

text \<open>The map that an accessor stands for, and the abstract maps that are right about it.\<close>

definition map_of_accessor ::
    "('txn, 'w) db_view \<Rightarrow> ('db, 'txn) CDB \<times> ('db, 'w) CDBEnv \<Rightarrow> txn_map" where
  "map_of_accessor V s = (Some (stored V (files (snd s))),
     map_option (\<lambda>t. Some (shadow V (files (snd s)) t)) (activeTxn (fst s)))"

definition agrees :: "('txn, 'w) db_view \<Rightarrow> ('db, 'txn) CDB \<times> ('db, 'w) CDBEnv \<Rightarrow> txn_map \<Rightarrow> bool" where
  "agrees V s a \<longleftrightarrow> (snd a = None \<longleftrightarrow> activeTxn (fst s) = None) \<and>
     (\<forall>m. fst a = Some m \<longrightarrow> m = stored V (files (snd s))) \<and>
     (\<forall>m t. snd a = Some (Some m) \<and> activeTxn (fst s) = Some t \<longrightarrow> m = shadow V (files (snd s)) t)"

definition writable :: "'db \<Rightarrow> ('db, 'txn) CDB \<times> ('db, 'w) CDBEnv \<Rightarrow> bool" where
  "writable h s \<longleftrightarrow> pdb (fst s) = Some h \<and> \<not> fReadOnly (fst s)"

lemma agrees_accessor: "agrees V s (map_of_accessor V s)"
  by (auto simp: agrees_def map_of_accessor_def)

lemma agrees_current: "agrees V (c, e) a \<Longrightarrow> current a = Some m \<Longrightarrow> m = seen V (files e) (activeTxn c)"
  by (cases a rule: current.cases; cases "activeTxn c") (auto simp: agrees_def seen_def)

lemma agrees_may_be: "agrees V (c, e) a \<Longrightarrow> may_be a k (seen V (files e) (activeTxn c) k)"
  by (auto simp: may_be_def dest: agrees_current)

lemma agrees_changed:
  assumes "agrees V (c, e) a" "changed V (files e) (activeTxn c) True f w"
  shows "agrees V (c, e\<lparr>files := w\<rparr>) (update_current a f)"
  using assms
  by (cases a rule: current.cases; cases "activeTxn c") (auto simp: agrees_def changed_def seen_def)

lemma agrees_failed:
  assumes "agrees V (c, e) a" "changed V (files e) (activeTxn c) False f w"
  shows "agrees V (c, e\<lparr>files := w\<rparr>) (fail_change a)"
  using assms by (cases a rule: current.cases) (auto simp: agrees_def changed_def)

lemma read_step:
  assumes "bdb_reads V B h" "pdb c = Some h" "agrees V (c, e) a"
  shows "\<exists>y. db_do B (c, e) (OpRead k) = Inr (y, c, e) \<and> txn_step (reads_reliably B h) a (OpRead k) y a"
proof -
  obtain r v where g: "db_get B (files e) h (activeTxn c) k = (r, v)" by fastforce
  have d: "db_do B (c, e) (OpRead k) = Inr (Value (if r = 0 then v else None), c, e)"
    using assms(2) g by (cases v) (simp_all add: CDB_Read_def raw_value_def)
  have s: "r = 0 \<or> r = DB_NOTFOUND B \<Longrightarrow> seen V (files e) (activeTxn c) k = (if r = 0 then v else None)"
    using assms(1) g unfolding bdb_reads_def by (metis fst_conv snd_conv)
  show ?thesis
  proof (cases "r = 0 \<or> r = DB_NOTFOUND B")
    case True
    then show ?thesis using d s [OF True] txn_step.read [OF agrees_may_be [OF assms(3), of k]] by auto
  next
    case False
    then have "\<not> reads_reliably B h" using g unfolding reads_reliably_def by (metis fst_conv insert_iff singletonD)
    then show ?thesis using d False txn_step.read_fails by auto
  qed
qed

lemma exists_step:
  assumes "bdb_reads V B h" "pdb c = Some h" "agrees V (c, e) a"
  shows "\<exists>y. db_do B (c, e) (OpExists k) = Inr (y, c, e) \<and> txn_step (reads_reliably B h) a (OpExists k) y a"
proof -
  let ?r = "db_exists B (files e) h (activeTxn c) k"
  let ?s = "seen V (files e) (activeTxn c) k"
  have d: "db_do B (c, e) (OpExists k) = Inr (Flag (?r = 0), c, e)" using assms(2) by (simp add: CDB_Exists_def)
  note p = txn_step.present [OF agrees_may_be [OF assms(3), of k]]
  consider "?r = 0" | "?r \<noteq> 0" "?r = DB_NOTFOUND B" | "?r \<noteq> 0" "\<not> reads_reliably B h"
    unfolding reads_reliably_def by blast
  then show ?thesis
  proof cases
    case 1
    then have "?s \<noteq> None" using assms(1) unfolding bdb_reads_def by blast
    then show ?thesis using d p 1 by simp
  next
    case 2
    then have "?s = None" using assms(1) unfolding bdb_reads_def by blast
    then show ?thesis using d p 2 by simp
  next
    case 3
    then show ?thesis using d txn_step.present_fails by simp
  qed
qed

lemma step_done:
  "db_do B s x = Inr (y, s') \<Longrightarrow> writable h s' \<Longrightarrow> agrees V s' a' \<Longrightarrow> txn_step b a x y a' \<Longrightarrow>
   \<exists>y s' a'. db_do B s x = Inr (y, s') \<and> writable h s' \<and> agrees V s' a' \<and> txn_step b a x y a'"
  by blast

lemma write_step:
  assumes "bdb_changes V B h" "writable h (c, e)" "agrees V (c, e) a"
  shows "\<exists>y s' a'. db_do B (c, e) (OpWrite k v overwrite) = Inr (y, s') \<and> writable h s' \<and> agrees V s' a' \<and>
    txn_step b a (OpWrite k v overwrite) y a'"
proof -
  let ?fl = "if overwrite then [] else [DB_NOOVERWRITE]"
  obtain r w where p: "db_put B (files e) h (activeTxn c) k v ?fl = (r, w)" by fastforce
  have c: "changed V (files e) (activeTxn c) (r = 0) (\<lambda>m. m(k \<mapsto> v)) w"
    and new: "r = 0 \<Longrightarrow> \<not> overwrite \<Longrightarrow> seen V (files e) (activeTxn c) k = None"
    using assms(1) p unfolding bdb_changes_def by (metis list.set_intros(1))+
  have d: "db_do B (c, e) (OpWrite k v overwrite) = Inr (Flag (r = 0), c, e\<lparr>files := w\<rparr>)"
    using assms(2) p by (simp add: CDB_Write_def writable_def)
  have w: "writable h (c, e\<lparr>files := w\<rparr>)" using assms(2) by (simp add: writable_def)
  show ?thesis
  proof (cases "r = 0")
    case True
    then have o: "overwrite \<or> may_be a k None" using new agrees_may_be [OF assms(3), of k] by (cases overwrite) simp_all
    have ch: "changed V (files e) (activeTxn c) True (\<lambda>m. m(k \<mapsto> v)) w" using c True by simp
    show ?thesis using step_done [OF d w agrees_changed [OF assms(3) ch]] txn_step.put [OF o] True by simp
  next
    case False
    then have ch: "changed V (files e) (activeTxn c) False (\<lambda>m. m(k \<mapsto> v)) w" using c by simp
    show ?thesis using step_done [OF d w agrees_failed [OF assms(3) ch]] txn_step.write_fails False by simp
  qed
qed

lemma erase_step:
  assumes "bdb_changes V B h" "writable h (c, e)" "agrees V (c, e) a"
  shows "\<exists>y s' a'. db_do B (c, e) (OpErase k) = Inr (y, s') \<and> writable h s' \<and> agrees V s' a' \<and>
    txn_step b a (OpErase k) y a'"
proof -
  obtain r w where p: "db_del B (files e) h (activeTxn c) k = (r, w)" by fastforce
  have c: "changed V (files e) (activeTxn c) (r = 0 \<or> r = DB_NOTFOUND B) (\<lambda>m. m(k := None)) w"
    using assms(1) p unfolding bdb_changes_def by blast
  have d: "db_do B (c, e) (OpErase k) = Inr (Flag (r = 0 \<or> r = DB_NOTFOUND B), c, e\<lparr>files := w\<rparr>)"
    using assms(2) p by (simp add: CDB_Erase_def writable_def)
  have w: "writable h (c, e\<lparr>files := w\<rparr>)" using assms(2) by (simp add: writable_def)
  show ?thesis
  proof (cases "r = 0 \<or> r = DB_NOTFOUND B")
    case True
    then have ch: "changed V (files e) (activeTxn c) True (\<lambda>m. m(k := None)) w" using c by simp
    show ?thesis using step_done [OF d w agrees_changed [OF assms(3) ch]] txn_step.erase True by simp
  next
    case False
    then have ch: "changed V (files e) (activeTxn c) False (\<lambda>m. m(k := None)) w" using c by simp
    show ?thesis using step_done [OF d w agrees_failed [OF assms(3) ch]] txn_step.erase_fails False by simp
  qed
qed

lemma begin_step:
  assumes "bdb_txns V B" "writable h (c, e)" "agrees V (c, e) a"
  shows "\<exists>y s' a'. db_do B (c, e) OpBegin = Inr (y, s') \<and> writable h s' \<and> agrees V s' a' \<and> txn_step b a OpBegin y a'"
proof (cases "activeTxn c")
  case (Some t)
  then have "db_do B (c, e) OpBegin = Inr (Flag False, c, e)" by (simp add: TxnBegin_def)
  from step_done [OF this assms(2,3) txn_step.begin_fails] show ?thesis .
next
  case None
  obtain r p w where t: "txn_begin B (files e) = (r, p, w)" using prod_cases3 by blast
  have st: "stored V w = stored V (files e)" and sh: "\<forall>t. r = 0 \<and> p = Some t \<longrightarrow> shadow V w t = stored V (files e)"
    using assms(1) t unfolding bdb_txns_def by blast+
  obtain m where a: "a = (m, None)" "\<forall>x. m = Some x \<longrightarrow> x = stored V (files e)"
    using assms(3) None by (cases a) (simp add: agrees_def)
  have c: "pdb c = Some h" using assms(2) by (simp add: writable_def)
  show ?thesis
  proof (cases "p = None \<or> r \<noteq> 0")
    case True
    then have d: "db_do B (c, e) OpBegin = Inr (Flag False, c, e\<lparr>files := w\<rparr>)"
      using None c t by (auto simp: TxnBegin_def env_TxnBegin_def)
    have g: "agrees V (c, e\<lparr>files := w\<rparr>) a" using None st a by (simp add: agrees_def)
    have "writable h (c, e\<lparr>files := w\<rparr>)" using assms(2) by (simp add: writable_def)
    from step_done [OF d this g txn_step.begin_fails] show ?thesis .
  next
    case False
    then obtain x where x: "p = Some x" "r = 0" by auto
    then have d: "db_do B (c, e) OpBegin = Inr (Flag True, c\<lparr>activeTxn := Some x\<rparr>, e\<lparr>files := w\<rparr>)"
      using None c t by (simp add: TxnBegin_def env_TxnBegin_def)
    have g: "agrees V (c\<lparr>activeTxn := Some x\<rparr>, e\<lparr>files := w\<rparr>) (m, Some m)"
      using st sh x a by (simp add: agrees_def)
    have "writable h (c\<lparr>activeTxn := Some x\<rparr>, e\<lparr>files := w\<rparr>)" using assms(2) by (simp add: writable_def)
    from step_done [OF d this g txn_step.begin_txn] show ?thesis unfolding a .
  qed
qed

lemma end_step:
  assumes "bdb_txns V B" "writable h (c, e)" "agrees V (c, e) a" "x = OpCommit \<or> x = OpAbort"
  shows "\<exists>y s' a'. db_do B (c, e) x = Inr (y, s') \<and> writable h s' \<and> agrees V s' a' \<and> txn_step b a x y a'"
proof (cases "activeTxn c")
  case None
  then have d: "db_do B (c, e) x = Inr (Flag False, c, e)"
    using assms(4) by (auto simp: TxnCommit_def TxnAbort_def)
  obtain m where a: "a = (m, None)" using assms(3) None by (cases a) (simp add: agrees_def)
  from step_done [OF d assms(2,3)] txn_step.no_txn [OF assms(4)] show ?thesis unfolding a by blast
next
  case (Some t)
  define res where "res = (if x = OpCommit then txn_commit B (files e) t else txn_abort B (files e) t)"
  obtain r w where rw: "res = (r, w)" by fastforce
  have c: "pdb c = Some h" using assms(2) by (simp add: writable_def)
  have d: "db_do B (c, e) x = Inr (Flag (r = 0), c\<lparr>activeTxn := None\<rparr>, e\<lparr>files := w\<rparr>)"
    using assms(4) Some c rw by (auto simp: TxnCommit_def TxnAbort_def res_def split: if_splits)
  obtain m s where a: "a = (m, Some s)" "\<forall>y. m = Some y \<longrightarrow> y = stored V (files e)"
      "\<forall>y. s = Some y \<longrightarrow> y = shadow V (files e) t"
    using assms(3) Some by (cases a) (auto simp: agrees_def)
  have commit: "stored V w = (if r = 0 then shadow V (files e) t else stored V (files e))" if "x = OpCommit"
    using assms(1) rw that unfolding bdb_txns_def res_def by simp
  have abort: "stored V w = stored V (files e)" if "x = OpAbort" "r = 0"
    using assms(1) rw that unfolding bdb_txns_def res_def by simp
  define a' where "a' = (if x = OpCommit then (if r = 0 then (s, None) else (m, None))
      else if r = 0 then (m, None) else (None, None) :: txn_map)"
  have s: "txn_step b a x (Flag (r = 0)) a'"
    unfolding a(1) a'_def using assms(4) txn_step.commit txn_step.commit_fails txn_step.abort txn_step.abort_fails
    by (cases "r = 0") auto
  have g: "agrees V (c\<lparr>activeTxn := None\<rparr>, e\<lparr>files := w\<rparr>) a'"
    using a(2,3) commit abort assms(4) by (auto simp: agrees_def a'_def)
  have "writable h (c\<lparr>activeTxn := None\<rparr>, e\<lparr>files := w\<rparr>)" using assms(2) by (simp add: writable_def)
  from step_done [OF d this g s] show ?thesis .
qed

lemma accessor_step:
  assumes "bdb_ok V B h" "writable h s" "agrees V s a"
  shows "\<exists>y s' a'. db_do B s x = Inr (y, s') \<and> writable h s' \<and> agrees V s' a' \<and> txn_step (reads_reliably B h) a x y a'"
proof -
  obtain c e where s: "s = (c, e)" by fastforce
  have ok: "bdb_reads V B h" "bdb_changes V B h" "bdb_txns V B" using assms(1) by (simp_all add: bdb_ok_def)
  have h: "pdb c = Some h" using assms(2) by (simp add: s writable_def)
  note w = assms(2) [unfolded s] and g = assms(3) [unfolded s]
  show ?thesis
  proof (cases x)
    case (OpRead k)
    then show ?thesis using read_step [OF ok(1) h g] w g unfolding s by blast
  next
    case (OpExists k)
    then show ?thesis using exists_step [OF ok(1) h g] w g unfolding s by blast
  next
    case (OpWrite k v b)
    show ?thesis unfolding s OpWrite by (rule write_step [OF ok(2) w g])
  next
    case (OpErase k)
    show ?thesis unfolding s OpErase by (rule erase_step [OF ok(2) w g])
  next
    case OpBegin
    show ?thesis unfolding s OpBegin by (rule begin_step [OF ok(3) w g])
  next
    case OpCommit
    show ?thesis unfolding s OpCommit by (rule end_step [OF ok(3) w g]) simp
  next
    case OpAbort
    show ?thesis unfolding s OpAbort by (rule end_step [OF ok(3) w g]) simp
  qed
qed

interpretation accessor: simulation "db_step B" "txn_step (reads_reliably B h)"
  "\<lambda>s a. bdb_ok V B h \<and> writable h s \<and> agrees V s a" for V B h
proof
  fix s a x y s'
  assume r: "bdb_ok V B h \<and> writable h s \<and> agrees V s a" and d: "db_step B s x y s'"
  obtain y' s1 a' where "db_do B s x = Inr (y', s1)" "writable h s1" "agrees V s1 a'"
    "txn_step (reads_reliably B h) a x y' a'"
    using accessor_step [of V B h s a x] r by blast
  then show "\<exists>a'. txn_step (reads_reliably B h) a x y a' \<and> bdb_ok V B h \<and> writable h s' \<and> agrees V s' a'"
    using r d by (intro exI [of _ a']) (simp add: db_step_def)
qed

lemma db_run_total: "bdb_ok V B h \<Longrightarrow> writable h s \<Longrightarrow> agrees V s a \<Longrightarrow> \<exists>ys s'. db_run B s xs = Inr (ys, s')"
proof (induction xs arbitrary: s a)
  case (Cons x xs)
  from accessor_step [OF Cons.prems] obtain y s1 a1 where "db_do B s x = Inr (y, s1)" "writable h s1" "agrees V s1 a1"
    by blast
  with Cons.IH [OF Cons.prems(1)] show ?case by fastforce
qed simp

section \<open>Properties\<close>

text \<open>
  C20: an accessor is a map with transactions. Whatever operations are made on a writable
  accessor of an open database, none fails an assertion, and what they return is what a map
  with one level of transactions may return: a value that is read is that of the last change,
  also of one in the running transaction; an aborted transaction leaves no trace, a committed
  one is seen whole. A change that reports a failure outside a transaction changes nothing;
  inside one, nothing is promised of what the transaction then sees, and the committed
  contents are untouched. A commit that fails drops the transaction's changes, and after an
  abort that fails nothing is promised. That a key is not found means that it is absent if
  \<open>get\<close> and \<open>exists\<close> return nothing but 0 and \<open>DB_NOTFOUND\<close>; else the search may have failed.
\<close>

theorem accessor_is_transactional_map:
  assumes "bdb_ok V B h" "pdb c = Some h" "\<not> fReadOnly c"
  shows "\<exists>ys s' a'. db_run B (c, e) xs = Inr (ys, s') \<and>
    runs (txn_step (reads_reliably B h)) (map_of_accessor V (c, e)) xs ys a' \<and> agrees V s' a'"
proof -
  have w: "writable h (c, e)" using assms(2,3) by (simp add: writable_def)
  obtain ys s' where r: "db_run B (c, e) xs = Inr (ys, s')"
    using db_run_total [OF assms(1) w agrees_accessor] by blast
  with accessor.simulates [OF db_run_runs [OF r], of V h "map_of_accessor V (c, e)"] assms(1) w agrees_accessor
  show ?thesis by blast
qed

section \<open>An example\<close>

text \<open>A database in memory with one transaction: its contents and those the transaction sees.\<close>

definition demo_contents :: "bytes_map \<times> bytes_map \<Rightarrow> unit option \<Rightarrow> bytes_map" where
  "demo_contents w x = (if x = None then fst w else snd w)"

definition demo_set :: "bytes_map \<times> bytes_map \<Rightarrow> unit option \<Rightarrow> bytes_map \<Rightarrow> bytes_map \<times> bytes_map" where
  "demo_set w x m = (if x = None then (m, snd w) else (fst w, m))"

definition demo_txn_bdb :: "(nat, unit, bytes_map \<times> bytes_map) bdb" where
  "demo_txn_bdb = \<lparr>privdb = True, path_sub = (\<lambda>p f. f), GetDataDir = [], env_open_ret = 0, new_Db = (\<lambda>w. 1),
     mpf_set_flags_ret = 0, db_open = (\<lambda>w h f l fl. (0, w)), db_verify = (\<lambda>w f fl. (0, [])),
     DB_VERIFY_BAD = - 30970, DB_NOTFOUND = - 30988,
     db_get = (\<lambda>w h x k. (if demo_contents w x k = None then - 30988 else 0, demo_contents w x k)),
     db_put = (\<lambda>w h x k v fl. if DB_NOOVERWRITE \<in> set fl \<and> demo_contents w x k \<noteq> None then (- 30994, w)
        else (0, demo_set w x ((demo_contents w x)(k \<mapsto> v)))),
     db_del = (\<lambda>w h x k. if demo_contents w x k = None then (- 30988, w)
        else (0, demo_set w x ((demo_contents w x)(k := None)))),
     db_exists = (\<lambda>w h x k. if demo_contents w x k = None then - 30988 else 0),
     txn_begin = (\<lambda>w. (0, Some (), (fst w, fst w))), txn_commit = (\<lambda>w t. (0, (snd w, snd w))),
     txn_abort = (\<lambda>w t. (0, w)), ParseHex = (\<lambda>s. []), ser_string = (\<lambda>s. []), ser_int = (\<lambda>i. []),
     unser_int = (\<lambda>b i. (True, i)), CLIENT_VERSION = 0, format_ret = (\<lambda>i. [])\<rparr>"

definition demo_db_view :: "(unit, bytes_map \<times> bytes_map) db_view" where
  "demo_db_view = \<lparr>stored = fst, shadow = (\<lambda>w t. snd w)\<rparr>"

lemma demo_view [simp]: "stored demo_db_view w = fst w" "shadow demo_db_view w t = snd w"
  by (simp_all add: demo_db_view_def)

lemma demo_seen [simp]: "seen demo_db_view w x = demo_contents w x"
  by (cases x) (simp_all add: seen_def demo_contents_def)

lemma demo_set_contents:
  "demo_set w x m = w' \<Longrightarrow> demo_contents w' x = m"
  by (auto simp: demo_contents_def demo_set_def)

lemma demo_set_stored: "demo_set w (Some t) m = w' \<Longrightarrow> fst w' = fst w"
  by (auto simp: demo_set_def)

lemma demo_txn_ok: "bdb_ok demo_db_view demo_txn_bdb h"
  unfolding bdb_ok_def
proof (intro conjI)
  show "bdb_reads demo_db_view demo_txn_bdb h"
    by (simp add: bdb_reads_def demo_txn_bdb_def)
  show "bdb_changes demo_db_view demo_txn_bdb h"
    by (auto simp: bdb_changes_def changed_def demo_txn_bdb_def split: if_splits
        dest: demo_set_contents demo_set_stored)
  show "bdb_txns demo_db_view demo_txn_bdb"
    by (simp add: bdb_txns_def demo_txn_bdb_def)
qed

definition demo_accessor :: "(nat, unit) CDB" where
  "demo_accessor = new_CDB ''w'' ''r+'' True (Some 1)"

theorem accessor_is_transactional_map_witness:
  "\<exists>ys s' a'. db_run demo_txn_bdb (demo_accessor, CDBEnv_init (Map.empty, Map.empty))
       [OpWrite [1] [2] True, OpBegin, OpErase [1], OpAbort, OpRead [1]] = Inr (ys, s') \<and>
     runs (txn_step (reads_reliably demo_txn_bdb 1))
       (map_of_accessor demo_db_view (demo_accessor, CDBEnv_init (Map.empty, Map.empty)))
       [OpWrite [1] [2] True, OpBegin, OpErase [1], OpAbort, OpRead [1]] ys a' \<and> agrees demo_db_view s' a'"
  by (rule accessor_is_transactional_map [OF demo_txn_ok]) (simp_all add: demo_accessor_def new_CDB_def)

end
