(* ===== verification/WalletTx.thy ===== *)
theory WalletTx
  imports StdMap "HOL-Library.Char_ord" "HOL-Library.List_Lexorder"
begin

text \<open>
  The transactions a wallet keeps: \<open>CMerkleTx\<close>, \<open>CWalletTx\<close>, \<open>CKeyPool\<close>, \<open>CWalletKey\<close> and
  \<open>COutput\<close> of \<open>Wallet/wallet.h\<close>, with \<open>COutput::Priority\<close> of \<open>Wallet/wallet-tx.cpp\<close>. A
  class that extends another is a record that extends its record. Serialization is the tuple
  of the values that \<open>READWRITE\<close> passes, in order; number formatting, the outputs of a
  transaction, the denominations and \<open>COIN\<close> come from outside the repository and are the
  fields of \<open>wtx_env\<close>.
\<close>

section \<open>Environment\<close>

record 'tx wtx_env =
  atoi64_cstr :: "string \<Rightarrow> i64"
  atoi64_str :: "string \<Rightarrow> i64"
  i64tostr :: "i64 \<Rightarrow> string"
  format_u :: "u32 \<Rightarrow> string"
  vout_values :: "'tx \<Rightarrow> i64 list"
  vecPrivateSendDenominations :: "i64 list"
  COIN :: i64
  SER_GETHASH :: u32
  limited_string :: "nat \<Rightarrow> string \<Rightarrow> string res"

type_synonym mapValue_t = "(string, string) stdmap"

section \<open>Settings\<close>

text \<open>The defaults that do not depend on \<open>COIN\<close> and \<open>CENT\<close> of \<open>amount.h\<close>.\<close>

definition DEFAULT_KEYPOOL_SIZE :: u32 where "DEFAULT_KEYPOOL_SIZE = 1000"
definition DEFAULT_TRANSACTION_FEE :: i64 where "DEFAULT_TRANSACTION_FEE = 0"
definition DEFAULT_FALLBACK_FEE :: i64 where "DEFAULT_FALLBACK_FEE = 20000"
definition DEFAULT_TRANSACTION_MINFEE :: i64 where "DEFAULT_TRANSACTION_MINFEE = 10000"
definition DEFAULT_SPEND_ZEROCONF_CHANGE :: bool where "DEFAULT_SPEND_ZEROCONF_CHANGE = True"
definition DEFAULT_SEND_FREE_TRANSACTIONS :: bool where "DEFAULT_SEND_FREE_TRANSACTIONS = False"
definition DEFAULT_TX_CONFIRM_TARGET :: u32 where "DEFAULT_TX_CONFIRM_TARGET = 2"
definition MAX_FREE_TRANSACTION_CREATE_SIZE :: u32 where "MAX_FREE_TRANSACTION_CREATE_SIZE = 1000"
definition DEFAULT_WALLETBROADCAST :: bool where "DEFAULT_WALLETBROADCAST = True"

section \<open>Recipients and output entries\<close>

text \<open>\<open>'s\<close> is a script, \<open>'d\<close> a destination.\<close>

record 's CRecipient =
  rcp_scriptPubKey :: 's
  rcp_nAmount :: i64
  fSubtractFeeFromAmount :: bool

record 'd COutputEntry =
  entry_destination :: 'd
  entry_amount :: i64
  entry_vout :: int

section \<open>A transaction with its block\<close>

record 'tx CMerkleTx =
  CTransaction :: 'tx
  hashBlock :: uint256
  nIndex :: int

definition ABANDON_HASH :: uint256 where "ABANDON_HASH = 1"

definition CMerkleTx_Init :: "('tx, 'z) CMerkleTx_scheme \<Rightarrow> ('tx, 'z) CMerkleTx_scheme" where
  "CMerkleTx_Init m = m\<lparr>hashBlock := 0, nIndex := - 1\<rparr>"

definition hashUnset :: "('tx, 'z) CMerkleTx_scheme \<Rightarrow> bool" where
  "hashUnset m \<longleftrightarrow> hashBlock m = 0 \<or> hashBlock m = ABANDON_HASH"

definition isAbandoned :: "('tx, 'z) CMerkleTx_scheme \<Rightarrow> bool" where
  "isAbandoned m \<longleftrightarrow> hashBlock m = ABANDON_HASH"

definition setAbandoned :: "('tx, 'z) CMerkleTx_scheme \<Rightarrow> ('tx, 'z) CMerkleTx_scheme" where
  "setAbandoned m = m\<lparr>hashBlock := ABANDON_HASH\<rparr>"

text \<open>The image: the transaction, the block, an unused Merkle branch, and the index.\<close>

type_synonym 'tx merkle_image = "'tx \<times> uint256 \<times> uint256 list \<times> int"

definition merkle_write :: "('tx, 'z) CMerkleTx_scheme \<Rightarrow> 'tx merkle_image" where
  "merkle_write m = (CTransaction m, hashBlock m, [], nIndex m)"

definition merkle_read ::
    "'tx merkle_image \<Rightarrow> ('tx, 'z) CMerkleTx_scheme \<Rightarrow> ('tx, 'z) CMerkleTx_scheme" where
  "merkle_read = (\<lambda>(tx, h, vMerkleBranch, i) m. m\<lparr>CTransaction := tx, hashBlock := h, nIndex := i\<rparr>)"

section \<open>A wallet transaction\<close>

text \<open>\<open>pwallet\<close> is a pointer: the number of a wallet, or \<open>None\<close> for null.\<close>

record 'tx CWalletTx = "'tx CMerkleTx" +
  pwallet :: "nat option"
  mapValue :: mapValue_t
  vOrderForm :: "(string \<times> string) list"
  fTimeReceivedIsTxTime :: u32
  nTimeReceived :: u32
  nTimeSmart :: u32
  fFromMe :: byte
  strFromAccount :: string
  nOrderPos :: i64
  fDebitCached :: bool
  fCreditCached :: bool
  fImmatureCreditCached :: bool
  fAvailableCreditCached :: bool
  fAnonymizedCreditCached :: bool
  fDenomUnconfCreditCached :: bool
  fDenomConfCreditCached :: bool
  fWatchDebitCached :: bool
  fWatchCreditCached :: bool
  fImmatureWatchCreditCached :: bool
  fAvailableWatchCreditCached :: bool
  fChangeCached :: bool
  nDebitCached :: i64
  nCreditCached :: i64
  nImmatureCreditCached :: i64
  nAvailableCreditCached :: i64
  nAnonymizedCreditCached :: i64
  nDenomUnconfCreditCached :: i64
  nDenomConfCreditCached :: i64
  nWatchDebitCached :: i64
  nWatchCreditCached :: i64
  nImmatureWatchCreditCached :: i64
  nAvailableWatchCreditCached :: i64
  nChangeCached :: i64

definition CWalletTx_Init :: "nat option \<Rightarrow> 'tx CWalletTx \<Rightarrow> 'tx CWalletTx" where
  "CWalletTx_Init pwalletIn w = w\<lparr>pwallet := pwalletIn, mapValue := [], vOrderForm := [],
     fTimeReceivedIsTxTime := 0, nTimeReceived := 0, nTimeSmart := 0, fFromMe := 0, strFromAccount := [],
     fDebitCached := False, fCreditCached := False, fImmatureCreditCached := False,
     fAvailableCreditCached := False, fAnonymizedCreditCached := False,
     fDenomUnconfCreditCached := False, fDenomConfCreditCached := False, fWatchDebitCached := False,
     fWatchCreditCached := False, fImmatureWatchCreditCached := False,
     fAvailableWatchCreditCached := False, fChangeCached := False,
     nDebitCached := 0, nCreditCached := 0, nImmatureCreditCached := 0, nAvailableCreditCached := 0,
     nAnonymizedCreditCached := 0, nDenomUnconfCreditCached := 0, nDenomConfCreditCached := 0,
     nWatchDebitCached := 0, nWatchCreditCached := 0, nAvailableWatchCreditCached := 0,
     nImmatureWatchCreditCached := 0, nChangeCached := 0, nOrderPos := - 1\<rparr>"

definition MarkDirty :: "'tx CWalletTx \<Rightarrow> 'tx CWalletTx" where
  "MarkDirty w = w\<lparr>fCreditCached := False, fAvailableCreditCached := False,
     fImmatureCreditCached := False, fAnonymizedCreditCached := False,
     fDenomUnconfCreditCached := False, fDenomConfCreditCached := False, fWatchDebitCached := False,
     fWatchCreditCached := False, fAvailableWatchCreditCached := False,
     fImmatureWatchCreditCached := False, fDebitCached := False, fChangeCached := False\<rparr>"

definition BindWallet :: "nat option \<Rightarrow> 'tx CWalletTx \<Rightarrow> 'tx CWalletTx" where
  "BindWallet pwalletIn w = MarkDirty (w\<lparr>pwallet := pwalletIn\<rparr>)"

text \<open>
  The constructors. A class member without an initialiser has whatever the memory holds: the
  last argument. \<open>CMerkleTx_of\<close> of the empty transaction is the constructor without argument.
\<close>

definition CMerkleTx_of :: "'tx \<Rightarrow> 'tx CMerkleTx \<Rightarrow> 'tx CMerkleTx" where
  "CMerkleTx_of txIn m = CMerkleTx_Init (m\<lparr>CTransaction := txIn\<rparr>)"

definition CWalletTx_of :: "nat option \<Rightarrow> 'tx CMerkleTx \<Rightarrow> 'tx CWalletTx \<Rightarrow> 'tx CWalletTx" where
  "CWalletTx_of pwalletIn txIn w = CWalletTx_Init pwalletIn
     (w\<lparr>CTransaction := CTransaction txIn, hashBlock := hashBlock txIn, nIndex := nIndex txIn\<rparr>)"

text \<open>\<open>GetDebit\<close> and \<open>GetDepthInMainChain\<close> are declared only.\<close>

definition IsFromMe :: "('tx CWalletTx \<Rightarrow> 'filter \<Rightarrow> i64) \<Rightarrow> 'tx CWalletTx \<Rightarrow> 'filter \<Rightarrow> bool" where
  "IsFromMe GetDebit w isminefilter \<longleftrightarrow> 0 <s GetDebit w isminefilter"

definition IsInMainChain :: "(('tx, 'z) CMerkleTx_scheme \<Rightarrow> bool \<Rightarrow> int) \<Rightarrow> ('tx, 'z) CMerkleTx_scheme \<Rightarrow> bool" where
  "IsInMainChain GetDepthInMainChain m \<longleftrightarrow> 0 < GetDepthInMainChain m True"

text \<open>\<open>c_str\<close> ends at the first null character.\<close>

definition ReadOrderPos :: "'tx wtx_env \<Rightarrow> mapValue_t \<Rightarrow> i64" where
  "ReadOrderPos E m = (case smap_find m ''n'' of
     None \<Rightarrow> - 1
   | Some s \<Rightarrow> atoi64_cstr E (takeWhile (\<lambda>c. c \<noteq> CHR 0x00) s))"

definition WriteOrderPos :: "'tx wtx_env \<Rightarrow> i64 \<Rightarrow> mapValue_t \<Rightarrow> mapValue_t" where
  "WriteOrderPos E pos m = (if pos = - 1 then m else smap_put m ''n'' (i64tostr E pos))"

text \<open>The keys that the serialization keeps in \<open>mapValue\<close>, erased at its end.\<close>

definition erase_reserved :: "mapValue_t \<Rightarrow> mapValue_t" where
  "erase_reserved m =
     (let m = smap_erase m ''fromaccount''; m = smap_erase m ''version''; m = smap_erase m ''spent'';
          m = smap_erase m ''n''
      in smap_erase m ''timesmart'')"

type_synonym 'tx wtx_image =
  "'tx merkle_image \<times> 'tx merkle_image list \<times> mapValue_t \<times> (string \<times> string) list \<times> u32 \<times> u32 \<times> byte \<times> byte"

definition wtx_write :: "'tx wtx_env \<Rightarrow> 'tx CWalletTx \<Rightarrow> 'tx wtx_image \<times> 'tx CWalletTx" where
  "wtx_write E w =
     (let m = smap_put (mapValue w) ''fromaccount'' (strFromAccount w);
          m = WriteOrderPos E (nOrderPos w) m;
          m = (if nTimeSmart w \<noteq> 0 then smap_put m ''timesmart'' (format_u E (nTimeSmart w)) else m)
      in ((merkle_write w, [], m, vOrderForm w, fTimeReceivedIsTxTime w, nTimeReceived w, fFromMe w, 0),
          w\<lparr>mapValue := erase_reserved m\<rparr>))"

definition wtx_read :: "'tx wtx_env \<Rightarrow> 'tx wtx_image \<Rightarrow> 'tx CWalletTx \<Rightarrow> 'tx CWalletTx" where
  "wtx_read E = (\<lambda>(mtx, vUnused, m, form, isTxTime, received, fromMe, fSpent) w.
     let w = merkle_read mtx (CWalletTx_Init None w);
         account = (case smap_find m ''fromaccount'' of None \<Rightarrow> [] | Some s \<Rightarrow> s);
         m = smap_put m ''fromaccount'' account
     in w\<lparr>mapValue := erase_reserved m, vOrderForm := form, fTimeReceivedIsTxTime := isTxTime,
          nTimeReceived := received, fFromMe := fromMe, strFromAccount := account,
          nOrderPos := ReadOrderPos E m,
          nTimeSmart := (case smap_find m ''timesmart'' of None \<Rightarrow> 0 | Some s \<Rightarrow> ucast (atoi64_str E s))\<rparr>)"

section \<open>Key pool entries and wallet keys\<close>

record 'pub CKeyPool =
  kp_nTime :: i64
  kp_vchPubKey :: 'pub

text \<open>The version is part of the image unless a hash is computed.\<close>

definition keypool_write :: "'tx wtx_env \<Rightarrow> u32 \<Rightarrow> int \<Rightarrow> 'pub CKeyPool \<Rightarrow> int option \<times> i64 \<times> 'pub" where
  "keypool_write E nType nVersion k =
     (if nType AND SER_GETHASH E = 0 then Some nVersion else None, kp_nTime k, kp_vchPubKey k)"

definition keypool_read :: "int option \<times> i64 \<times> 'pub \<Rightarrow> 'pub CKeyPool \<Rightarrow> 'pub CKeyPool" where
  "keypool_read = (\<lambda>(v, t, p) k. k\<lparr>kp_nTime := t, kp_vchPubKey := p\<rparr>)"

record CWalletKey =
  vchPrivKey :: "byte list"
  nTimeCreated :: i64
  nTimeExpires :: i64
  strComment :: string

definition walletkey_write ::
    "'tx wtx_env \<Rightarrow> u32 \<Rightarrow> int \<Rightarrow> CWalletKey \<Rightarrow> int option \<times> byte list \<times> i64 \<times> i64 \<times> string" where
  "walletkey_write E nType nVersion k =
     (if nType AND SER_GETHASH E = 0 then Some nVersion else None,
      vchPrivKey k, nTimeCreated k, nTimeExpires k, strComment k)"

definition walletkey_read ::
    "'tx wtx_env \<Rightarrow> int option \<times> byte list \<times> i64 \<times> i64 \<times> string \<Rightarrow> CWalletKey \<Rightarrow> CWalletKey res" where
  "walletkey_read E = (\<lambda>(v, key, created, expires, comment) k.
     rbind (limited_string E 65536 comment) (\<lambda>c.
       Inr (k\<lparr>vchPrivKey := key, nTimeCreated := created, nTimeExpires := expires, strComment := c\<rparr>)))"

section \<open>Tallies and the address book\<close>

datatype AvailableCoinsType = ALL_COINS | ONLY_DENOMINATED | ONLY_NOT1000IFMN
  | ONLY_NONDENOMINATED_NOT1000IFMN | ONLY_1000 | ONLY_PRIVATESEND_COLLATERAL

fun coins_type_value :: "AvailableCoinsType \<Rightarrow> int" where
  "coins_type_value ALL_COINS = 1"
| "coins_type_value ONLY_DENOMINATED = 2"
| "coins_type_value ONLY_NOT1000IFMN = 3"
| "coins_type_value ONLY_NONDENOMINATED_NOT1000IFMN = 4"
| "coins_type_value ONLY_1000 = 5"
| "coins_type_value ONLY_PRIVATESEND_COLLATERAL = 6"

record ('addr, 'vin) CompactTallyItem =
  tally_address :: 'addr
  tally_nAmount :: i64
  tally_vecTxIn :: "'vin list"

definition CompactTallyItem_init :: "'addr \<Rightarrow> ('addr, 'vin) CompactTallyItem" where
  "CompactTallyItem_init no_address = \<lparr>tally_address = no_address, tally_nAmount = 0, tally_vecTxIn = []\<rparr>"

record CAddressBookData =
  book_name :: string
  book_purpose :: string
  destdata :: "(string, string) stdmap"

definition CAddressBookData_init :: CAddressBookData where
  "CAddressBookData_init = \<lparr>book_name = [], book_purpose = ''unknown'', destdata = []\<rparr>"

section \<open>Outputs and their priority\<close>

record 'tx COutput =
  out_tx :: "'tx CWalletTx"
  out_i :: int
  nDepth :: int
  fSpendable :: bool

definition COutput_init :: "'tx CWalletTx \<Rightarrow> int \<Rightarrow> int \<Rightarrow> bool \<Rightarrow> 'tx COutput" where
  "COutput_init txIn iIn nDepthIn fSpendableIn =
     \<lparr>out_tx = txIn, out_i = iIn, nDepth = nDepthIn, fSpendable = fSpendableIn\<rparr>"

definition out_value :: "'tx wtx_env \<Rightarrow> 'tx COutput \<Rightarrow> i64 res" where
  "out_value E out =
     (let vs = vout_values E (CTransaction (out_tx out)) in
      if 0 \<le> out_i out \<and> out_i out < int (length vs) then Inr (vs ! nat (out_i out)) else Inl OutOfRange)"

text \<open>
  The quotient is taken of a value of at least \<open>COIN\<close>, so that truncation is \<open>div\<close>; the
  \<open>int64_t\<close> result is narrowed to \<open>int\<close>.
\<close>

definition Priority :: "'tx wtx_env \<Rightarrow> 'tx COutput \<Rightarrow> int res" where
  "Priority E out = rbind (out_value E out) (\<lambda>v.
     if v \<in> set (vecPrivateSendDenominations E) then Inr 10000
     else if v <s COIN E then Inr 20000
     else Inr (sint (word_of_int (- (sint v div sint (COIN E))) :: 32 word)))"

text \<open>The formats of hashes, numbers and amounts are arguments.\<close>

definition COutput_ToString ::
    "'tx wtx_env \<Rightarrow> ('tx \<Rightarrow> string) \<Rightarrow> (int \<Rightarrow> string) \<Rightarrow> (i64 \<Rightarrow> string) \<Rightarrow> 'tx COutput \<Rightarrow> string res" where
  "COutput_ToString E hash_string fmt_d FormatMoney out = rbind (out_value E out) (\<lambda>v.
     Inr (''COutput('' @ hash_string (CTransaction (out_tx out)) @ '', '' @ fmt_d (out_i out) @ '', '' @
       fmt_d (nDepth out) @ '') ['' @ FormatMoney v @ '']''))"

definition CompareValueOnly :: "i64 \<times> 'a \<Rightarrow> i64 \<times> 'a \<Rightarrow> bool" where
  "CompareValueOnly t1 t2 \<longleftrightarrow> fst t1 <s fst t2"

section \<open>Lemmas\<close>

definition reserved :: "string list" where
  "reserved = [''fromaccount'', ''version'', ''spent'', ''n'', ''timesmart'']"

lemma find_erase_reserved:
  assumes "smap_ok m"
  shows "smap_find (erase_reserved m) k = (if k \<in> set reserved then None else smap_find m k)"
  using assms by (simp add: erase_reserved_def Let_def reserved_def)

lemma ok_erase_reserved: "smap_ok m \<Longrightarrow> smap_ok (erase_reserved m)"
  by (simp add: erase_reserved_def Let_def)

lemma erase_reserved_eq:
  assumes "smap_ok m" "smap_ok m'" "\<And>k. k \<in> set reserved \<Longrightarrow> smap_find m k = None"
    and "\<And>k. k \<notin> set reserved \<Longrightarrow> smap_find m' k = smap_find m k"
  shows "erase_reserved m' = m"
  by (rule smap_ext [OF ok_erase_reserved [OF assms(2)] assms(1)])
    (simp add: find_erase_reserved [OF assms(2)] assms(3,4))

text \<open>A constructed transaction has nothing of the memory it was built in, and no block of its own.\<close>

lemma CMerkleTx_of_memory: "CMerkleTx_of tx m = CMerkleTx_of tx m'"
  by (cases m, cases m') (simp add: CMerkleTx_of_def CMerkleTx_Init_def)

lemma CWalletTx_of_memory: "CWalletTx_of p m w = CWalletTx_of p m w'"
  by (cases w, cases w') (simp add: CWalletTx_of_def CWalletTx_Init_def)

lemma new_hashUnset: "hashUnset (CWalletTx_of p (CMerkleTx_of tx m) w)"
  by (simp add: hashUnset_def CWalletTx_of_def CWalletTx_Init_def CMerkleTx_of_def CMerkleTx_Init_def)

lemma setAbandoned_unset: "isAbandoned (setAbandoned m)" "isAbandoned m \<Longrightarrow> hashUnset m"
  by (simp_all add: isAbandoned_def setAbandoned_def hashUnset_def)

text \<open>What the number formats promise.\<close>

definition formats_ok :: "'tx wtx_env \<Rightarrow> bool" where
  "formats_ok E \<longleftrightarrow>
     (\<forall>n. atoi64_cstr E (i64tostr E n) = n \<and> CHR 0x00 \<notin> set (i64tostr E n)) \<and>
     (\<forall>n. ucast (atoi64_str E (format_u E n)) = n)"

lemma ReadOrderPos_written:
  assumes "formats_ok E" "smap_find m ''n'' = None"
  shows "ReadOrderPos E (WriteOrderPos E pos m) = pos"
proof -
  have t: "takeWhile (\<lambda>c. c \<noteq> CHR 0x00) (i64tostr E pos) = i64tostr E pos"
    using assms(1) by (auto simp: formats_ok_def takeWhile_eq_all_conv)
  have "atoi64_cstr E (i64tostr E pos) = pos" using assms(1) by (simp add: formats_ok_def)
  then show ?thesis using assms(2) by (cases "pos = - 1") (simp_all add: ReadOrderPos_def WriteOrderPos_def t)
qed

lemma ReadOrderPos_other: "smap_find m ''n'' = smap_find m' ''n'' \<Longrightarrow> ReadOrderPos E m = ReadOrderPos E m'"
  by (simp add: ReadOrderPos_def)

text \<open>The map that is written, by its entries.\<close>

definition written_map :: "'tx wtx_env \<Rightarrow> 'tx CWalletTx \<Rightarrow> mapValue_t" where
  "written_map E w =
     (let m = WriteOrderPos E (nOrderPos w) (smap_put (mapValue w) ''fromaccount'' (strFromAccount w))
      in if nTimeSmart w \<noteq> 0 then smap_put m ''timesmart'' (format_u E (nTimeSmart w)) else m)"

lemma wtx_write_eq:
  "wtx_write E w = ((merkle_write w, [], written_map E w, vOrderForm w, fTimeReceivedIsTxTime w,
     nTimeReceived w, fFromMe w, 0), w\<lparr>mapValue := erase_reserved (written_map E w)\<rparr>)"
  by (simp add: wtx_write_def written_map_def Let_def)

lemma written_map_ok: "smap_ok (mapValue w) \<Longrightarrow> smap_ok (written_map E w)"
  by (simp add: written_map_def Let_def WriteOrderPos_def)

lemma written_map_find:
  "smap_find (written_map E w) ''fromaccount'' = Some (strFromAccount w)"
  "smap_find (mapValue w) ''timesmart'' = None \<Longrightarrow>
     smap_find (written_map E w) ''timesmart'' = (if nTimeSmart w \<noteq> 0 then Some (format_u E (nTimeSmart w)) else None)"
  "k \<notin> set reserved \<Longrightarrow> smap_find (written_map E w) k = smap_find (mapValue w) k"
  by (simp_all add: written_map_def Let_def WriteOrderPos_def reserved_def)

lemma written_map_order:
  assumes "formats_ok E" "smap_find (mapValue w) ''n'' = None"
  shows "ReadOrderPos E (written_map E w) = nOrderPos w"
proof -
  let ?m = "smap_put (mapValue w) ''fromaccount'' (strFromAccount w)"
  have "ReadOrderPos E (written_map E w) = ReadOrderPos E (WriteOrderPos E (nOrderPos w) ?m)"
    by (rule ReadOrderPos_other) (simp add: written_map_def Let_def)
  also have "\<dots> = nOrderPos w" using assms by (intro ReadOrderPos_written) simp_all
  finally show ?thesis .
qed

lemma written_map_erased:
  assumes "smap_ok (mapValue w)" "\<forall>k \<in> set reserved. smap_find (mapValue w) k = None"
  shows "erase_reserved (written_map E w) = mapValue w"
  using assms by (intro erase_reserved_eq) (simp_all add: written_map_ok written_map_find(3))

lemma written_map_time:
  assumes "formats_ok E" "smap_find (mapValue w) ''timesmart'' = None"
  shows "(case smap_find (written_map E w) ''timesmart'' of None \<Rightarrow> 0 | Some s \<Rightarrow> ucast (atoi64_str E s)) = nTimeSmart w"
  using assms by (simp add: written_map_find(2) formats_ok_def)

section \<open>Properties\<close>

text \<open>
  C15: a wallet transaction survives being saved. If its \<open>mapValue\<close> has none of the keys the
  serialization reserves, saving it does not change it, and loading the image gives all its
  saved members back, with the caches cleared and no wallet bound.
\<close>

theorem wallet_tx_roundtrip:
  assumes "formats_ok E" "smap_ok (mapValue w)" "\<forall>k \<in> set reserved. smap_find (mapValue w) k = None"
  shows "snd (wtx_write E w) = w \<and>
    wtx_read E (fst (wtx_write E w)) w0 =
      (CWalletTx_Init None w0)\<lparr>CTransaction := CTransaction w, hashBlock := hashBlock w, nIndex := nIndex w,
        mapValue := mapValue w, vOrderForm := vOrderForm w, fTimeReceivedIsTxTime := fTimeReceivedIsTxTime w,
        nTimeReceived := nTimeReceived w, nTimeSmart := nTimeSmart w, fFromMe := fFromMe w,
        strFromAccount := strFromAccount w, nOrderPos := nOrderPos w\<rparr>"
proof
  have r: "smap_find (mapValue w) ''n'' = None" "smap_find (mapValue w) ''timesmart'' = None"
    using assms(3) by (simp_all add: reserved_def)
  show "snd (wtx_write E w) = w"
    by (simp add: wtx_write_eq written_map_erased [OF assms(2,3)])
  have "smap_put (written_map E w) ''fromaccount'' (strFromAccount w) = written_map E w"
    by (rule smap.put_same [OF written_map_ok [OF assms(2)] written_map_find(1)])
  then show "wtx_read E (fst (wtx_write E w)) w0 =
      (CWalletTx_Init None w0)\<lparr>CTransaction := CTransaction w, hashBlock := hashBlock w, nIndex := nIndex w,
        mapValue := mapValue w, vOrderForm := vOrderForm w, fTimeReceivedIsTxTime := fTimeReceivedIsTxTime w,
        nTimeReceived := nTimeReceived w, nTimeSmart := nTimeSmart w, fFromMe := fFromMe w,
        strFromAccount := strFromAccount w, nOrderPos := nOrderPos w\<rparr>"
    by (simp add: wtx_write_eq wtx_read_def Let_def merkle_write_def merkle_read_def written_map_find(1)
        written_map_erased [OF assms(2,3)] written_map_order [OF assms(1) r(1)]
        written_map_time [OF assms(1) r(2)])
qed

definition demo_wtx_env :: "i64 list wtx_env" where
  "demo_wtx_env = \<lparr>atoi64_cstr = (\<lambda>s. of_nat (length s)), atoi64_str = (\<lambda>s. of_nat (length s)),
     i64tostr = (\<lambda>n. replicate (unat n) (CHR ''1'')), format_u = (\<lambda>n. replicate (unat n) (CHR ''1'')),
     vout_values = (\<lambda>tx. tx), vecPrivateSendDenominations = [100100000], COIN = 100000000,
     SER_GETHASH = 4, limited_string = (\<lambda>n s. Inr s)\<rparr>"

definition demo_wtx :: "i64 list CWalletTx" where
  "demo_wtx = \<lparr>CTransaction = [100100000, 2100000000, 500, 300000000], hashBlock = 7, nIndex = 2, pwallet = Some 0,
     mapValue = [(''to'', ''bob'')], vOrderForm = [], fTimeReceivedIsTxTime = 0, nTimeReceived = 5,
     nTimeSmart = 3, fFromMe = 1, strFromAccount = ''a'', nOrderPos = 2,
     fDebitCached = True, fCreditCached = False, fImmatureCreditCached = False,
     fAvailableCreditCached = False, fAnonymizedCreditCached = False, fDenomUnconfCreditCached = False,
     fDenomConfCreditCached = False, fWatchDebitCached = False, fWatchCreditCached = False,
     fImmatureWatchCreditCached = False, fAvailableWatchCreditCached = False, fChangeCached = False,
     nDebitCached = 9, nCreditCached = 0, nImmatureCreditCached = 0, nAvailableCreditCached = 0,
     nAnonymizedCreditCached = 0, nDenomUnconfCreditCached = 0, nDenomConfCreditCached = 0,
     nWatchDebitCached = 0, nWatchCreditCached = 0, nImmatureWatchCreditCached = 0,
     nAvailableWatchCreditCached = 0, nChangeCached = 0\<rparr>"

lemma demo_formats: "formats_ok demo_wtx_env"
proof -
  have "ucast (of_nat (unat n) :: i64) = n" for n :: u32
    by (rule bit_word_eqI) (simp add: bit_unsigned_iff)
  then show ?thesis by (simp add: formats_ok_def demo_wtx_env_def)
qed

theorem wallet_tx_roundtrip_witness:
  "snd (wtx_write demo_wtx_env demo_wtx) = demo_wtx \<and>
   nOrderPos (wtx_read demo_wtx_env (fst (wtx_write demo_wtx_env demo_wtx)) demo_wtx) = 2 \<and>
   nTimeSmart (wtx_read demo_wtx_env (fst (wtx_write demo_wtx_env demo_wtx)) demo_wtx) = 3"
proof -
  have ok: "smap_ok (mapValue demo_wtx)" by (simp add: demo_wtx_def)
  have r: "\<forall>k \<in> set reserved. smap_find (mapValue demo_wtx) k = None" by (simp add: demo_wtx_def reserved_def)
  show ?thesis using wallet_tx_roundtrip [OF demo_formats ok r, of demo_wtx] by (simp add: demo_wtx_def)
qed

section \<open>The order of outputs\<close>

definition priority_class :: "'tx wtx_env \<Rightarrow> i64 \<Rightarrow> nat" where
  "priority_class E v =
     (if v \<in> set (vecPrivateSendDenominations E) then 1 else if sint v < sint (COIN E) then 2 else 0)"

lemma priority_class_range: "priority_class E v = 0 \<or> priority_class E v = 1 \<or> priority_class E v = 2"
  by (simp add: priority_class_def)

lemma Priority_class:
  assumes "out_value E out = Inr v" "0 < sint (COIN E)" "sint v < 2 ^ 31 * sint (COIN E)"
  shows "Priority E out = Inr (if priority_class E v = 1 then 10000
     else if priority_class E v = 2 then 20000 else - (sint v div sint (COIN E)))"
    and "priority_class E v = 0 \<Longrightarrow> 1 \<le> sint v div sint (COIN E)"
proof -
  let ?q = "sint v div sint (COIN E)"
  have q: "1 \<le> ?q" if "priority_class E v = 0"
  proof -
    have "sint (COIN E) \<le> sint v" using that by (simp add: priority_class_def split: if_splits)
    then show ?thesis using assms(2) by (simp add: pos_imp_zdiv_pos_iff int_one_le_iff_zero_less)
  qed
  then show "priority_class E v = 0 \<Longrightarrow> 1 \<le> ?q" .
  have "?q < 2 ^ 31"
  proof (rule ccontr)
    assume "\<not> ?q < 2 ^ 31"
    then have "2 ^ 31 * sint (COIN E) \<le> ?q * sint (COIN E)" using assms(2) by (intro mult_right_mono) simp_all
    moreover have "?q * sint (COIN E) \<le> sint v"
      using div_mult_mod_eq [of "sint v" "sint (COIN E)"] pos_mod_sign [OF assms(2), of "sint v"] by linarith
    ultimately show False using assms(3) by linarith
  qed
  then have n: "sint (word_of_int (- ?q) :: 32 word) = - ?q" if "priority_class E v = 0"
    using q [OF that] by (subst sint_sbintrunc') (simp add: signed_take_bit_int_eq_self)
  have c: "v <s COIN E \<longleftrightarrow> sint v < sint (COIN E)" by (simp add: word_sless_alt)
  show "Priority E out = Inr (if priority_class E v = 1 then 10000
     else if priority_class E v = 2 then 20000 else - ?q)"
    using n by (simp add: Priority_def assms(1) priority_class_def c)
qed

text \<open>
  The order of \<open>Priority\<close>. For amounts below \<open>2^31\<close> coins, outputs sorted by priority
  have the amounts that are no denomination first, the largest number of coins first, then
  the denominations, then what is below one coin.
\<close>

theorem priority_order:
  assumes "0 < sint (COIN E)"
    and "out_value E a = Inr va" "sint va < 2 ^ 31 * sint (COIN E)"
    and "out_value E b = Inr vb" "sint vb < 2 ^ 31 * sint (COIN E)"
  shows "\<exists>pa pb. Priority E a = Inr pa \<and> Priority E b = Inr pb \<and>
    (priority_class E va < priority_class E vb \<longrightarrow> pa < pb) \<and>
    (priority_class E va = 0 \<longrightarrow> priority_class E vb = 0 \<longrightarrow>
      (pa < pb \<longleftrightarrow> sint vb div sint (COIN E) < sint va div sint (COIN E)))"
  using Priority_class [OF assms(2,1,3)] Priority_class [OF assms(4,1,5)]
    priority_class_range [of E va] priority_class_range [of E vb]
  by (elim disjE) (simp_all only: simp_thms if_True if_False zero_neq_one one_neq_zero zero_neq_numeral
    numeral_neq_zero one_eq_numeral_iff Inr_inject, simp_all)

theorem priority_order_witness:
  "\<exists>pa pb. Priority demo_wtx_env (COutput_init demo_wtx 1 1 True) = Inr pa \<and>
     Priority demo_wtx_env (COutput_init demo_wtx 3 1 True) = Inr pb \<and> pa < pb"
  using priority_order [of demo_wtx_env "COutput_init demo_wtx 1 1 True" 2100000000 "COutput_init demo_wtx 3 1 True" 300000000]
  by (simp add: out_value_def COutput_init_def demo_wtx_def demo_wtx_env_def priority_class_def)

end
