(* ===== verification/IsMine.thy ===== *)
theory IsMine
  imports Prelude
begin

text \<open>
  Which outputs belong to the wallet: \<open>Wallet/wallet_val.cpp\<close>. The script templates
  (\<open>Solver\<close>), the key store's queries, the hashes of keys and the signature producer are not
  part of the repository and are the fields of \<open>mine_env\<close>. \<open>IsMine\<close> calls itself for
  the redeem script of a pay-to-script-hash output, with no bound of its own, so that a run
  that does not return is the value \<open>None\<close>.
\<close>

section \<open>Data\<close>

text \<open>The kinds of output and of ownership that the code distinguishes.\<close>

datatype txnouttype = TX_NONSTANDARD | TX_PUBKEY | TX_PUBKEYHASH | TX_SCRIPTHASH | TX_MULTISIG | TX_NULL_DATA

datatype isminetype = ISMINE_NO | ISMINE_WATCH_UNSOLVABLE | ISMINE_WATCH_SOLVABLE | ISMINE_SPENDABLE

type_synonym valtype = "byte list"

record ('script, 'id) mine_env =
  Solver :: "'script \<Rightarrow> bool \<times> txnouttype \<times> valtype list"
  PubKeyID :: "valtype \<Rightarrow> 'id"
  HashID :: "valtype \<Rightarrow> 'id res"
  HaveKey :: "'id \<Rightarrow> bool"
  HaveWatchOnly :: "'script \<Rightarrow> bool"
  GetCScript :: "'id \<Rightarrow> 'script option"
  DummySignature :: "'script \<Rightarrow> bool"

section \<open>Operations\<close>

definition HaveKeys :: "('script, 'id) mine_env \<Rightarrow> valtype list \<Rightarrow> u32" where
  "HaveKeys E pubkeys =
     foldl (\<lambda>nResult pubkey. if HaveKey E (PubKeyID E pubkey) then nResult + 1 else nResult) 0 pubkeys"

definition solution0 :: "valtype list \<Rightarrow> valtype res" where
  "solution0 vSolutions = (case vSolutions of [] \<Rightarrow> Inl OutOfRange | v # _ \<Rightarrow> Inr v)"

text \<open>The keys of a multisignature output: the solutions without the first and the last.\<close>

definition multisig_keys :: "valtype list \<Rightarrow> valtype list res" where
  "multisig_keys vSolutions =
     (if length vSolutions < 2 then Inl OutOfRange else Inr (butlast (tl vSolutions)))"

text \<open>The statements after the switch.\<close>

definition watch_result :: "('script, 'id) mine_env \<Rightarrow> 'script \<Rightarrow> isminetype" where
  "watch_result E scriptPubKey =
     (if HaveWatchOnly E scriptPubKey then
        if DummySignature E scriptPubKey then ISMINE_WATCH_SOLVABLE else ISMINE_WATCH_UNSOLVABLE
      else ISMINE_NO)"

definition own_if :: "('script, 'id) mine_env \<Rightarrow> 'script \<Rightarrow> bool res \<Rightarrow> isminetype res" where
  "own_if E scriptPubKey r =
     rbind r (\<lambda>b. Inr (if b then ISMINE_SPENDABLE else watch_result E scriptPubKey))"

partial_function (option) IsMine :: "('script, 'id) mine_env \<Rightarrow> 'script \<Rightarrow> isminetype res option" where
  "IsMine E scriptPubKey =
    (case Solver E scriptPubKey of (solved, whichType, vSolutions) \<Rightarrow>
      if \<not> solved then
        Some (Inr (if HaveWatchOnly E scriptPubKey then ISMINE_WATCH_UNSOLVABLE else ISMINE_NO))
      else case whichType of
        TX_NONSTANDARD \<Rightarrow> Some (Inr (watch_result E scriptPubKey))
      | TX_NULL_DATA \<Rightarrow> Some (Inr (watch_result E scriptPubKey))
      | TX_PUBKEY \<Rightarrow> Some (own_if E scriptPubKey
          (rbind (solution0 vSolutions) (\<lambda>v. Inr (HaveKey E (PubKeyID E v)))))
      | TX_PUBKEYHASH \<Rightarrow> Some (own_if E scriptPubKey
          (rbind (solution0 vSolutions) (\<lambda>v. rbind (HashID E v) (\<lambda>keyID. Inr (HaveKey E keyID)))))
      | TX_SCRIPTHASH \<Rightarrow>
          (case rbind (solution0 vSolutions) (HashID E) of
             Inl e \<Rightarrow> Some (Inl e)
           | Inr scriptID \<Rightarrow>
               (case GetCScript E scriptID of
                  None \<Rightarrow> Some (Inr (watch_result E scriptPubKey))
                | Some subscript \<Rightarrow>
                    Option.bind (IsMine E subscript) (\<lambda>ret. Some (rbind ret (\<lambda>ret.
                      Inr (if ret = ISMINE_SPENDABLE then ret else watch_result E scriptPubKey))))))
      | TX_MULTISIG \<Rightarrow> Some (own_if E scriptPubKey
          (rbind (multisig_keys vSolutions) (\<lambda>keys. Inr (unat (HaveKeys E keys) = length keys)))))"

definition IsMine_dest :: "('script, 'id) mine_env \<Rightarrow> ('dest \<Rightarrow> 'script) \<Rightarrow> 'dest \<Rightarrow> isminetype res option" where
  "IsMine_dest E GetScriptForDestination dest = IsMine E (GetScriptForDestination dest)"

section \<open>Ownership\<close>

text \<open>
  When an output can be spent: by one owned key, by all keys of a multisignature, or by a
  known redeem script that can be spent.
\<close>

inductive spendable :: "('script, 'id) mine_env \<Rightarrow> 'script \<Rightarrow> bool" for E where
  pubkey: "Solver E s = (True, TX_PUBKEY, v # vs) \<Longrightarrow> HaveKey E (PubKeyID E v) \<Longrightarrow> spendable E s"
| pubkeyhash: "Solver E s = (True, TX_PUBKEYHASH, v # vs) \<Longrightarrow> HashID E v = Inr i \<Longrightarrow> HaveKey E i \<Longrightarrow> spendable E s"
| scripthash: "Solver E s = (True, TX_SCRIPTHASH, v # vs) \<Longrightarrow> HashID E v = Inr i \<Longrightarrow>
    GetCScript E i = Some sub \<Longrightarrow> spendable E sub \<Longrightarrow> spendable E s"
| multisig: "Solver E s = (True, TX_MULTISIG, m # keys @ [n]) \<Longrightarrow>
    \<forall>k \<in> set keys. HaveKey E (PubKeyID E k) \<Longrightarrow> spendable E s"

inductive_cases spendable_elim: "spendable E s"

text \<open>The redeem script that \<open>IsMine\<close> looks at for a script.\<close>

definition redeems :: "('script, 'id) mine_env \<Rightarrow> 'script \<Rightarrow> 'script \<Rightarrow> bool" where
  "redeems E sub s \<longleftrightarrow> (\<exists>v vs i. Solver E s = (True, TX_SCRIPTHASH, v # vs) \<and> HashID E v = Inr i \<and> GetCScript E i = Some sub)"

lemma HaveKeys_upto:
  "length ks + unat n < 2 ^ 32 \<Longrightarrow>
   unat (foldl (\<lambda>nResult pubkey. if HaveKey E (PubKeyID E pubkey) then nResult + 1 else nResult) (n :: u32) ks) =
     unat n + length (filter (\<lambda>k. HaveKey E (PubKeyID E k)) ks)"
proof (induction ks arbitrary: n)
  case (Cons k ks)
  then have "unat (n + 1) = unat n + 1" by (simp add: unat_word_ariths)
  then show ?case using Cons by simp
qed simp

lemma HaveKeys_count:
  "length ks < 2 ^ 32 \<Longrightarrow> unat (HaveKeys E ks) = length (filter (\<lambda>k. HaveKey E (PubKeyID E k)) ks)"
  unfolding HaveKeys_def by (subst HaveKeys_upto) simp_all

lemma length_filter_all: "length (filter P ks) = length ks \<longleftrightarrow> (\<forall>k \<in> set ks. P k)"
proof (induction ks)
  case (Cons k ks)
  have "length (filter P ks) \<noteq> Suc (length ks)" using length_filter_le [of P ks] by linarith
  then show ?case using Cons by simp
qed simp

lemma HaveKeys_all:
  "length ks < 2 ^ 32 \<Longrightarrow> unat (HaveKeys E ks) = length ks \<longleftrightarrow> (\<forall>k \<in> set ks. HaveKey E (PubKeyID E k))"
  by (simp only: HaveKeys_count length_filter_all)

lemma multisig_keys_iff:
  "multisig_keys vs = Inr ks \<longleftrightarrow> (\<exists>m n. vs = m # ks @ [n])"
proof
  assume a: "multisig_keys vs = Inr ks"
  then obtain m ws where "vs = m # ws" "ws \<noteq> []" "ks = butlast ws"
    by (cases vs) (auto simp: multisig_keys_def split: if_splits)
  then show "\<exists>m n. vs = m # ks @ [n]" by (metis append_butlast_last_id)
qed (auto simp: multisig_keys_def)

lemma solution0_iff: "solution0 vs = Inr v \<longleftrightarrow> (\<exists>ws. vs = v # ws)"
  by (cases vs) (auto simp: solution0_def)

lemma own_if_iff:
  "own_if E s r = Inr t \<longleftrightarrow> (\<exists>b. r = Inr b \<and> t = (if b then ISMINE_SPENDABLE else watch_result E s))"
  by (auto simp: own_if_def rbind_Inr_iff)

lemma watch_result_not_spendable [simp]: "watch_result E s \<noteq> ISMINE_SPENDABLE"
  by (simp add: watch_result_def)

text \<open>The watch-only part of a result.\<close>

definition watch_spec :: "('script, 'id) mine_env \<Rightarrow> 'script \<Rightarrow> isminetype" where
  "watch_spec E s =
     (if \<not> HaveWatchOnly E s then ISMINE_NO
      else if fst (Solver E s) \<and> DummySignature E s then ISMINE_WATCH_SOLVABLE
      else ISMINE_WATCH_UNSOLVABLE)"

definition small_multisig :: "('script, 'id) mine_env \<Rightarrow> bool" where
  "small_multisig E \<longleftrightarrow> (\<forall>s. length (snd (snd (Solver E s))) < 2 ^ 32)"

section \<open>Correctness\<close>

lemma watch_spec_unsolved:
  "\<not> fst (Solver E s) \<Longrightarrow>
     (if HaveWatchOnly E s then ISMINE_WATCH_UNSOLVABLE else ISMINE_NO) = watch_spec E s"
  by (simp add: watch_spec_def)

lemma watch_spec_solved: "fst (Solver E s) \<Longrightarrow> watch_result E s = watch_spec E s"
  by (simp add: watch_spec_def watch_result_def)

lemma spendable_iff:
  assumes "Solver E s = (True, ty, vs)" "small_multisig E"
  shows "spendable E s \<longleftrightarrow> (case ty of
     TX_PUBKEY \<Rightarrow> \<exists>v ws. vs = v # ws \<and> HaveKey E (PubKeyID E v)
   | TX_PUBKEYHASH \<Rightarrow> \<exists>v ws i. vs = v # ws \<and> HashID E v = Inr i \<and> HaveKey E i
   | TX_SCRIPTHASH \<Rightarrow> \<exists>v ws i sub. vs = v # ws \<and> HashID E v = Inr i \<and> GetCScript E i = Some sub \<and> spendable E sub
   | TX_MULTISIG \<Rightarrow> \<exists>m ks n. vs = m # ks @ [n] \<and> (\<forall>k \<in> set ks. HaveKey E (PubKeyID E k))
   | _ \<Rightarrow> False)" (is "_ \<longleftrightarrow> ?R")
proof
  assume "spendable E s"
  then show ?R by (cases rule: spendable.cases) (use assms in auto)
next
  assume ?R
  then show "spendable E s"
    using assms(1) by (auto split: txnouttype.splits intro: spendable.intros)
qed

text \<open>
  What \<open>Solver\<close> promises about the solutions of a template: at least one for a key, a key
  hash or a script hash, with a hash the store can look up, and at least the two counts
  around the keys of a multisignature.
\<close>

definition solver_ok :: "('script, 'id) mine_env \<Rightarrow> bool" where
  "solver_ok E \<longleftrightarrow> small_multisig E \<and> (\<forall>s ty vs. Solver E s = (True, ty, vs) \<longrightarrow>
     (ty = TX_PUBKEY \<longrightarrow> vs \<noteq> []) \<and>
     (ty \<in> {TX_PUBKEYHASH, TX_SCRIPTHASH} \<longrightarrow> (\<exists>v ws i. vs = v # ws \<and> HashID E v = Inr i)) \<and>
     (ty = TX_MULTISIG \<longrightarrow> 2 \<le> length vs))"

lemma solver_okD:
  assumes "solver_ok E" "Solver E s = (True, ty, vs)"
  shows "ty = TX_PUBKEY \<Longrightarrow> \<exists>v ws. vs = v # ws"
    and "ty = TX_PUBKEYHASH \<Longrightarrow> \<exists>v ws i. vs = v # ws \<and> HashID E v = Inr i"
    and "ty = TX_SCRIPTHASH \<Longrightarrow> \<exists>v ws i. vs = v # ws \<and> HashID E v = Inr i"
    and "ty = TX_MULTISIG \<Longrightarrow> \<exists>m ks n. vs = m # ks @ [n]"
proof -
  show "ty = TX_PUBKEY \<Longrightarrow> \<exists>v ws. vs = v # ws"
    using assms unfolding solver_ok_def by (metis neq_Nil_conv)
  show "ty = TX_PUBKEYHASH \<Longrightarrow> \<exists>v ws i. vs = v # ws \<and> HashID E v = Inr i"
    "ty = TX_SCRIPTHASH \<Longrightarrow> \<exists>v ws i. vs = v # ws \<and> HashID E v = Inr i"
    using assms unfolding solver_ok_def by simp_all
  show "\<exists>m ks n. vs = m # ks @ [n]" if "ty = TX_MULTISIG"
  proof -
    have "2 \<le> length vs" using assms that unfolding solver_ok_def by blast
    then have "multisig_keys vs = Inr (butlast (tl vs))" by (simp add: multisig_keys_def)
    then show ?thesis by (simp only: multisig_keys_iff) blast
  qed
qed

definition mine_spec :: "('script, 'id) mine_env \<Rightarrow> 'script \<Rightarrow> isminetype" where
  "mine_spec E s = (if spendable E s then ISMINE_SPENDABLE else watch_spec E s)"

lemma IsMine_step:
  assumes ok: "solver_ok E" and sub: "\<And>sub. redeems E sub s \<Longrightarrow> IsMine E sub = Some (Inr (mine_spec E sub))"
  shows "IsMine E s = Some (Inr (mine_spec E s))"
proof (cases "fst (Solver E s)")
  case False
  then obtain ty vs where sol: "Solver E s = (False, ty, vs)" by (cases "Solver E s") auto
  then have "\<not> spendable E s" by (auto elim: spendable.cases)
  then show ?thesis using watch_spec_unsolved [OF False]
    by (subst IsMine.simps) (simp add: mine_spec_def sol)
next
  case True
  then obtain ty vs where sol: "Solver E s = (True, ty, vs)" by (cases "Solver E s") auto
  have small: "small_multisig E" using ok by (simp add: solver_ok_def)
  note sp = spendable_iff [OF sol small]
  note w = watch_spec_solved [OF True]
  show ?thesis
  proof (cases ty)
    case TX_SCRIPTHASH
    then obtain v ws i where v: "vs = v # ws" "HashID E v = Inr i" using solver_okD(3) [OF ok sol] by blast
    show ?thesis
    proof (cases "GetCScript E i")
      case None
      then show ?thesis using TX_SCRIPTHASH v sp
        by (subst IsMine.simps) (simp add: sol solution0_def mine_spec_def w)
    next
      case (Some c)
      then have "redeems E c s" using sol TX_SCRIPTHASH v by (auto simp: redeems_def)
      from sub [OF this] have c: "IsMine E c = Some (Inr (mine_spec E c))" .
      have "mine_spec E c = ISMINE_SPENDABLE \<longleftrightarrow> spendable E c" by (simp add: mine_spec_def watch_spec_def)
      then show ?thesis using TX_SCRIPTHASH v sp Some c
        by (subst IsMine.simps) (simp add: sol solution0_def mine_spec_def w)
    qed
  next
    case TX_MULTISIG
    then obtain m ks n where v: "vs = m # ks @ [n]" using solver_okD(4) [OF ok sol] by blast
    then have "length ks < 2 ^ 32" using small sol unfolding small_multisig_def
      by (metis (no_types) Suc_lessD length_Cons length_append_singleton snd_conv)
    moreover have "multisig_keys vs = Inr ks" by (simp only: multisig_keys_iff v) blast
    ultimately show ?thesis using TX_MULTISIG sp v
      by (subst IsMine.simps) (simp add: sol own_if_def HaveKeys_all mine_spec_def w)
  next
    case TX_PUBKEY
    then obtain v ws where "vs = v # ws" using solver_okD(1) [OF ok sol] by blast
    then show ?thesis using TX_PUBKEY sp
      by (subst IsMine.simps) (simp add: sol own_if_def solution0_def mine_spec_def w)
  next
    case TX_PUBKEYHASH
    then obtain v ws i where "vs = v # ws" "HashID E v = Inr i" using solver_okD(2) [OF ok sol] by blast
    then show ?thesis using TX_PUBKEYHASH sp
      by (subst IsMine.simps) (simp add: sol own_if_def solution0_def mine_spec_def w)
  qed (use sp in \<open>subst IsMine.simps, simp add: sol mine_spec_def w\<close>)+
qed

lemma IsMine_spec:
  assumes "solver_ok E" "wfp (redeems E)"
  shows "IsMine E s = Some (Inr (mine_spec E s))"
  using assms(2) by (induction s rule: wfp_induct_rule) (rule IsMine_step [OF assms(1)])

text \<open>
  C12: ownership is exact. If \<open>Solver\<close> keeps its promise and the known redeem scripts are not
  nested for ever, \<open>IsMine\<close> returns for every output, without error; the result is
  \<open>ISMINE_SPENDABLE\<close> exactly for what \<open>spendable\<close> describes (for a multisignature all keys
  are owned), and otherwise says whether the output is watched and could be signed for.
\<close>

theorem isMine_exact:
  assumes "solver_ok E" "wfp (redeems E)"
  shows "IsMine E s = Some (Inr (if spendable E s then ISMINE_SPENDABLE
     else if \<not> HaveWatchOnly E s then ISMINE_NO
     else if fst (Solver E s) \<and> DummySignature E s then ISMINE_WATCH_SOLVABLE
     else ISMINE_WATCH_UNSOLVABLE))"
  using IsMine_spec [OF assms, of s] unfolding mine_spec_def watch_spec_def .

text \<open>
  An example: script 0 pays to the hash of script 1, a two-key multisignature of which one
  key is owned; script 2 is a multisignature of owned keys.
\<close>

definition demo_mine :: "(nat, byte) mine_env" where
  "demo_mine = \<lparr>Solver = (\<lambda>s. if s = 0 then (True, TX_SCRIPTHASH, [[1]])
       else if s = 1 then (True, TX_MULTISIG, [[2], [7], [8], [2]])
       else if s = 2 then (True, TX_MULTISIG, [[1], [7], [7], [2]]) else (False, TX_NONSTANDARD, [])),
     PubKeyID = hd, HashID = (\<lambda>v. Inr (hd v)), HaveKey = (\<lambda>i. i = 7), HaveWatchOnly = (\<lambda>s. s = 0),
     GetCScript = (\<lambda>i. if i = 1 then Some 1 else None), DummySignature = (\<lambda>s. False)\<rparr>"

theorem isMine_exact_witness:
  "IsMine demo_mine 0 = Some (Inr ISMINE_WATCH_UNSOLVABLE) \<and> IsMine demo_mine 2 = Some (Inr ISMINE_SPENDABLE)"
proof -
  have ok: "solver_ok demo_mine"
    by (auto simp: solver_ok_def small_multisig_def demo_mine_def split: if_splits)
  have r: "redeems demo_mine x y \<longleftrightarrow> x = 1 \<and> y = 0" for x y
    by (auto simp: redeems_def demo_mine_def split: if_splits)
  have "wfp (redeems demo_mine)"
    by (rule wfp_if_convertible_to_nat [where f = "\<lambda>x. 1 - x"]) (simp add: r)
  note e = isMine_exact [OF ok this]
  have small: "small_multisig demo_mine" using ok by (simp add: solver_ok_def)
  have s1: "\<not> spendable demo_mine 1"
    by (subst spendable_iff [OF _ small, of _ TX_MULTISIG "[[2], [7], [8], [2]]"]) (auto simp: demo_mine_def Cons_eq_append_conv)
  have s0: "\<not> spendable demo_mine 0"
    using s1 by (subst spendable_iff [OF _ small, of _ TX_SCRIPTHASH "[[1]]"]) (auto simp: demo_mine_def)
  have s2: "spendable demo_mine 2"
    by (rule spendable.multisig [of _ _ "[1]" "[[7], [7]]" "[2]"]) (simp_all add: demo_mine_def)
  show ?thesis unfolding e using s0 s2 by (simp add: demo_mine_def)
qed

end
