(* ===== verification/Wallet.thy ===== *)
theory Wallet
  imports KeyStore WalletTx
begin

text \<open>
  The keys of a wallet: the operations of \<open>CWallet\<close> in \<open>Wallet/wallet-tx.cpp\<close> on top of the
  encrypted key store. \<open>CWallet\<close> overrides the virtual \<open>AddCryptedKey\<close>, so that the key
  store's \<open>AddKeyPubKey\<close> is composed here with the override. The wallet file, the watch-only
  scripts, key metadata and the version bookkeeping are declared outside the repository: they
  are the fields of \<open>wallet_env\<close>, and \<open>wallet_env_ok\<close> states what the code relies on.
\<close>

section \<open>State and environment\<close>

datatype WalletFeature = FEATURE_BASE | FEATURE_WALLETCRYPT | FEATURE_COMPRPUBKEY | FEATURE_LATEST

fun feature_version :: "WalletFeature \<Rightarrow> int" where
  "feature_version FEATURE_BASE = 10500"
| "feature_version FEATURE_WALLETCRYPT = 40000"
| "feature_version FEATURE_COMPRPUBKEY = 60000"
| "feature_version FEATURE_LATEST = 61000"

text \<open>
  The members the operations use. \<open>pwalletdbEncryption\<close> tells whether the pointer is set;
  \<open>disk\<close> is the state of the wallet file.
\<close>

record ('id, 'key, 'pub, 'rest, 'meta, 'tx, 'db) CWallet =
  keys :: "('id, 'key, 'pub, 'rest) CCryptoKeyStore"
  fFileBacked :: bool
  pwalletdbEncryption :: bool
  nWalletVersion :: int
  nWalletMaxVersion :: int
  mapKeyMetadata :: "('id, 'meta) stdmap"
  nTimeFirstKey :: i64
  mapWallet :: "(uint256, 'tx CWalletTx) stdmap"
  disk :: 'db

record ('id, 'key, 'pub, 'rest, 'meta, 'tx, 'db, 'script) wallet_env =
  key_ops :: "('id, 'key, 'pub, 'rest) key_env"
  CKeyMetadata_at :: "i64 \<Rightarrow> 'meta"
  CKeyMetadata0 :: 'meta
  nCreateTime :: "'meta \<Rightarrow> i64"
  script_for_id :: "'id \<Rightarrow> 'script"
  script_for_key :: "'pub \<Rightarrow> 'script"
  HasWatchOnly :: "('id, 'key, 'pub, 'rest) CCryptoKeyStore \<Rightarrow> 'script \<Rightarrow> bool"
  RemoveWatchOnly :: "('id, 'key, 'pub, 'rest, 'meta, 'tx, 'db) CWallet \<Rightarrow> 'script \<Rightarrow> ('id, 'key, 'pub, 'rest, 'meta, 'tx, 'db) CWallet"
  CanSupportFeature :: "('id, 'key, 'pub, 'rest, 'meta, 'tx, 'db) CWallet \<Rightarrow> int \<Rightarrow> bool"
  SetMinVersion :: "('id, 'key, 'pub, 'rest, 'meta, 'tx, 'db) CWallet \<Rightarrow> int \<Rightarrow> ('id, 'key, 'pub, 'rest, 'meta, 'tx, 'db) CWallet"
  priv_key :: "'key \<Rightarrow> byte list"
  WriteKey :: "'db \<Rightarrow> 'pub \<Rightarrow> byte list \<Rightarrow> 'meta \<Rightarrow> bool \<times> 'db"
  WriteCryptedKey :: "'db \<Rightarrow> 'pub \<Rightarrow> byte list \<Rightarrow> 'meta \<Rightarrow> bool \<times> 'db"
  enc_WriteCryptedKey :: "'db \<Rightarrow> 'pub \<Rightarrow> byte list \<Rightarrow> 'meta \<Rightarrow> bool \<times> 'db"

type_synonym ('id, 'key, 'pub, 'rest, 'meta, 'tx, 'db) wallet_result =
  "(bool \<times> ('id, 'key, 'pub, 'rest, 'meta, 'tx, 'db) CWallet) res"

section \<open>Operations\<close>

definition GetWalletTx :: "('id, 'key, 'pub, 'rest, 'meta, 'tx, 'db) CWallet \<Rightarrow> uint256 \<Rightarrow> 'tx CWalletTx option" where
  "GetWalletTx w h = smap_find (mapWallet w) h"

text \<open>\<open>mapKeyMetadata[id]\<close> inserts a default entry when there is none.\<close>

definition metadata_at ::
    "('id::linorder, 'key, 'pub, 'rest, 'meta, 'tx, 'db, 'script) wallet_env \<Rightarrow>
     ('id, 'key, 'pub, 'rest, 'meta, 'tx, 'db) CWallet \<Rightarrow> 'id \<Rightarrow>
     'meta \<times> ('id, 'key, 'pub, 'rest, 'meta, 'tx, 'db) CWallet" where
  "metadata_at W w i = (case smap_find (mapKeyMetadata w) i of
     Some m \<Rightarrow> (m, w)
   | None \<Rightarrow> (CKeyMetadata0 W, w\<lparr>mapKeyMetadata := smap_put (mapKeyMetadata w) i (CKeyMetadata0 W)\<rparr>))"

definition wallet_AddCryptedKey ::
    "('id::linorder, 'key, 'pub, 'rest, 'meta, 'tx, 'db, 'script) wallet_env \<Rightarrow>
     ('id, 'key, 'pub, 'rest, 'meta, 'tx, 'db) CWallet \<Rightarrow> 'pub \<Rightarrow> byte list \<Rightarrow>
     bool \<times> ('id, 'key, 'pub, 'rest, 'meta, 'tx, 'db) CWallet" where
  "wallet_AddCryptedKey W w vchPubKey vchCryptedSecret =
     (let (ok, s) = AddCryptedKey (key_ops W) (keys w) vchPubKey vchCryptedSecret; w = w\<lparr>keys := s\<rparr> in
      if \<not> ok then (False, w)
      else if \<not> fFileBacked w then (True, w)
      else
        let (m, w) = metadata_at W w (pk_id (key_ops W) vchPubKey);
            (ok, d) = (if pwalletdbEncryption w then enc_WriteCryptedKey W else WriteCryptedKey W)
                        (disk w) vchPubKey vchCryptedSecret m
        in (ok, w\<lparr>disk := d\<rparr>))"

text \<open>\<open>CCryptoKeyStore::AddKeyPubKey\<close>, whose call of \<open>AddCryptedKey\<close> reaches the override.\<close>

definition crypto_AddKeyPubKey ::
    "('id::linorder, 'key, 'pub, 'rest, 'meta, 'tx, 'db, 'script) wallet_env \<Rightarrow>
     ('id, 'key, 'pub, 'rest, 'meta, 'tx, 'db) CWallet \<Rightarrow> 'key \<Rightarrow> 'pub \<Rightarrow>
     ('id, 'key, 'pub, 'rest, 'meta, 'tx, 'db) wallet_result" where
  "crypto_AddKeyPubKey W w key pubkey =
     (let K = key_ops W in
      if \<not> IsCrypted K (keys w) then
        (let (ok, s) = basic_AddKeyPubKey K (keys w) key pubkey in Inr (ok, w\<lparr>keys := s\<rparr>))
      else if IsLocked K (keys w) True then Inr (False, w)
      else rbind (EncryptSecret (openssl K) (crypter0 K) (vMasterKey (keys w)) (key_bytes K key) (pk_hash K pubkey) [])
        (\<lambda>(ok, vchCryptedSecret).
          if \<not> ok then Inr (False, w)
          else let (ok, w) = wallet_AddCryptedKey W w pubkey vchCryptedSecret
               in if \<not> ok then Inr (False, w) else Inr (True, w)))"

definition remove_watched ::
    "('id, 'key, 'pub, 'rest, 'meta, 'tx, 'db, 'script) wallet_env \<Rightarrow>
     ('id, 'key, 'pub, 'rest, 'meta, 'tx, 'db) CWallet \<Rightarrow> 'script \<Rightarrow> ('id, 'key, 'pub, 'rest, 'meta, 'tx, 'db) CWallet" where
  "remove_watched W w script = (if HasWatchOnly W (keys w) script then RemoveWatchOnly W w script else w)"

definition wallet_AddKeyPubKey ::
    "('id::linorder, 'key, 'pub, 'rest, 'meta, 'tx, 'db, 'script) wallet_env \<Rightarrow>
     ('id, 'key, 'pub, 'rest, 'meta, 'tx, 'db) CWallet \<Rightarrow> 'key \<Rightarrow> 'pub \<Rightarrow>
     ('id, 'key, 'pub, 'rest, 'meta, 'tx, 'db) wallet_result" where
  "wallet_AddKeyPubKey W w secret pubkey =
     rbind (crypto_AddKeyPubKey W w secret pubkey) (\<lambda>(ok, w).
       if \<not> ok then Inr (False, w)
       else
         let w = remove_watched W w (script_for_id W (pk_id (key_ops W) pubkey));
             w = remove_watched W w (script_for_key W pubkey)
         in if \<not> fFileBacked w then Inr (True, w)
            else if \<not> IsCrypted (key_ops W) (keys w) then
              (let (m, w) = metadata_at W w (pk_id (key_ops W) pubkey);
                   (ok, d) = WriteKey W (disk w) pubkey (priv_key W secret) m
               in Inr (ok, w\<lparr>disk := d\<rparr>))
            else Inr (True, w))"

text \<open>
  \<open>newkey\<close> makes the random key and \<open>now\<close> is the clock. A thrown exception leaves the wallet
  as it is then, so that it is a value beside the wallet.
\<close>

definition GenerateNewKey ::
    "('id::linorder, 'key, 'pub, 'rest, 'meta, 'tx, 'db, 'script) wallet_env \<Rightarrow> (bool \<Rightarrow> 'key) \<Rightarrow> i64 \<Rightarrow>
     ('id, 'key, 'pub, 'rest, 'meta, 'tx, 'db) CWallet \<Rightarrow>
     ((string + 'pub) \<times> ('id, 'key, 'pub, 'rest, 'meta, 'tx, 'db) CWallet) res" where
  "GenerateNewKey W newkey now w =
     (let fCompressed = CanSupportFeature W w (feature_version FEATURE_COMPRPUBKEY);
          secret = newkey fCompressed;
          w = (if fCompressed then SetMinVersion W w (feature_version FEATURE_COMPRPUBKEY) else w);
          pubkey = key_pub (key_ops W) secret
      in cxx_assert (key_verify (key_ops W) secret pubkey)
        (let w = w\<lparr>mapKeyMetadata := smap_put (mapKeyMetadata w) (pk_id (key_ops W) pubkey) (CKeyMetadata_at W now)\<rparr>;
             w = (if nTimeFirstKey w = 0 \<or> now <s nTimeFirstKey w then w\<lparr>nTimeFirstKey := now\<rparr> else w)
         in rbind (wallet_AddKeyPubKey W w secret pubkey) (\<lambda>(ok, w).
              if \<not> ok then Inr (Inl ''CWallet::GenerateNewKey(): AddKey failed'', w)
              else Inr (Inr pubkey, w))))"

definition LoadKeyMetadata ::
    "('id::linorder, 'key, 'pub, 'rest, 'meta, 'tx, 'db, 'script) wallet_env \<Rightarrow>
     ('id, 'key, 'pub, 'rest, 'meta, 'tx, 'db) CWallet \<Rightarrow> 'pub \<Rightarrow> 'meta \<Rightarrow>
     bool \<times> ('id, 'key, 'pub, 'rest, 'meta, 'tx, 'db) CWallet" where
  "LoadKeyMetadata W w pubkey meta =
     (let w = (if nCreateTime W meta \<noteq> 0 \<and> (nTimeFirstKey w = 0 \<or> nCreateTime W meta <s nTimeFirstKey w)
               then w\<lparr>nTimeFirstKey := nCreateTime W meta\<rparr> else w)
      in (True, w\<lparr>mapKeyMetadata := smap_put (mapKeyMetadata w) (pk_id (key_ops W) pubkey) meta\<rparr>))"

section \<open>What the environment promises\<close>

text \<open>
  Removing a watch-only script touches only the basic store and the file, and the script is
  watched no more; raising the version touches only the versions and the file.
\<close>

definition wallet_env_ok ::
    "('id::linorder, 'key, 'pub, 'rest, 'meta, 'tx, 'db, 'script) wallet_env \<Rightarrow> bool" where
  "wallet_env_ok W \<longleftrightarrow> env_ok (key_ops W) \<and>
     (\<forall>t. nCreateTime W (CKeyMetadata_at W t) = t) \<and> nCreateTime W (CKeyMetadata0 W) = 0 \<and>
     (\<forall>w s. \<exists>r d. RemoveWatchOnly W w s = w\<lparr>keys := (keys w)\<lparr>basic_rest := r\<rparr>, disk := d\<rparr>) \<and>
     (\<forall>w s. \<not> HasWatchOnly W (keys (RemoveWatchOnly W w s)) s) \<and>
     (\<forall>w s t. HasWatchOnly W (keys (RemoveWatchOnly W w s)) t \<longrightarrow> HasWatchOnly W (keys w) t) \<and>
     (\<forall>w v. \<exists>a b d. SetMinVersion W w v = w\<lparr>nWalletVersion := a, nWalletMaxVersion := b, disk := d\<rparr>)"

lemma wallet_env_okD:
  assumes "wallet_env_ok W"
  shows "env_ok (key_ops W)" "nCreateTime W (CKeyMetadata_at W t) = t" "nCreateTime W (CKeyMetadata0 W) = 0"
    "\<exists>r d. RemoveWatchOnly W w s = w\<lparr>keys := (keys w)\<lparr>basic_rest := r\<rparr>, disk := d\<rparr>"
    "\<not> HasWatchOnly W (keys (RemoveWatchOnly W w s)) s"
    "HasWatchOnly W (keys (RemoveWatchOnly W w s)) t' \<Longrightarrow> HasWatchOnly W (keys w) t'"
    "\<exists>a b d. SetMinVersion W w v = w\<lparr>nWalletVersion := a, nWalletMaxVersion := b, disk := d\<rparr>"
    "IsCrypted (key_ops W) st = fUseCrypto st"
    "basic_AddKeyPubKey (key_ops W) st k p = (True, st\<lparr>mapKeys := smap_put (mapKeys st) (pk_id (key_ops W) p) k\<rparr>)"
  using assms unfolding wallet_env_ok_def env_ok_def by blast+

section \<open>What every operation keeps\<close>

text \<open>
  Encryption stays on, the time of the first key stays, and metadata entries are kept or have
  no creation time.
\<close>

definition keeps ::
    "('id::linorder, 'key, 'pub, 'rest, 'meta, 'tx, 'db, 'script) wallet_env \<Rightarrow>
     ('id, 'key, 'pub, 'rest, 'meta, 'tx, 'db) CWallet \<Rightarrow> ('id, 'key, 'pub, 'rest, 'meta, 'tx, 'db) CWallet \<Rightarrow> bool" where
  "keeps W w w' \<longleftrightarrow> nTimeFirstKey w' = nTimeFirstKey w \<and>
     (fUseCrypto (keys w) \<longrightarrow> fUseCrypto (keys w')) \<and>
     (\<forall>i m. smap_find (mapKeyMetadata w') i = Some m \<longrightarrow>
        smap_find (mapKeyMetadata w) i = Some m \<or> nCreateTime W m = 0)"

lemma keeps_refl [simp]: "keeps W w w"
  by (simp add: keeps_def)

lemma keeps_trans: "keeps W a b \<Longrightarrow> keeps W b c \<Longrightarrow> keeps W a c"
  unfolding keeps_def by auto

lemma keeps_disk [simp]: "keeps W w (w'\<lparr>disk := d\<rparr>) = keeps W w w'"
  by (simp add: keeps_def)

lemma keeps_keys: "(fUseCrypto (keys w) \<longrightarrow> fUseCrypto s) \<Longrightarrow> keeps W w (w\<lparr>keys := s\<rparr>)"
  by (simp add: keeps_def)

lemma metadata_at_keeps:
  "wallet_env_ok W \<Longrightarrow> metadata_at W w i = (m, w') \<Longrightarrow> keeps W w w' \<and> keys w' = keys w \<and> disk w' = disk w"
  by (auto simp: metadata_at_def keeps_def wallet_env_okD split: option.splits if_splits)

lemma AddCryptedKey_mono: "AddCryptedKey E s p c = (ok, s') \<Longrightarrow> fUseCrypto s \<Longrightarrow> fUseCrypto s'"
  by (auto simp: AddCryptedKey_def SetCrypted_def split: if_splits)

lemma wallet_AddCryptedKey_keeps:
  assumes "wallet_env_ok W" "wallet_AddCryptedKey W w p c = (ok, w')"
  shows "keeps W w w'"
proof -
  obtain ok1 s where a: "AddCryptedKey (key_ops W) (keys w) p c = (ok1, s)" by fastforce
  have k: "keeps W w (w\<lparr>keys := s\<rparr>)" using AddCryptedKey_mono [OF a] by (intro keeps_keys) simp
  obtain m w1 where m: "metadata_at W (w\<lparr>keys := s\<rparr>) (pk_id (key_ops W) p) = (m, w1)" by fastforce
  have "keeps W w w1" using k metadata_at_keeps [OF assms(1) m] keeps_trans by blast
  then show ?thesis using assms(2) k a m
    by (auto simp: wallet_AddCryptedKey_def Let_def split: if_splits prod.splits)
qed

lemma crypto_AddKeyPubKey_keeps:
  assumes ok: "wallet_env_ok W" and a: "crypto_AddKeyPubKey W w k p = Inr (b, w')"
  shows "keeps W w w'"
proof (cases "fUseCrypto (keys w)")
  case False
  then show ?thesis using a
    by (auto simp: crypto_AddKeyPubKey_def wallet_env_okD [OF ok] Let_def intro: keeps_keys)
next
  case True
  then show ?thesis using a wallet_AddCryptedKey_keeps [OF ok]
    by (auto simp: crypto_AddKeyPubKey_def wallet_env_okD(8) [OF ok] Let_def rbind_Inr_iff
        split: if_splits prod.splits)
qed

lemma remove_watched_frame:
  assumes "wallet_env_ok W"
  obtains r d where "remove_watched W w s = w\<lparr>keys := (keys w)\<lparr>basic_rest := r\<rparr>, disk := d\<rparr>"
proof (cases "HasWatchOnly W (keys w) s")
  case True
  then show ?thesis using that wallet_env_okD(4) [OF assms, of w s] by (auto simp: remove_watched_def)
next
  case False
  then show ?thesis using that [where r = "basic_rest (keys w)" and d = "disk w"] by (simp add: remove_watched_def)
qed

lemma remove_watched_keeps: "wallet_env_ok W \<Longrightarrow> keeps W w (remove_watched W w s)"
  by (rule remove_watched_frame [of W w s]) (auto intro: keeps_keys)

lemma remove_watched_gone:
  assumes "wallet_env_ok W"
  shows "\<not> HasWatchOnly W (keys (remove_watched W w s)) s"
    "\<not> HasWatchOnly W (keys w) t \<Longrightarrow> \<not> HasWatchOnly W (keys (remove_watched W w s)) t"
  using wallet_env_okD(5,6) [OF assms] by (auto simp: remove_watched_def)

text \<open>The part of \<open>AddKeyPubKey\<close> after the key store has the key.\<close>

definition after_add ::
    "('id::linorder, 'key, 'pub, 'rest, 'meta, 'tx, 'db, 'script) wallet_env \<Rightarrow>
     ('id, 'key, 'pub, 'rest, 'meta, 'tx, 'db) CWallet \<Rightarrow> 'pub \<Rightarrow> ('id, 'key, 'pub, 'rest, 'meta, 'tx, 'db) CWallet" where
  "after_add W w pubkey =
     remove_watched W (remove_watched W w (script_for_id W (pk_id (key_ops W) pubkey))) (script_for_key W pubkey)"

lemma after_add_keeps: "wallet_env_ok W \<Longrightarrow> keeps W w (after_add W w p)"
  unfolding after_add_def by (meson keeps_trans remove_watched_keeps)

lemma wallet_AddKeyPubKey_alt:
  "wallet_AddKeyPubKey W w k p = rbind (crypto_AddKeyPubKey W w k p) (\<lambda>(ok, w).
     if \<not> ok then Inr (False, w)
     else if \<not> fFileBacked (after_add W w p) \<or> IsCrypted (key_ops W) (keys (after_add W w p)) then Inr (True, after_add W w p)
     else (let (m, w) = metadata_at W (after_add W w p) (pk_id (key_ops W) p);
               (ok, d) = WriteKey W (disk w) p (priv_key W k) m in Inr (ok, w\<lparr>disk := d\<rparr>)))"
  unfolding wallet_AddKeyPubKey_def after_add_def
  by (rule arg_cong [of _ _ "rbind (crypto_AddKeyPubKey W w k p)"]) (auto simp: fun_eq_iff Let_def)

lemma wallet_AddKeyPubKey_keeps:
  assumes ok: "wallet_env_ok W" and a: "wallet_AddKeyPubKey W w k p = Inr (b, w')"
  shows "keeps W w w'"
proof -
  obtain b1 w1 where c: "crypto_AddKeyPubKey W w k p = Inr (b1, w1)"
    using a by (cases "crypto_AddKeyPubKey W w k p") (auto simp: wallet_AddKeyPubKey_alt)
  note k1 = crypto_AddKeyPubKey_keeps [OF ok c]
  have k2: "keeps W w (after_add W w1 p)" using k1 after_add_keeps [OF ok] keeps_trans by blast
  obtain m w2 where m: "metadata_at W (after_add W w1 p) (pk_id (key_ops W) p) = (m, w2)" by fastforce
  have "keeps W w w2" using k2 metadata_at_keeps [OF ok m] keeps_trans by blast
  then show ?thesis using a k1 k2
    by (auto simp: wallet_AddKeyPubKey_alt c m Let_def split: if_splits prod.splits)
qed

lemma after_add_frame:
  assumes "wallet_env_ok W"
  obtains r d where "after_add W w p = w\<lparr>keys := (keys w)\<lparr>basic_rest := r\<rparr>, disk := d\<rparr>"
proof -
  let ?v = "remove_watched W w (script_for_id W (pk_id (key_ops W) p))"
  obtain r d where v: "?v = w\<lparr>keys := (keys w)\<lparr>basic_rest := r\<rparr>, disk := d\<rparr>"
    by (rule remove_watched_frame [OF assms])
  obtain r' d' where "after_add W w p = ?v\<lparr>keys := (keys ?v)\<lparr>basic_rest := r'\<rparr>, disk := d'\<rparr>"
    unfolding after_add_def by (rule remove_watched_frame [OF assms])
  then have "after_add W w p = w\<lparr>keys := (keys w)\<lparr>basic_rest := r'\<rparr>, disk := d'\<rparr>" by (simp add: v)
  then show ?thesis by (rule that)
qed

lemma after_add_unwatched:
  assumes "wallet_env_ok W"
  shows "\<not> HasWatchOnly W (keys (after_add W w p)) (script_for_id W (pk_id (key_ops W) p))"
    "\<not> HasWatchOnly W (keys (after_add W w p)) (script_for_key W p)"
  unfolding after_add_def using remove_watched_gone [OF assms] by blast+

lemma wallet_AddKeyPubKey_plain:
  assumes ok: "wallet_env_ok W" and plain: "\<not> fUseCrypto (keys w)" "fFileBacked w"
    and m: "smap_find (mapKeyMetadata w) (pk_id (key_ops W) p) = Some m"
  obtains d w1 where
    "wallet_AddKeyPubKey W w k p = Inr (fst (WriteKey W d p (priv_key W k) m), w1\<lparr>disk := snd (WriteKey W d p (priv_key W k) m)\<rparr>)"
    "smap_find (mapKeys (keys w1)) (pk_id (key_ops W) p) = Some k" "mapKeyMetadata w1 = mapKeyMetadata w"
    "\<not> HasWatchOnly W (keys w1) (script_for_id W (pk_id (key_ops W) p))"
    "\<not> HasWatchOnly W (keys w1) (script_for_key W p)"
proof -
  let ?w = "w\<lparr>keys := (keys w)\<lparr>mapKeys := smap_put (mapKeys (keys w)) (pk_id (key_ops W) p) k\<rparr>\<rparr>"
  have c: "crypto_AddKeyPubKey W w k p = Inr (True, ?w)"
    using plain by (simp add: crypto_AddKeyPubKey_def wallet_env_okD(8,9) [OF ok])
  obtain r d where a: "after_add W ?w p = ?w\<lparr>keys := (keys ?w)\<lparr>basic_rest := r\<rparr>, disk := d\<rparr>"
    by (rule after_add_frame [OF ok])
  let ?v = "after_add W ?w p"
  have v: "fFileBacked ?v" "\<not> IsCrypted (key_ops W) (keys ?v)" "mapKeyMetadata ?v = mapKeyMetadata w"
    "mapKeys (keys ?v) = mapKeys (keys ?w)"
    unfolding a using plain by (simp_all add: wallet_env_okD(8) [OF ok])
  have at: "metadata_at W ?v (pk_id (key_ops W) p) = (m, ?v)" using m v(3) by (simp add: metadata_at_def)
  show ?thesis
  proof (rule that [of "disk ?v" ?v])
    show "wallet_AddKeyPubKey W w k p = Inr (fst (WriteKey W (disk ?v) p (priv_key W k) m),
        ?v\<lparr>disk := snd (WriteKey W (disk ?v) p (priv_key W k) m)\<rparr>)"
      unfolding wallet_AddKeyPubKey_alt c rbind.simps by (simp add: v(1,2) at case_prod_unfold Let_def)
  qed (use after_add_unwatched [OF ok] v(3,4) in simp_all)
qed

section \<open>Histories of a wallet\<close>

inductive wallet_step ::
    "('id::linorder, 'key, 'pub, 'rest, 'meta, 'tx, 'db, 'script) wallet_env \<Rightarrow>
     ('id, 'key, 'pub, 'rest, 'meta, 'tx, 'db) CWallet \<Rightarrow> ('id, 'key, 'pub, 'rest, 'meta, 'tx, 'db) CWallet \<Rightarrow> bool" for W where
  generate: "now \<noteq> 0 \<Longrightarrow> GenerateNewKey W newkey now w = Inr (r, w') \<Longrightarrow> wallet_step W w w'"
| add: "wallet_AddKeyPubKey W w k p = Inr (b, w') \<Longrightarrow> wallet_step W w w'"
| add_crypted: "wallet_AddCryptedKey W w p c = (b, w') \<Longrightarrow> wallet_step W w w'"
| load: "LoadKeyMetadata W w p meta = (b, w') \<Longrightarrow> wallet_step W w w'"

inductive wallet_reaches ::
    "('id::linorder, 'key, 'pub, 'rest, 'meta, 'tx, 'db, 'script) wallet_env \<Rightarrow>
     ('id, 'key, 'pub, 'rest, 'meta, 'tx, 'db) CWallet \<Rightarrow> ('id, 'key, 'pub, 'rest, 'meta, 'tx, 'db) CWallet \<Rightarrow> bool" for W w0 where
  start: "wallet_reaches W w0 w0"
| step: "wallet_reaches W w0 w \<Longrightarrow> wallet_step W w w' \<Longrightarrow> wallet_reaches W w0 w'"

definition birthday_ok ::
    "('id::linorder, 'key, 'pub, 'rest, 'meta, 'tx, 'db, 'script) wallet_env \<Rightarrow>
     ('id, 'key, 'pub, 'rest, 'meta, 'tx, 'db) CWallet \<Rightarrow> bool" where
  "birthday_ok W w \<longleftrightarrow> (\<forall>i m. smap_find (mapKeyMetadata w) i = Some m \<longrightarrow> nCreateTime W m \<noteq> 0 \<longrightarrow>
     nTimeFirstKey w \<noteq> 0 \<and> sint (nTimeFirstKey w) \<le> sint (nCreateTime W m))"

lemma birthday_keeps: "keeps W w w' \<Longrightarrow> birthday_ok W w \<Longrightarrow> birthday_ok W w'"
  unfolding keeps_def birthday_ok_def by metis

text \<open>The update that \<open>GenerateNewKey\<close> and \<open>LoadKeyMetadata\<close> share.\<close>

definition record_birth ::
    "i64 \<Rightarrow> 'id \<Rightarrow> 'meta \<Rightarrow> ('id::linorder, 'key, 'pub, 'rest, 'meta, 'tx, 'db) CWallet \<Rightarrow>
     ('id, 'key, 'pub, 'rest, 'meta, 'tx, 'db) CWallet" where
  "record_birth t i m w = w\<lparr>mapKeyMetadata := smap_put (mapKeyMetadata w) i m,
     nTimeFirstKey := (if t \<noteq> 0 \<and> (nTimeFirstKey w = 0 \<or> t <s nTimeFirstKey w) then t else nTimeFirstKey w)\<rparr>"

lemma birthday_record:
  assumes "nCreateTime W m = t" "birthday_ok W w"
  shows "birthday_ok W (record_birth t i m w)"
  unfolding birthday_ok_def
proof (intro allI impI)
  fix j n
  let ?w = "record_birth t i m w"
  assume f: "smap_find (mapKeyMetadata ?w) j = Some n" and n: "nCreateTime W n \<noteq> 0"
  have le: "nTimeFirstKey w \<noteq> 0 \<Longrightarrow> nTimeFirstKey ?w \<noteq> 0 \<and> sint (nTimeFirstKey ?w) \<le> sint (nTimeFirstKey w)"
    by (auto simp: record_birth_def word_sless_alt)
  show "nTimeFirstKey ?w \<noteq> 0 \<and> sint (nTimeFirstKey ?w) \<le> sint (nCreateTime W n)"
  proof (cases "j = i")
    case True
    then have "nCreateTime W n = t" using f assms(1) by (simp add: record_birth_def)
    then show ?thesis using n by (auto simp: record_birth_def word_sless_alt)
  next
    case False
    then have "smap_find (mapKeyMetadata w) j = Some n" using f by (simp add: record_birth_def)
    then have "nTimeFirstKey w \<noteq> 0 \<and> sint (nTimeFirstKey w) \<le> sint (nCreateTime W n)"
      using assms(2) n unfolding birthday_ok_def by blast
    then show ?thesis using le by fastforce
  qed
qed

definition version_raised ::
    "('id, 'key, 'pub, 'rest, 'meta, 'tx, 'db, 'script) wallet_env \<Rightarrow>
     ('id, 'key, 'pub, 'rest, 'meta, 'tx, 'db) CWallet \<Rightarrow> ('id, 'key, 'pub, 'rest, 'meta, 'tx, 'db) CWallet" where
  "version_raised W w =
     (if CanSupportFeature W w (feature_version FEATURE_COMPRPUBKEY)
      then SetMinVersion W w (feature_version FEATURE_COMPRPUBKEY) else w)"

lemma version_raised_frame:
  assumes "wallet_env_ok W"
  obtains a b d where "version_raised W w = w\<lparr>nWalletVersion := a, nWalletMaxVersion := b, disk := d\<rparr>"
proof (cases "CanSupportFeature W w (feature_version FEATURE_COMPRPUBKEY)")
  case True
  obtain a b d where "SetMinVersion W w (feature_version FEATURE_COMPRPUBKEY) =
      w\<lparr>nWalletVersion := a, nWalletMaxVersion := b, disk := d\<rparr>"
    using wallet_env_okD(7) [OF assms] by blast
  then show ?thesis using that True by (simp add: version_raised_def)
next
  case False
  then show ?thesis
    using that [where a = "nWalletVersion w" and b = "nWalletMaxVersion w" and d = "disk w"]
    by (simp add: version_raised_def)
qed

lemma version_raised_keeps: "wallet_env_ok W \<Longrightarrow> keeps W w (version_raised W w)"
  by (rule version_raised_frame [of W w]) (auto simp: keeps_def)

lemma record_birth_code:
  "now \<noteq> 0 \<Longrightarrow>
   (if nTimeFirstKey (w\<lparr>mapKeyMetadata := smap_put (mapKeyMetadata w) i m\<rparr>) = 0 \<or>
       now <s nTimeFirstKey (w\<lparr>mapKeyMetadata := smap_put (mapKeyMetadata w) i m\<rparr>)
    then w\<lparr>mapKeyMetadata := smap_put (mapKeyMetadata w) i m\<rparr>\<lparr>nTimeFirstKey := now\<rparr>
    else w\<lparr>mapKeyMetadata := smap_put (mapKeyMetadata w) i m\<rparr>) = record_birth now i m w"
  by (simp add: record_birth_def)

lemma GenerateNewKey_alt:
  assumes "now \<noteq> 0"
  shows "GenerateNewKey W newkey now w =
    (let secret = newkey (CanSupportFeature W w (feature_version FEATURE_COMPRPUBKEY));
         pubkey = key_pub (key_ops W) secret
     in cxx_assert (key_verify (key_ops W) secret pubkey)
       (rbind (wallet_AddKeyPubKey W
            (record_birth now (pk_id (key_ops W) pubkey) (CKeyMetadata_at W now) (version_raised W w)) secret pubkey)
         (\<lambda>(ok, w). if \<not> ok then Inr (Inl ''CWallet::GenerateNewKey(): AddKey failed'', w) else Inr (Inr pubkey, w))))"
  unfolding GenerateNewKey_def version_raised_def Let_def record_birth_code [OF assms] by (rule refl)

lemma wallet_step_birthday:
  assumes ok: "wallet_env_ok W" and step: "wallet_step W w w'" and b: "birthday_ok W w"
  shows "birthday_ok W w'"
  using step
proof (cases rule: wallet_step.cases)
  case (generate now newkey r)
  let ?p = "key_pub (key_ops W) (newkey (CanSupportFeature W w (feature_version FEATURE_COMPRPUBKEY)))"
  let ?w = "record_birth now (pk_id (key_ops W) ?p) (CKeyMetadata_at W now) (version_raised W w)"
  have "birthday_ok W ?w"
    by (intro birthday_record wallet_env_okD(2) [OF ok] birthday_keeps [OF version_raised_keeps [OF ok] b])
  moreover have "keeps W ?w w'"
    using generate wallet_AddKeyPubKey_keeps [OF ok]
    by (auto simp: GenerateNewKey_alt Let_def cxx_assert_Inr_iff rbind_Inr_iff split: if_splits)
  ultimately show ?thesis by (rule birthday_keeps [rotated])
next
  case (add k p b)
  then show ?thesis using birthday_keeps wallet_AddKeyPubKey_keeps [OF ok] b by blast
next
  case (add_crypted p c b)
  then show ?thesis using birthday_keeps wallet_AddCryptedKey_keeps [OF ok] b by blast
next
  case (load p meta b')
  then have "w' = record_birth (nCreateTime W meta) (pk_id (key_ops W) p) meta w"
    by (auto simp: LoadKeyMetadata_def record_birth_def Let_def)
  then show ?thesis using birthday_record [OF refl b] by simp
qed

section \<open>A key that was added is held\<close>

lemma wallet_AddCryptedKey_holds:
  assumes ok: "wallet_env_ok W" and crypto: "fUseCrypto (keys w)" and a: "wallet_AddCryptedKey W w p c = (b, w')"
  shows "holds_key (keys w') (pk_id (key_ops W) p)"
proof -
  let ?s = "(keys w)\<lparr>mapCryptedKeys := smap_put (mapCryptedKeys (keys w)) (pk_id (key_ops W) p) (p, c)\<rparr>"
  obtain m w1 where m: "metadata_at W (w\<lparr>keys := ?s\<rparr>) (pk_id (key_ops W) p) = (m, w1)" by fastforce
  then have "keys w1 = ?s" using metadata_at_keeps [OF ok m] by simp
  then have "keys w' = ?s"
    using a m by (auto simp: wallet_AddCryptedKey_def AddCryptedKey_crypto [OF crypto] Let_def split: if_splits prod.splits)
  then show ?thesis using crypto by (simp add: holds_key_def)
qed

lemma crypto_AddKeyPubKey_holds:
  assumes ok: "wallet_env_ok W" and a: "crypto_AddKeyPubKey W w k p = Inr (True, w')"
  shows "holds_key (keys w') (pk_id (key_ops W) p)"
proof (cases "fUseCrypto (keys w)")
  case False
  then have "w' = w\<lparr>keys := (keys w)\<lparr>mapKeys := smap_put (mapKeys (keys w)) (pk_id (key_ops W) p) k\<rparr>\<rparr>"
    using a by (simp add: crypto_AddKeyPubKey_def wallet_env_okD(8,9) [OF ok])
  then show ?thesis using False by (simp add: holds_key_def)
next
  case True
  then have "\<exists>c. wallet_AddCryptedKey W w p c = (True, w')"
    using a by (auto simp: crypto_AddKeyPubKey_def wallet_env_okD(8) [OF ok] Let_def rbind_Inr_iff
        split: if_splits prod.splits)
  then show ?thesis using wallet_AddCryptedKey_holds [OF ok True] by blast
qed

lemma holds_key_rest [simp]: "holds_key (s\<lparr>basic_rest := r\<rparr>) i = holds_key s i"
  by (simp add: holds_key_def)

lemma wallet_AddKeyPubKey_holds:
  assumes ok: "wallet_env_ok W" and a: "wallet_AddKeyPubKey W w k p = Inr (True, w')"
  shows "holds_key (keys w') (pk_id (key_ops W) p)"
proof -
  obtain w1 where c: "crypto_AddKeyPubKey W w k p = Inr (True, w1)"
    using a by (cases "crypto_AddKeyPubKey W w k p") (auto simp: wallet_AddKeyPubKey_alt split: if_splits)
  have h: "holds_key (keys (after_add W w1 p)) (pk_id (key_ops W) p)"
    by (rule after_add_frame [OF ok, of w1 p]) (simp add: crypto_AddKeyPubKey_holds [OF ok c])
  obtain m w2 where m: "metadata_at W (after_add W w1 p) (pk_id (key_ops W) p) = (m, w2)" by fastforce
  then have "keys w2 = keys (after_add W w1 p)" using metadata_at_keeps [OF ok] by blast
  then show ?thesis using a h by (auto simp: wallet_AddKeyPubKey_alt c m Let_def split: if_splits prod.splits)
qed

lemma GenerateNewKey_holds:
  assumes "wallet_env_ok W" "GenerateNewKey W newkey now w = Inr (Inr pubkey, w')"
  shows "holds_key (keys w') (pk_id (key_ops W) pubkey)"
  using assms wallet_AddKeyPubKey_holds [OF assms(1)]
  by (auto simp: GenerateNewKey_def Let_def cxx_assert_Inr_iff rbind_Inr_iff split: if_splits)

section \<open>Properties\<close>

text \<open>
  C19: the time of the first key. In every wallet reached from one without metadata by
  generating, adding and loading keys, with a clock that is not at 0, no key whose metadata
  record a creation time is older than \<open>nTimeFirstKey\<close>, so that a rescan from that time misses
  none of them. A creation time of 0 stands for an unknown one: a key that is added without
  metadata gets it, and such a key does not lower \<open>nTimeFirstKey\<close>.
\<close>

theorem wallet_birthday:
  assumes "wallet_env_ok W" "mapKeyMetadata w0 = []" "wallet_reaches W w0 w"
    and "smap_find (mapKeyMetadata w) i = Some m" "nCreateTime W m \<noteq> 0"
  shows "nTimeFirstKey w \<noteq> 0 \<and> sint (nTimeFirstKey w) \<le> sint (nCreateTime W m)"
proof -
  from assms(3) have "birthday_ok W w"
  proof (induction rule: wallet_reaches.induct)
    case start
    then show ?case by (simp add: birthday_ok_def assms(2))
  next
    case (step w w')
    then show ?case using wallet_step_birthday [OF assms(1)] by blast
  qed
  then show ?thesis using assms(4,5) by (simp add: birthday_ok_def)
qed

section \<open>A concrete wallet\<close>

text \<open>Scripts are numbers, metadata is the creation time, the file is the list of its records.\<close>

definition demo_keys :: "(nat, byte list, byte list, nat list) key_env" where
  "demo_keys = \<lparr>openssl = evp_xor, crypter0 = new_CCrypter, pk_hash = (\<lambda>p. replicate 32 0),
     pk_id = (\<lambda>p. unat (hd p)), pk_compressed = (\<lambda>p. True), key0 = [], key_set = (\<lambda>b c. b),
     key_bytes = (\<lambda>k. k), key_pub = (\<lambda>k. k), key_verify = (\<lambda>k p. k = p),
     basic_AddKeyPubKey = (\<lambda>s k p. (True, s\<lparr>mapKeys := smap_put (mapKeys s) (unat (hd p)) k\<rparr>)),
     basic_GetKey = (\<lambda>s a k. case smap_find (mapKeys s) a of Some k' \<Rightarrow> (True, k') | None \<Rightarrow> (False, k)),
     basic_GetPubKey = (\<lambda>s a p. case smap_find (mapKeys s) a of Some k' \<Rightarrow> (True, k') | None \<Rightarrow> (False, p)),
     IsCrypted = fUseCrypto, IsLocked = (\<lambda>s m. fUseCrypto s \<and> vMasterKey s = [])\<rparr>"

lemma demo_keys_ok: "env_ok demo_keys"
  using evp_xor_ok new_CCrypter_ok
  by (simp add: env_ok_def demo_keys_def) (simp add: evp_xor_def i32_max_def)

type_synonym demo_db = "(byte list \<times> byte list \<times> i64) list"

definition demo_wallet_env :: "(nat, byte list, byte list, nat list, i64, unit, demo_db, nat) wallet_env" where
  "demo_wallet_env = \<lparr>key_ops = demo_keys, CKeyMetadata_at = (\<lambda>t. t), CKeyMetadata0 = 0, nCreateTime = (\<lambda>m. m),
     script_for_id = (\<lambda>i. i), script_for_key = (\<lambda>p. 1000 + unat (hd p)),
     HasWatchOnly = (\<lambda>s x. x \<in> set (basic_rest s)),
     RemoveWatchOnly = (\<lambda>w x. w\<lparr>keys := (keys w)\<lparr>basic_rest := removeAll x (basic_rest (keys w))\<rparr>\<rparr>),
     CanSupportFeature = (\<lambda>w v. v \<le> nWalletMaxVersion w), SetMinVersion = (\<lambda>w v. w\<lparr>nWalletVersion := v\<rparr>),
     priv_key = (\<lambda>k. k), WriteKey = (\<lambda>d p k m. (True, d @ [(p, k, m)])),
     WriteCryptedKey = (\<lambda>d p c m. (True, d @ [(p, c, m)])), enc_WriteCryptedKey = (\<lambda>d p c m. (True, d @ [(p, c, m)]))\<rparr>"

definition demo_wallet :: "(nat, byte list, byte list, nat list, i64, unit, demo_db) CWallet" where
  "demo_wallet = \<lparr>keys = \<lparr>mapKeys = [], basic_rest = [7, 8, 1007], mapCryptedKeys = [], vMasterKey = [],
       fUseCrypto = False, fDecryptionThoroughlyChecked = False, fOnlyMixingAllowed = False, notified = 0\<rparr>,
     fFileBacked = True, pwalletdbEncryption = False, nWalletVersion = 10500, nWalletMaxVersion = 61000,
     mapKeyMetadata = [], nTimeFirstKey = 0, mapWallet = [], disk = []\<rparr>"

lemma demo_wallet_env_ok: "wallet_env_ok demo_wallet_env"
  unfolding wallet_env_ok_def
proof (intro conjI allI)
  fix w :: "(nat, byte list, byte list, nat list, i64, unit, demo_db) CWallet" and x v
  show "\<exists>r d. RemoveWatchOnly demo_wallet_env w x = w\<lparr>keys := (keys w)\<lparr>basic_rest := r\<rparr>, disk := d\<rparr>"
    by (rule exI [of _ "removeAll x (basic_rest (keys w))"], rule exI [of _ "disk w"])
      (simp add: demo_wallet_env_def)
  show "\<exists>a b d. SetMinVersion demo_wallet_env w v = w\<lparr>nWalletVersion := a, nWalletMaxVersion := b, disk := d\<rparr>"
    by (rule exI [of _ v], rule exI [of _ "nWalletMaxVersion w"], rule exI [of _ "disk w"])
      (simp add: demo_wallet_env_def)
qed (simp_all add: demo_wallet_env_def demo_keys_ok)

theorem wallet_birthday_witness:
  "wallet_reaches demo_wallet_env demo_wallet (snd (LoadKeyMetadata demo_wallet_env demo_wallet [7] 5)) \<and>
   sint (nTimeFirstKey (snd (LoadKeyMetadata demo_wallet_env demo_wallet [7] 5))) \<le> sint (5 :: i64)"
proof -
  let ?w = "snd (LoadKeyMetadata demo_wallet_env demo_wallet [7] 5)"
  have r: "wallet_reaches demo_wallet_env demo_wallet ?w"
    by (rule wallet_reaches.step [OF wallet_reaches.start], rule wallet_step.load) (rule surjective_pairing)
  have f: "smap_find (mapKeyMetadata ?w) 7 = Some 5"
    by (simp add: LoadKeyMetadata_def Let_def demo_wallet_def demo_wallet_env_def demo_keys_def)
  have t: "nCreateTime demo_wallet_env 5 = 5" by (simp add: demo_wallet_env_def)
  show ?thesis
    using r wallet_birthday [OF demo_wallet_env_ok _ r f] by (simp add: t demo_wallet_def)
qed

text \<open>
  What generating a key leaves behind. In a plain wallet with a file, \<open>GenerateNewKey\<close>
  either throws, when the file cannot be written, or returns the public key; in both cases
  the new key and its creation time are in the wallet, its scripts are watch-only no more,
  and the file was last written with the private key and the same metadata.
\<close>

theorem generated_key_recorded:
  assumes "wallet_env_ok W" "\<not> fUseCrypto (keys w)" "fFileBacked w" "now \<noteq> 0"
    and "GenerateNewKey W newkey now w = Inr (r, w')"
    and "k = newkey (CanSupportFeature W w (feature_version FEATURE_COMPRPUBKEY))" "p = key_pub (key_ops W) k"
  shows "smap_find (mapKeys (keys w')) (pk_id (key_ops W) p) = Some k \<and>
    smap_find (mapKeyMetadata w') (pk_id (key_ops W) p) = Some (CKeyMetadata_at W now) \<and>
    \<not> HasWatchOnly W (keys w') (script_for_id W (pk_id (key_ops W) p)) \<and>
    \<not> HasWatchOnly W (keys w') (script_for_key W p) \<and>
    (\<exists>d ok. WriteKey W d p (priv_key W k) (CKeyMetadata_at W now) = (ok, disk w') \<and>
       r = (if ok then Inr p else Inl ''CWallet::GenerateNewKey(): AddKey failed''))"
proof -
  let ?v = "record_birth now (pk_id (key_ops W) p) (CKeyMetadata_at W now) (version_raised W w)"
  have g: "rbind (wallet_AddKeyPubKey W ?v k p) (\<lambda>(ok, w).
      if \<not> ok then Inr (Inl ''CWallet::GenerateNewKey(): AddKey failed'', w) else Inr (Inr p, w)) = Inr (r, w')"
    using assms(5) unfolding GenerateNewKey_alt [OF assms(4)] Let_def assms(6,7) by (simp add: cxx_assert_Inr_iff)
  obtain a b d0 where "version_raised W w = w\<lparr>nWalletVersion := a, nWalletMaxVersion := b, disk := d0\<rparr>"
    by (rule version_raised_frame [OF assms(1)])
  then have v: "\<not> fUseCrypto (keys ?v)" "fFileBacked ?v"
    "smap_find (mapKeyMetadata ?v) (pk_id (key_ops W) p) = Some (CKeyMetadata_at W now)"
    using assms(2,3) by (simp_all add: record_birth_def)
  obtain d w1 where w1:
    "wallet_AddKeyPubKey W ?v k p = Inr (fst (WriteKey W d p (priv_key W k) (CKeyMetadata_at W now)),
       w1\<lparr>disk := snd (WriteKey W d p (priv_key W k) (CKeyMetadata_at W now))\<rparr>)"
    "smap_find (mapKeys (keys w1)) (pk_id (key_ops W) p) = Some k" "mapKeyMetadata w1 = mapKeyMetadata ?v"
    "\<not> HasWatchOnly W (keys w1) (script_for_id W (pk_id (key_ops W) p))"
    "\<not> HasWatchOnly W (keys w1) (script_for_key W p)"
    by (rule wallet_AddKeyPubKey_plain [OF assms(1) v])
  obtain ok d' where wr: "WriteKey W d p (priv_key W k) (CKeyMetadata_at W now) = (ok, d')" by fastforce
  have "r = (if ok then Inr p else Inl ''CWallet::GenerateNewKey(): AddKey failed'')" "w' = w1\<lparr>disk := d'\<rparr>"
    using g unfolding w1(1) wr by (cases ok; simp)+
  then show ?thesis using w1(2-5) v(3) wr by (cases ok) auto
qed

theorem generated_key_recorded_witness:
  "\<exists>r w'. GenerateNewKey demo_wallet_env (\<lambda>c. [7]) 5 demo_wallet = Inr (r, w') \<and>
     smap_find (mapKeys (keys w')) 7 = Some [7] \<and> smap_find (mapKeyMetadata w') 7 = Some 5"
proof -
  obtain r w' where g: "GenerateNewKey demo_wallet_env (\<lambda>c. [7]) 5 demo_wallet = Inr (r, w')"
    by (simp add: GenerateNewKey_def wallet_AddKeyPubKey_def crypto_AddKeyPubKey_def remove_watched_def
        metadata_at_def demo_wallet_env_def demo_keys_def demo_wallet_def Let_def)
  have c: "\<not> fUseCrypto (keys demo_wallet)" "fFileBacked demo_wallet" "(5 :: i64) \<noteq> 0"
    by (simp_all add: demo_wallet_def)
  from generated_key_recorded [OF demo_wallet_env_ok c g refl refl] g show ?thesis
    by (simp add: demo_wallet_env_def demo_keys_def)
qed

section \<open>Encrypted wallets\<close>

lemma WriteKey_selectors:
  "key_ops (W\<lparr>WriteKey := f\<rparr>) = key_ops W"
  "WriteCryptedKey (W\<lparr>WriteKey := f\<rparr>) = WriteCryptedKey W"
  "enc_WriteCryptedKey (W\<lparr>WriteKey := f\<rparr>) = enc_WriteCryptedKey W"
  by simp_all

lemma WriteKey_unused:
  "wallet_AddCryptedKey (W\<lparr>WriteKey := f\<rparr>) w p c = wallet_AddCryptedKey W w p c"
  "crypto_AddKeyPubKey (W\<lparr>WriteKey := f\<rparr>) w k p = crypto_AddKeyPubKey W w k p"
  "after_add (W\<lparr>WriteKey := f\<rparr>) w p = after_add W w p"
  "metadata_at (W\<lparr>WriteKey := f\<rparr>) w i = metadata_at W w i"
proof -
  show m: "metadata_at (W\<lparr>WriteKey := f\<rparr>) w i = metadata_at W w i" for w i
    by (simp add: metadata_at_def split: option.split)
  show a: "wallet_AddCryptedKey (W\<lparr>WriteKey := f\<rparr>) w p c = wallet_AddCryptedKey W w p c" for w p c
    unfolding wallet_AddCryptedKey_def m WriteKey_selectors by (rule refl)
  show "crypto_AddKeyPubKey (W\<lparr>WriteKey := f\<rparr>) w k p = crypto_AddKeyPubKey W w k p"
    unfolding crypto_AddKeyPubKey_def a WriteKey_selectors by (rule refl)
  show "after_add (W\<lparr>WriteKey := f\<rparr>) w p = after_add W w p"
    by (simp add: after_add_def remove_watched_def)
qed

lemma AddKeyPubKey_WriteKey_unused:
  assumes ok: "wallet_env_ok W" and c: "fUseCrypto (keys w)"
  shows "wallet_AddKeyPubKey (W\<lparr>WriteKey := f\<rparr>) w k p = wallet_AddKeyPubKey W w k p"
proof (cases "crypto_AddKeyPubKey W w k p")
  case (Inl e)
  then show ?thesis by (simp add: wallet_AddKeyPubKey_alt WriteKey_unused)
next
  case (Inr x)
  then obtain b w1 where x: "crypto_AddKeyPubKey W w k p = Inr (b, w1)" by (cases x) auto
  have "keeps W w (after_add W w1 p)"
    using crypto_AddKeyPubKey_keeps [OF ok x] after_add_keeps [OF ok] keeps_trans by blast
  then have "IsCrypted (key_ops W) (keys (after_add W w1 p))"
    using c by (simp add: keeps_def wallet_env_okD(8) [OF ok])
  then show ?thesis by (simp add: wallet_AddKeyPubKey_alt WriteKey_unused x)
qed

definition with_first_key ::
    "i64 \<Rightarrow> 'id \<Rightarrow> 'meta \<Rightarrow> ('id::linorder, 'key, 'pub, 'rest, 'meta, 'tx, 'db) CWallet \<Rightarrow>
     ('id, 'key, 'pub, 'rest, 'meta, 'tx, 'db) CWallet" where
  "with_first_key now i m w =
     (let w = w\<lparr>mapKeyMetadata := smap_put (mapKeyMetadata w) i m\<rparr>
      in if nTimeFirstKey w = 0 \<or> now <s nTimeFirstKey w then w\<lparr>nTimeFirstKey := now\<rparr> else w)"

lemma GenerateNewKey_raw:
  "GenerateNewKey W newkey now w =
    (let secret = newkey (CanSupportFeature W w (feature_version FEATURE_COMPRPUBKEY));
         pubkey = key_pub (key_ops W) secret
     in cxx_assert (key_verify (key_ops W) secret pubkey)
       (rbind (wallet_AddKeyPubKey W
            (with_first_key now (pk_id (key_ops W) pubkey) (CKeyMetadata_at W now) (version_raised W w)) secret pubkey)
         (\<lambda>(ok, w). if \<not> ok then Inr (Inl ''CWallet::GenerateNewKey(): AddKey failed'', w) else Inr (Inr pubkey, w))))"
  unfolding GenerateNewKey_def version_raised_def with_first_key_def Let_def by (rule refl)

text \<open>
  C28: an encrypted wallet never writes a plain key to its file. Adding or generating a key
  when encryption is on has the same effect whatever \<open>WriteKey\<close> would do, so that it is
  never used, not even with a locked store or a failing cipher.
\<close>

theorem encrypted_wallet_hides_key:
  assumes "wallet_env_ok W" "fUseCrypto (keys w)"
  shows "wallet_AddKeyPubKey (W\<lparr>WriteKey := f\<rparr>) w k p = wallet_AddKeyPubKey W w k p \<and>
    GenerateNewKey (W\<lparr>WriteKey := f\<rparr>) newkey now w = GenerateNewKey W newkey now w"
proof
  note u = AddKeyPubKey_WriteKey_unused [OF assms(1)]
  show "wallet_AddKeyPubKey (W\<lparr>WriteKey := f\<rparr>) w k p = wallet_AddKeyPubKey W w k p"
    by (rule u [OF assms(2)])
  have "fUseCrypto (keys (version_raised W w))"
    using version_raised_keeps [OF assms(1), of w] assms(2) by (simp add: keeps_def)
  then have c: "fUseCrypto (keys (with_first_key now i m (version_raised W w)))" for i m
    by (simp add: with_first_key_def Let_def)
  have e: "key_ops (W\<lparr>WriteKey := f\<rparr>) = key_ops W" "CKeyMetadata_at (W\<lparr>WriteKey := f\<rparr>) = CKeyMetadata_at W"
    "CanSupportFeature (W\<lparr>WriteKey := f\<rparr>) = CanSupportFeature W"
    "version_raised (W\<lparr>WriteKey := f\<rparr>) w = version_raised W w"
    by (simp_all add: version_raised_def)
  show "GenerateNewKey (W\<lparr>WriteKey := f\<rparr>) newkey now w = GenerateNewKey W newkey now w"
    unfolding GenerateNewKey_raw Let_def e u [OF c] by (rule refl)
qed

theorem encrypted_wallet_hides_key_witness:
  "GenerateNewKey (demo_wallet_env\<lparr>WriteKey := \<lambda>d p k m. (True, [(k, k, 0)])\<rparr>) (\<lambda>c. [7]) 5
     (demo_wallet\<lparr>keys := (keys demo_wallet)\<lparr>fUseCrypto := True\<rparr>\<rparr>) =
   GenerateNewKey demo_wallet_env (\<lambda>c. [7]) 5 (demo_wallet\<lparr>keys := (keys demo_wallet)\<lparr>fUseCrypto := True\<rparr>\<rparr>)"
  using encrypted_wallet_hides_key [OF demo_wallet_env_ok] by simp

end
