(* ===== verification/Ownership.thy ===== *)
theory Ownership
  imports IsMine Wallet
begin

text \<open>
  Ownership of outputs over the keys of a wallet: \<open>IsMine\<close> (\<open>Wallet/wallet_val.cpp\<close>) composed
  with the encrypted key store (\<open>Wallet/crypter.cpp\<close>) and the generation of keys
  (\<open>Wallet/wallet-tx.cpp\<close>).
\<close>

section \<open>Ownership and the key store\<close>

text \<open>
  \<open>IsMine\<close> asks a \<open>CKeyStore\<close>; for a wallet this is its encrypted key store. What the queries
  document: \<open>HaveKey\<close> tells whether the store holds the key, redeem scripts are in the basic
  store, and the templates and hashes do not depend on the store.
\<close>

definition reads_store ::
    "(('id::linorder, 'key, 'pub, 'rest) CCryptoKeyStore \<Rightarrow> ('script, 'id) mine_env) \<Rightarrow> bool" where
  "reads_store M \<longleftrightarrow> (\<forall>s i. HaveKey (M s) i = holds_key s i) \<and>
     (\<forall>s t. Solver (M s) = Solver (M t) \<and> PubKeyID (M s) = PubKeyID (M t) \<and> HashID (M s) = HashID (M t) \<and>
        (basic_rest s = basic_rest t \<longrightarrow> GetCScript (M s) = GetCScript (M t)))"

lemma spendable_mono:
  assumes "spendable E s" "Solver E' = Solver E" "PubKeyID E' = PubKeyID E" "HashID E' = HashID E"
    "HaveKey E' = HaveKey E" "GetCScript E' = GetCScript E"
  shows "spendable E' s"
  using assms(1)
proof (induction rule: spendable.induct)
  case (pubkey s v vs)
  show ?case by (rule spendable.pubkey) (use pubkey assms(2-) in \<open>simp only:\<close>)+
next
  case (pubkeyhash s v vs i)
  show ?case by (rule spendable.pubkeyhash) (use pubkeyhash assms(2-) in \<open>simp only:\<close>)+
next
  case (scripthash s v vs i sub)
  show ?case by (rule spendable.scripthash) (use scripthash assms(2-) in \<open>simp only:\<close>)+
next
  case (multisig s m keys n)
  show ?case by (rule spendable.multisig) (use multisig assms(2-) in \<open>simp only:\<close>)+
qed

lemma spendable_store:
  assumes "reads_store M" "\<forall>i. holds_key s i = holds_key t i" "basic_rest s = basic_rest t"
  shows "spendable (M s) x \<longleftrightarrow> spendable (M t) x"
proof -
  have "HaveKey (M s) = HaveKey (M t)" using assms(1,2) by (simp add: reads_store_def fun_eq_iff)
  moreover have "Solver (M s) = Solver (M t)" "PubKeyID (M s) = PubKeyID (M t)" "HashID (M s) = HashID (M t)"
    "GetCScript (M s) = GetCScript (M t)"
    using assms(1,3) unfolding reads_store_def by blast+
  ultimately show ?thesis by (intro iffI; elim spendable_mono; simp only:)
qed

definition mine_ok :: "('script, 'id) mine_env \<Rightarrow> bool" where
  "mine_ok E \<longleftrightarrow> solver_ok E \<and> wfp (redeems E)"

definition is_spendable :: "('script, 'id) mine_env \<Rightarrow> 'script \<Rightarrow> bool" where
  "is_spendable E x \<longleftrightarrow> IsMine E x = Some (Inr ISMINE_SPENDABLE)"

lemma is_spendable_iff: "mine_ok E \<Longrightarrow> is_spendable E x \<longleftrightarrow> spendable E x"
  unfolding is_spendable_def mine_ok_def by (simp add: IsMine_spec mine_spec_def watch_spec_def)

lemma is_spendable_store:
  assumes "reads_store M" "\<forall>s. mine_ok (M s)" "\<forall>i. holds_key s i = holds_key t i" "basic_rest s = basic_rest t"
  shows "is_spendable (M s) x \<longleftrightarrow> is_spendable (M t) x"
  unfolding is_spendable_iff [OF assms(2) [rule_format]] by (rule spendable_store [OF assms(1,3,4)])

text \<open>
  C14: encrypting a wallet does not change what it owns. After \<open>EncryptKeys\<close> on a plain store,
  and after locking it, \<open>IsMine\<close> finds spendable exactly the outputs it found spendable
  before, nested redeem scripts and multisignatures included.
\<close>

theorem encryption_keeps_ownership:
  assumes "env_ok E" "store_ok s" "\<not> fUseCrypto s" "length mk = 32" "keys_filed E s"
    and "reads_store M" "\<forall>s. mine_ok (M s)"
  shows "\<exists>s1 s2. EncryptKeys E s mk = Inr (True, s1) \<and> Lock s1 mixing = (True, s2) \<and>
    (\<forall>x. is_spendable (M s1) x = is_spendable (M s) x) \<and>
    (\<forall>x. is_spendable (M s2) x = is_spendable (M s) x)"
proof -
  obtain s1 where enc: "EncryptKeys E s mk = Inr (True, s1)" using EncryptKeys_run [OF assms(1-5)] by blast
  note s1 = EncryptKeys_holds [OF assms(1-5) enc]
  obtain s2 where lock: "Lock s1 mixing = (True, s2)" using s1(3) by (simp add: Lock_def SetCrypted_def Let_def)
  have "holds_key s2 i = holds_key s i" "basic_rest s2 = basic_rest s" for i
    using Lock_holds [OF s1(3) lock] s1(1,2) by auto
  then have "\<forall>x. is_spendable (M s1) x = is_spendable (M s) x" "\<forall>x. is_spendable (M s2) x = is_spendable (M s) x"
    by (intro allI is_spendable_store [OF assms(6,7)] s1(1,2); simp)+
  with enc lock show ?thesis by blast
qed

text \<open>
  C29: a generated key is owned. When \<open>GenerateNewKey\<close> returns a public key, on a plain or on
  an unlocked encrypted wallet, the outputs to that key, by its hash or in full, are
  spendable for the wallet.
\<close>

theorem generated_key_spendable:
  assumes "wallet_env_ok W" "GenerateNewKey W newkey now w = Inr (Inr pubkey, w')"
    and "reads_store M" "\<forall>s. mine_ok (M s)"
    and "Solver (M (keys w')) x = (True, TX_PUBKEYHASH, v # vs) \<and> HashID (M (keys w')) v = Inr (pk_id (key_ops W) pubkey) \<or>
      Solver (M (keys w')) x = (True, TX_PUBKEY, v # vs) \<and> PubKeyID (M (keys w')) v = pk_id (key_ops W) pubkey"
  shows "is_spendable (M (keys w')) x"
proof -
  have "HaveKey (M (keys w')) (pk_id (key_ops W) pubkey)"
    using GenerateNewKey_holds [OF assms(1,2)] assms(3) by (simp add: reads_store_def)
  from assms(5) this have "spendable (M (keys w')) x"
    by (elim disjE conjE) (erule (2) spendable.pubkeyhash, rule spendable.pubkey, assumption, simp)
  then show ?thesis unfolding is_spendable_iff [OF assms(4) [rule_format]] .
qed

section \<open>An example\<close>

text \<open>Script \<open>n\<close> pays to the hash of the key with identifier \<open>n\<close>.\<close>

definition demo_view :: "(nat, 'key, 'pub, 'rest) CCryptoKeyStore \<Rightarrow> (nat, nat) mine_env" where
  "demo_view s = \<lparr>Solver = (\<lambda>x. (True, TX_PUBKEYHASH, [[of_nat x]])), PubKeyID = (\<lambda>v. 0),
     HashID = (\<lambda>v. Inr (unat (hd v))), HaveKey = holds_key s, HaveWatchOnly = (\<lambda>x. False),
     GetCScript = (\<lambda>i. None), DummySignature = (\<lambda>x. False)\<rparr>"

lemma demo_view_reads: "reads_store demo_view"
  by (simp add: reads_store_def demo_view_def)

lemma demo_view_ok: "mine_ok (demo_view s)"
proof -
  have "redeems (demo_view s) = (\<lambda>x y. False)" by (auto simp: fun_eq_iff redeems_def demo_view_def)
  then show ?thesis by (simp add: mine_ok_def solver_ok_def small_multisig_def demo_view_def wfp_if_convertible_to_nat)
qed

theorem encryption_keeps_ownership_witness:
  "\<exists>s1 s2. EncryptKeys env_xor (plain_store [(7, replicate 32 7)]) (replicate 32 1) = Inr (True, s1) \<and>
     Lock s1 False = (True, s2) \<and>
     is_spendable (demo_view s2) 7 = is_spendable (demo_view (plain_store [(7, replicate 32 7)])) 7"
proof -
  have "env_ok env_xor" "store_ok (plain_store [(7, replicate 32 7)])" "\<not> fUseCrypto (plain_store [(7, replicate 32 7)])"
    "length (replicate 32 1 :: byte list) = 32" "keys_filed env_xor (plain_store [(7, replicate 32 7)])"
    using env_xor_ok by (simp_all add: plain_store_def store_ok_def keys_filed_def env_xor_def key_valid_def)
  from encryption_keeps_ownership [OF this demo_view_reads] demo_view_ok show ?thesis by blast
qed

theorem generated_key_spendable_witness:
  "\<exists>w'. GenerateNewKey demo_wallet_env (\<lambda>c. [7]) 5 demo_wallet = Inr (Inr [7], w') \<and>
     is_spendable (demo_view (keys w')) 7"
proof -
  obtain w' where g: "GenerateNewKey demo_wallet_env (\<lambda>c. [7]) 5 demo_wallet = Inr (Inr [7], w')"
    by (simp add: GenerateNewKey_def wallet_AddKeyPubKey_def crypto_AddKeyPubKey_def remove_watched_def
        metadata_at_def demo_wallet_env_def demo_keys_def demo_wallet_def Let_def)
  have "Solver (demo_view (keys w')) 7 = (True, TX_PUBKEYHASH, [7] # []) \<and>
      HashID (demo_view (keys w')) [7] = Inr (pk_id (key_ops demo_wallet_env) [7])"
    by (simp add: demo_view_def demo_wallet_env_def demo_keys_def)
  with generated_key_spendable [OF demo_wallet_env_ok g demo_view_reads] demo_view_ok g show ?thesis by blast
qed

end
