(* ===== verification/Rpc.thy ===== *)
theory Rpc
  imports Prelude
begin

text \<open>
  What the handlers of the RPC interface (\<open>rpcclient.cpp\<close>, \<open>rpcgovernance.cpp\<close>,
  \<open>rpcmasternode.cpp\<close> under \<open>Maternodes/ChainX-MN\<close>) share: the JSON values they return, the
  errors they throw and their optional arguments. A number that is a C++ \<open>double\<close> is an
  element of \<open>'d\<close>. How a JSON argument is read is a parameter, since univalue is not part of
  the repository.
\<close>

section \<open>Values and errors\<close>

datatype 'd univalue =
    VNULL
  | VBOOL bool
  | VNUM int
  | VREAL 'd
  | VSTR string
  | VARR "'d univalue list"
  | VOBJ "(string \<times> 'd univalue) list"

datatype rpc_code = RPC_INVALID_ADDRESS_OR_KEY | RPC_INVALID_PARAMETER | RPC_INTERNAL_ERROR
  | RPC_DATABASE_ERROR | RPC_TYPE_ERROR | RPC_MISC_ERROR | RPC_CLIENT_IN_INITIAL_DOWNLOAD
  | RPC_METHOD_NOT_FOUND | RPC_WALLET_UNLOCK_NEEDED | RPC_WALLET_INVALID_ACCOUNT_NAME

text \<open>
  A handler throws an error object with a code, a \<open>runtime_error\<close> (its help text, named here
  by the command, or a message, as the readers of arguments do), or its behaviour is undefined.
\<close>

datatype rpc_error =
    JSONRPCError rpc_code string
  | HelpText string
  | RuntimeError string
  | Undefined cxx_error

type_synonym 'a rpc = "rpc_error + 'a"

definition help_if :: "bool \<Rightarrow> string \<Rightarrow> 'a rpc \<Rightarrow> 'a rpc" where
  "help_if b cmd k = (if b then Inl (HelpText cmd) else k)"

lemma help_if_simps [simp, cxx_simps]:
  "help_if True cmd k = Inl (HelpText cmd)" "help_if False cmd k = k"
  by (simp_all add: help_if_def)

lemma help_if_Inr: "help_if b cmd k = Inr x \<longleftrightarrow> \<not> b \<and> k = Inr x"
  by (simp add: help_if_def)

section \<open>Arguments\<close>

record 'd uni_reader =
  get_str :: "'d univalue \<Rightarrow> string rpc"
  get_int :: "'d univalue \<Rightarrow> int rpc"
  get_bool :: "'d univalue \<Rightarrow> bool rpc"

text \<open>An argument with a default, read only when it is given.\<close>

definition opt_arg :: "('d univalue \<Rightarrow> 'a rpc) \<Rightarrow> 'd univalue list \<Rightarrow> nat \<Rightarrow> 'a \<Rightarrow> 'a rpc" where
  "opt_arg get params i def = (if length params > i then get (params ! i) else Inr def)"

lemma opt_arg_absent [simp]: "length params \<le> i \<Longrightarrow> opt_arg get params i def = Inr def"
  by (simp add: opt_arg_def)

text \<open>
  A reader that knows the types of the values, for examples: \<open>get_int\<close> refuses what does not
  fit an \<open>int\<close>.
\<close>

definition plain_reader :: "'d uni_reader" where
  "plain_reader = \<lparr>
     get_str = (\<lambda>v. case v of VSTR s \<Rightarrow> Inr s | _ \<Rightarrow> Inl (RuntimeError ''JSON value is not a string as expected'')),
     get_int = (\<lambda>v. case v of
        VNUM n \<Rightarrow> if i32_min \<le> n \<and> n \<le> i32_max then Inr n
                  else Inl (RuntimeError ''JSON integer out of range'')
      | _ \<Rightarrow> Inl (RuntimeError ''JSON value is not an integer as expected'')),
     get_bool = (\<lambda>v. case v of VBOOL b \<Rightarrow> Inr b | _ \<Rightarrow> Inl (RuntimeError ''JSON value is not a boolean as expected''))\<rparr>"

end
