(* ===== verification/ChainRpc.thy ===== *)
theory ChainRpc
  imports Complex_Main Rpc StdMap "HOL-Library.Char_ord" "HOL-Library.List_Lexorder"
begin

text \<open>
  The queries on the block chain and the memory pool, \<open>ChainX-MN/rpcclient.cpp\<close>. The block
  tree, the active chain (\<open>CChain\<close>), the coins and the memory pool are not part of the
  repository: what one call sees of them is the record \<open>chain_env\<close>. A block is named by the
  address of its \<open>CBlockIndex\<close>, a number, as the code compares addresses. The help texts are
  not modelled but for being thrown.
\<close>

section \<open>Blocks and the environment\<close>

record CBlockIndex =
  blockHash :: uint256
  nHeight :: int
  nVersion :: int
  hashMerkleRoot :: uint256
  nTime :: nat
  nNonce :: nat
  nBits :: u32
  nChainWork :: uint256
  pprev :: "nat option"
  nStatus :: u32
  nTx :: nat
  nChainTx :: nat

record 'd fpu =
  f_of :: "nat \<Rightarrow> 'd"
  f_div :: "'d \<Rightarrow> 'd \<Rightarrow> 'd"
  f_mul :: "'d \<Rightarrow> 'd \<Rightarrow> 'd"

record 'd chain_env = "'d uni_reader" +
  Fpu :: "'d fpu"
  blockAt :: "nat \<Rightarrow> CBlockIndex"
  mapBlockIndex :: "(uint256 \<times> nat) list"
  Tip :: "nat option"
  Height :: int
  Contains :: "nat \<Rightarrow> bool"
  NextBlock :: "nat \<Rightarrow> nat option"
  chainActive_at :: "int \<Rightarrow> nat option"
  FindFork :: "nat \<Rightarrow> nat option"
  pindexBestHeader :: "nat option"
  GetMedianTimePast :: "nat \<Rightarrow> int"
  IsValidScripts :: "nat \<Rightarrow> bool"
  IsValidTree :: "nat \<Rightarrow> bool"
  BLOCK_HAVE_DATA :: u32
  BLOCK_FAILED_MASK :: u32
  BlockHeader_hex :: "nat \<Rightarrow> string"
  GetHex :: "uint256 \<Rightarrow> string"
  uint256S :: "string \<Rightarrow> uint256"
  format_08x :: "u32 \<Rightarrow> string"
  MAX_HEADERS_RESULTS :: int
  ValueFromAmount :: "i64 \<Rightarrow> 'd univalue"

section \<open>Difficulty\<close>

function shift_up :: "'d fpu \<Rightarrow> int \<Rightarrow> 'd \<Rightarrow> int \<times> 'd" where
  "shift_up F nShift dDiff =
     (if nShift < 29 then shift_up F (nShift + 1) (f_mul F dDiff (f_of F 256)) else (nShift, dDiff))"
  by pat_completeness auto
termination by (relation "measure (\<lambda>(F, n, d). nat (29 - n))") auto

function shift_down :: "'d fpu \<Rightarrow> int \<Rightarrow> 'd \<Rightarrow> int \<times> 'd" where
  "shift_down F nShift dDiff =
     (if nShift > 29 then shift_down F (nShift - 1) (f_div F dDiff (f_of F 256)) else (nShift, dDiff))"
  by pat_completeness auto
termination by (relation "measure (\<lambda>(F, n, d). nat (n - 29))") auto

declare shift_up.simps [simp del] shift_down.simps [simp del]

definition bits_shift :: "u32 \<Rightarrow> int" where
  "bits_shift b = uint (drop_bit 24 b AND 0xff)"

definition bits_mantissa :: "u32 \<Rightarrow> nat" where
  "bits_mantissa b = unat (b AND 0x00ffffff)"

definition block_difficulty :: "'d chain_env \<Rightarrow> nat \<Rightarrow> 'd" where
  "block_difficulty E b =
     (let F = Fpu E; bits = nBits (blockAt E b);
          (nShift, dDiff) = shift_up F (bits_shift bits) (f_div F (f_of F 0xffff) (f_of F (bits_mantissa bits)))
      in snd (shift_down F nShift dDiff))"

definition GetDifficulty :: "'d chain_env \<Rightarrow> nat option \<Rightarrow> 'd" where
  "GetDifficulty E blockindex = (case blockindex of
     None \<Rightarrow> (case Tip E of None \<Rightarrow> f_of (Fpu E) 1 | Some b \<Rightarrow> block_difficulty E b)
   | Some b \<Rightarrow> block_difficulty E b)"

section \<open>Blocks as JSON\<close>

definition confirmations :: "'d chain_env \<Rightarrow> nat \<Rightarrow> int" where
  "confirmations E b = (if Contains E b then Height E - nHeight (blockAt E b) + 1 else - 1)"

definition link_pairs :: "'d chain_env \<Rightarrow> nat \<Rightarrow> (string \<times> 'd univalue) list" where
  "link_pairs E b =
     (case pprev (blockAt E b) of None \<Rightarrow> []
      | Some p \<Rightarrow> [(''previousblockhash'', VSTR (GetHex E (blockHash (blockAt E p))))]) @
     (case NextBlock E b of None \<Rightarrow> []
      | Some n \<Rightarrow> [(''nextblockhash'', VSTR (GetHex E (blockHash (blockAt E n))))])"

definition blockheaderToJSON :: "'d chain_env \<Rightarrow> nat \<Rightarrow> 'd univalue" where
  "blockheaderToJSON E b =
     (let bi = blockAt E b in VOBJ (
       [(''hash'', VSTR (GetHex E (blockHash bi))),
        (''confirmations'', VNUM (confirmations E b)),
        (''height'', VNUM (nHeight bi)),
        (''version'', VNUM (nVersion bi)),
        (''merkleroot'', VSTR (GetHex E (hashMerkleRoot bi))),
        (''time'', VNUM (int (nTime bi))),
        (''mediantime'', VNUM (GetMedianTimePast E b)),
        (''nonce'', VNUM (int (nNonce bi))),
        (''bits'', VSTR (format_08x E (nBits bi))),
        (''difficulty'', VREAL (GetDifficulty E (Some b))),
        (''chainwork'', VSTR (GetHex E (nChainWork bi)))] @ link_pairs E b))"

record ('tx) CBlock =
  block_hash :: uint256
  block_size :: int
  block_nVersion :: int
  block_merkle :: uint256
  vtx :: "'tx list"
  block_time :: int
  block_nNonce :: nat
  block_nBits :: u32

definition block_tx ::
    "'d chain_env \<Rightarrow> ('tx \<Rightarrow> 'd univalue) \<Rightarrow> ('tx \<Rightarrow> uint256) \<Rightarrow> bool \<Rightarrow> 'tx \<Rightarrow> 'd univalue" where
  "block_tx E TxToJSON tx_hash txDetails tx =
     (if txDetails then TxToJSON tx else VSTR (GetHex E (tx_hash tx)))"

definition blockToJSON ::
    "'d chain_env \<Rightarrow> ('tx \<Rightarrow> 'd univalue) \<Rightarrow> ('tx \<Rightarrow> uint256) \<Rightarrow> 'tx CBlock \<Rightarrow> nat \<Rightarrow> bool \<Rightarrow> 'd univalue" where
  "blockToJSON E TxToJSON tx_hash blk b txDetails =
     (let bi = blockAt E b in VOBJ (
       [(''hash'', VSTR (GetHex E (block_hash blk))),
        (''confirmations'', VNUM (confirmations E b)),
        (''size'', VNUM (block_size blk)),
        (''height'', VNUM (nHeight bi)),
        (''version'', VNUM (block_nVersion blk)),
        (''merkleroot'', VSTR (GetHex E (block_merkle blk))),
        (''tx'', VARR (map (block_tx E TxToJSON tx_hash txDetails) (vtx blk))),
        (''time'', VNUM (block_time blk)),
        (''mediantime'', VNUM (GetMedianTimePast E b)),
        (''nonce'', VNUM (int (block_nNonce blk))),
        (''bits'', VSTR (format_08x E (block_nBits blk))),
        (''difficulty'', VREAL (GetDifficulty E (Some b))),
        (''chainwork'', VSTR (GetHex E (nChainWork bi)))] @ link_pairs E b))"

section \<open>Simple queries\<close>

definition getblockcount :: "'d chain_env \<Rightarrow> 'd univalue list \<Rightarrow> bool \<Rightarrow> 'd univalue rpc" where
  "getblockcount E params fHelp =
     help_if (fHelp \<or> length params \<noteq> 0) ''getblockcount'' (Inr (VNUM (Height E)))"

definition hash_json :: "'d chain_env \<Rightarrow> nat option \<Rightarrow> 'd univalue rpc" where
  "hash_json E b = (case b of
     None \<Rightarrow> Inl (Undefined NullDeref) | Some p \<Rightarrow> Inr (VSTR (GetHex E (blockHash (blockAt E p)))))"

definition getbestblockhash :: "'d chain_env \<Rightarrow> 'd univalue list \<Rightarrow> bool \<Rightarrow> 'd univalue rpc" where
  "getbestblockhash E params fHelp =
     help_if (fHelp \<or> length params \<noteq> 0) ''getbestblockhash'' (hash_json E (Tip E))"

definition getdifficulty :: "'d chain_env \<Rightarrow> 'd univalue list \<Rightarrow> bool \<Rightarrow> 'd univalue rpc" where
  "getdifficulty E params fHelp =
     help_if (fHelp \<or> length params \<noteq> 0) ''getdifficulty'' (Inr (VREAL (GetDifficulty E None)))"

definition getblockhash :: "'d chain_env \<Rightarrow> 'd univalue list \<Rightarrow> bool \<Rightarrow> 'd univalue rpc" where
  "getblockhash E params fHelp =
     help_if (fHelp \<or> length params \<noteq> 1) ''getblockhash''
       (rbind (get_int E (params ! 0)) (\<lambda>h.
          if h < 0 \<or> h > Height E then Inl (JSONRPCError RPC_INVALID_PARAMETER ''Block height out of range'')
          else hash_json E (chainActive_at E h)))"

text \<open>The argument is converted to \<open>unsigned int\<close>.\<close>

definition getblockhashes ::
    "'d chain_env \<Rightarrow> (u32 \<Rightarrow> u32 \<Rightarrow> uint256 list option) \<Rightarrow> 'd univalue list \<Rightarrow> bool \<Rightarrow> 'd univalue rpc" where
  "getblockhashes E GetTimestampIndex params fHelp =
     help_if (fHelp \<or> length params \<noteq> 2) ''getblockhashes''
       (rbind (get_int E (params ! 0)) (\<lambda>high. rbind (get_int E (params ! 1)) (\<lambda>low.
          case GetTimestampIndex (word_of_int high) (word_of_int low) of
            None \<Rightarrow> Inl (JSONRPCError RPC_INVALID_ADDRESS_OR_KEY ''No information available for block hashes'')
          | Some hs \<Rightarrow> Inr (VARR (map (\<lambda>h. VSTR (GetHex E h)) hs)))))"

section \<open>Headers and blocks\<close>

definition not_found :: rpc_error where
  "not_found = JSONRPCError RPC_INVALID_ADDRESS_OR_KEY ''Block not found''"

definition find_block :: "'d chain_env \<Rightarrow> string \<Rightarrow> nat rpc" where
  "find_block E strHash = (case map_of (mapBlockIndex E) (uint256S E strHash) of
     None \<Rightarrow> Inl not_found | Some b \<Rightarrow> Inr b)"

definition header_json :: "'d chain_env \<Rightarrow> bool \<Rightarrow> nat \<Rightarrow> 'd univalue" where
  "header_json E fVerbose b = (if fVerbose then blockheaderToJSON E b else VSTR (BlockHeader_hex E b))"

definition getblockheader :: "'d chain_env \<Rightarrow> 'd univalue list \<Rightarrow> bool \<Rightarrow> 'd univalue rpc" where
  "getblockheader E params fHelp =
     help_if (fHelp \<or> length params < 1 \<or> length params > 2) ''getblockheader''
       (rbind (get_str E (params ! 0)) (\<lambda>strHash.
        rbind (opt_arg (get_bool E) params 1 True) (\<lambda>fVerbose.
        rbind (find_block E strHash) (\<lambda>b. Inr (header_json E fVerbose b)))))"

text \<open>Both loops of \<open>getblockheaders\<close>.\<close>

function headers_loop :: "('b \<Rightarrow> 'b option) \<Rightarrow> ('b \<Rightarrow> 'v) \<Rightarrow> 'b option \<Rightarrow> int \<Rightarrow> 'v list" where
  "headers_loop nxt json pblockindex nCount = (case pblockindex of
     None \<Rightarrow> []
   | Some b \<Rightarrow> json b # (if nCount - 1 \<le> 0 then [] else headers_loop nxt json (nxt b) (nCount - 1)))"
  by pat_completeness auto
termination by (relation "measure (\<lambda>(nx, j, p, n). nat n)") auto

declare headers_loop.simps [simp del]

definition getblockheaders :: "'d chain_env \<Rightarrow> 'd univalue list \<Rightarrow> bool \<Rightarrow> 'd univalue rpc" where
  "getblockheaders E params fHelp =
     help_if (fHelp \<or> length params < 1 \<or> length params > 3) ''getblockheaders''
       (rbind (get_str E (params ! 0)) (\<lambda>strHash.
        rbind (find_block E strHash) (\<lambda>b.
        rbind (opt_arg (get_int E) params 1 (MAX_HEADERS_RESULTS E)) (\<lambda>nCount.
        if nCount \<le> 0 \<or> nCount > MAX_HEADERS_RESULTS E then
          Inl (JSONRPCError RPC_INVALID_PARAMETER ''Count is out of range'')
        else rbind (opt_arg (get_bool E) params 2 True) (\<lambda>fVerbose.
          Inr (VARR (headers_loop (NextBlock E) (header_json E fVerbose) (Some b) nCount)))))))"

text \<open>\<open>disk\<close> is the block on disk, if it can be read; without \<open>verbose\<close> its bytes in hexadecimal.\<close>

definition getblock ::
    "'d chain_env \<Rightarrow> bool \<Rightarrow> (nat \<Rightarrow> 'tx CBlock option) \<Rightarrow> ('tx CBlock \<Rightarrow> string) \<Rightarrow> ('tx \<Rightarrow> 'd univalue) \<Rightarrow>
     ('tx \<Rightarrow> uint256) \<Rightarrow> 'd univalue list \<Rightarrow> bool \<Rightarrow> 'd univalue rpc" where
  "getblock E fHavePruned disk block_hex TxToJSON tx_hash params fHelp =
     help_if (fHelp \<or> length params < 1 \<or> length params > 2) ''getblock''
       (rbind (get_str E (params ! 0)) (\<lambda>strHash.
        rbind (opt_arg (get_bool E) params 1 True) (\<lambda>fVerbose.
        rbind (find_block E strHash) (\<lambda>b.
        if fHavePruned \<and> nStatus (blockAt E b) AND BLOCK_HAVE_DATA E = 0 \<and> nTx (blockAt E b) > 0 then
          Inl (JSONRPCError RPC_INTERNAL_ERROR ''Block not available (pruned data)'')
        else case disk b of
          None \<Rightarrow> Inl (JSONRPCError RPC_INTERNAL_ERROR ''Can't read block from disk'')
        | Some blk \<Rightarrow>
            Inr (if \<not> fVerbose then VSTR (block_hex blk) else blockToJSON E TxToJSON tx_hash blk b False)))))"

section \<open>Memory pool\<close>

record 'd mempool_entry =
  entry_hash :: uint256
  entry_size :: int
  entry_fee :: i64
  entry_modifiedfee :: i64
  entry_time :: int
  entry_height :: int
  entry_priority :: "int \<Rightarrow> 'd"
  descendant_count :: int
  descendant_size :: int
  descendant_fees :: int
  entry_prevouts :: "uint256 list"

record 'd mempool_env =
  mapTx :: "'d mempool_entry list"
  mempool_exists :: "uint256 \<Rightarrow> bool"
  queryHashes :: "uint256 list"
  mempool_size :: int
  mempool_TotalTxSize :: int
  mempool_DynamicMemoryUsage :: int
  arg_maxmempool :: int
  GetMinFee :: "u64 \<Rightarrow> i64"

definition depends_set :: "'d chain_env \<Rightarrow> 'd mempool_env \<Rightarrow> 'd mempool_entry \<Rightarrow> string stdset" where
  "depends_set E M e =
     fold (\<lambda>h s. if mempool_exists M h then sset_insert s (GetHex E h) else s) (entry_prevouts e) []"

definition entry_json :: "'d chain_env \<Rightarrow> 'd mempool_env \<Rightarrow> 'd mempool_entry \<Rightarrow> 'd univalue" where
  "entry_json E M e = VOBJ
     [(''size'', VNUM (entry_size e)),
      (''fee'', ValueFromAmount E (entry_fee e)),
      (''modifiedfee'', ValueFromAmount E (entry_modifiedfee e)),
      (''time'', VNUM (entry_time e)),
      (''height'', VNUM (entry_height e)),
      (''startingpriority'', VREAL (entry_priority e (entry_height e))),
      (''currentpriority'', VREAL (entry_priority e (Height E))),
      (''descendantcount'', VNUM (descendant_count e)),
      (''descendantsize'', VNUM (descendant_size e)),
      (''descendantfees'', VNUM (descendant_fees e)),
      (''depends'', VARR (map VSTR (depends_set E M e)))]"

definition mempoolToJSON :: "'d chain_env \<Rightarrow> 'd mempool_env \<Rightarrow> bool \<Rightarrow> 'd univalue" where
  "mempoolToJSON E M fVerbose =
     (if fVerbose then VOBJ (map (\<lambda>e. (GetHex E (entry_hash e), entry_json E M e)) (mapTx M))
      else VARR (map (\<lambda>h. VSTR (GetHex E h)) (queryHashes M)))"

text \<open>Without the line 269, which names variables that are not in scope.\<close>

definition getrawmempool :: "'d chain_env \<Rightarrow> 'd mempool_env \<Rightarrow> 'd univalue list \<Rightarrow> bool \<Rightarrow> 'd univalue rpc" where
  "getrawmempool E M params fHelp =
     help_if (fHelp \<or> length params > 1) ''getrawmempool''
       (rbind (opt_arg (get_bool E) params 0 False) (\<lambda>fVerbose. Inr (mempoolToJSON E M fVerbose)))"

text \<open>The product is an \<open>int64_t\<close>, converted to \<open>size_t\<close>, and back for the result.\<close>

definition mempoolInfoToJSON :: "'d chain_env \<Rightarrow> 'd mempool_env \<Rightarrow> 'd univalue rpc" where
  "mempoolInfoToJSON E M =
     (let product = arg_maxmempool M * 1000000; maxmempool = word_of_int product :: u64 in
      if \<not> fits_i64 product then Inl (Undefined SignedOverflow)
      else Inr (VOBJ
        [(''size'', VNUM (mempool_size M)),
         (''bytes'', VNUM (mempool_TotalTxSize M)),
         (''usage'', VNUM (mempool_DynamicMemoryUsage M)),
         (''maxmempool'', VNUM (sint maxmempool)),
         (''mempoolminfee'', ValueFromAmount E (GetMinFee M maxmempool))]))"

definition getmempoolinfo :: "'d chain_env \<Rightarrow> 'd mempool_env \<Rightarrow> 'd univalue list \<Rightarrow> bool \<Rightarrow> 'd univalue rpc" where
  "getmempoolinfo E M params fHelp =
     help_if (fHelp \<or> length params \<noteq> 0) ''getmempoolinfo'' (mempoolInfoToJSON E M)"

section \<open>Unspent outputs\<close>

record CCoinsStats =
  stats_nHeight :: int
  stats_hashBlock :: uint256
  stats_nTransactions :: int
  stats_nTransactionOutputs :: int
  stats_nSerializedSize :: int
  stats_hashSerialized :: uint256
  stats_nTotalAmount :: i64

definition gettxoutsetinfo ::
    "'d chain_env \<Rightarrow> CCoinsStats option \<Rightarrow> 'd univalue list \<Rightarrow> bool \<Rightarrow> 'd univalue rpc" where
  "gettxoutsetinfo E GetStats params fHelp =
     help_if (fHelp \<or> length params \<noteq> 0) ''gettxoutsetinfo'' (Inr (VOBJ (case GetStats of
        None \<Rightarrow> []
      | Some st \<Rightarrow>
          [(''height'', VNUM (stats_nHeight st)),
           (''bestblock'', VSTR (GetHex E (stats_hashBlock st))),
           (''transactions'', VNUM (stats_nTransactions st)),
           (''txouts'', VNUM (stats_nTransactionOutputs st)),
           (''bytes_serialized'', VNUM (stats_nSerializedSize st)),
           (''hash_serialized'', VSTR (GetHex E (stats_hashSerialized st))),
           (''total_amount'', ValueFromAmount E (stats_nTotalAmount st))])))"

record 'd coin_out =
  out_IsNull :: bool
  out_nValue :: i64
  out_script_json :: "'d univalue"

record 'd CCoins =
  coins_vout :: "'d coin_out list"
  coins_nHeight :: int
  coins_nVersion :: int
  coins_fCoinBase :: bool

text \<open>
  \<open>pool_coins\<close> is the view with the memory pool after \<open>pruneSpent\<close>, \<open>tip_coins\<close> the view
  without it. \<open>MEMPOOL_HEIGHT\<close> stands for an output in the memory pool.
\<close>

record 'd coins_env =
  pool_coins :: "uint256 \<Rightarrow> 'd CCoins option"
  tip_coins :: "uint256 \<Rightarrow> 'd CCoins option"
  GetBestBlock :: uint256
  MEMPOOL_HEIGHT :: u32

definition txout_json :: "'d chain_env \<Rightarrow> 'd coins_env \<Rightarrow> 'd CCoins \<Rightarrow> 'd coin_out \<Rightarrow> 'd univalue rpc" where
  "txout_json E V coins out = (case map_of (mapBlockIndex E) (GetBestBlock V) of
     None \<Rightarrow> Inl (Undefined OutOfRange)
   | Some pindex \<Rightarrow> Inr (VOBJ
      [(''bestblock'', VSTR (GetHex E (blockHash (blockAt E pindex)))),
       (''confirmations'', VNUM (if word_of_int (coins_nHeight coins) = MEMPOOL_HEIGHT V then 0
                            else nHeight (blockAt E pindex) - coins_nHeight coins + 1)),
       (''value'', ValueFromAmount E (out_nValue out)),
       (''scriptPubKey'', out_script_json out),
       (''version'', VNUM (coins_nVersion coins)),
       (''coinbase'', VBOOL (coins_fCoinBase coins))]))"

definition gettxout :: "'d chain_env \<Rightarrow> 'd coins_env \<Rightarrow> 'd univalue list \<Rightarrow> bool \<Rightarrow> 'd univalue rpc" where
  "gettxout E V params fHelp =
     help_if (fHelp \<or> length params < 2 \<or> length params > 3) ''gettxout''
       (rbind (get_str E (params ! 0)) (\<lambda>strHash.
        rbind (get_int E (params ! 1)) (\<lambda>n.
        rbind (opt_arg (get_bool E) params 2 True) (\<lambda>fMempool.
        case (if fMempool then pool_coins V else tip_coins V) (uint256S E strHash) of
          None \<Rightarrow> Inr VNULL
        | Some coins \<Rightarrow>
            if n < 0 \<or> n \<ge> int (length (coins_vout coins)) \<or> out_IsNull (coins_vout coins ! nat n) then Inr VNULL
            else txout_json E V coins (coins_vout coins ! nat n)))))"

text \<open>\<open>GetArg\<close> returns an \<open>int64_t\<close>, which is converted to \<open>int\<close>.\<close>

definition verifychain ::
    "'d chain_env \<Rightarrow> i64 \<Rightarrow> i64 \<Rightarrow> (int \<Rightarrow> int \<Rightarrow> bool) \<Rightarrow> 'd univalue list \<Rightarrow> bool \<Rightarrow> 'd univalue rpc" where
  "verifychain E arg_checklevel arg_checkblocks VerifyDB params fHelp =
     help_if (fHelp \<or> length params > 2) ''verifychain''
       (rbind (opt_arg (get_int E) params 0 (sint (ucast arg_checklevel :: 32 word))) (\<lambda>nCheckLevel.
        rbind (opt_arg (get_int E) params 1 (sint (ucast arg_checkblocks :: 32 word))) (\<lambda>nCheckDepth.
        Inr (VBOOL (VerifyDB nCheckLevel nCheckDepth)))))"

section \<open>Soft forks and the state of the chain\<close>

function majority_loop :: "'d chain_env \<Rightarrow> int \<Rightarrow> int \<Rightarrow> int \<Rightarrow> nat option \<Rightarrow> int \<Rightarrow> int" where
  "majority_loop E minVersion window i pstart nFound =
     (if i < window then
        case pstart of
          None \<Rightarrow> nFound
        | Some b \<Rightarrow> majority_loop E minVersion window (i + 1) (pprev (blockAt E b))
                     (if nVersion (blockAt E b) \<ge> minVersion then nFound + 1 else nFound)
      else nFound)"
  by pat_completeness auto
termination by (relation "measure (\<lambda>(E, v, w, i, p, n). nat (w - i))") auto

declare majority_loop.simps [simp del]

record consensus_params =
  nMajorityWindow :: int
  nMajorityEnforceBlockUpgrade :: int
  nMajorityRejectBlockOutdated :: int

definition SoftForkMajorityDesc ::
    "'d chain_env \<Rightarrow> int \<Rightarrow> nat option \<Rightarrow> int \<Rightarrow> consensus_params \<Rightarrow> 'd univalue" where
  "SoftForkMajorityDesc E minVersion pindex nRequired consensusParams =
     (let nFound = majority_loop E minVersion (nMajorityWindow consensusParams) 0 pindex 0 in
      VOBJ [(''status'', VBOOL (nFound \<ge> nRequired)), (''found'', VNUM nFound),
        (''required'', VNUM nRequired), (''window'', VNUM (nMajorityWindow consensusParams))])"

definition SoftForkDesc ::
    "'d chain_env \<Rightarrow> string \<Rightarrow> int \<Rightarrow> nat option \<Rightarrow> consensus_params \<Rightarrow> 'd univalue" where
  "SoftForkDesc E name version pindex P =
     VOBJ [(''id'', VSTR name), (''version'', VNUM version),
       (''enforce'', SoftForkMajorityDesc E version pindex (nMajorityEnforceBlockUpgrade P) P),
       (''reject'', SoftForkMajorityDesc E version pindex (nMajorityRejectBlockOutdated P) P)]"

datatype threshold_state = THRESHOLD_DEFINED | THRESHOLD_STARTED | THRESHOLD_LOCKED_IN
  | THRESHOLD_ACTIVE | THRESHOLD_FAILED

fun threshold_name :: "threshold_state \<Rightarrow> string" where
  "threshold_name THRESHOLD_DEFINED = ''defined''"
| "threshold_name THRESHOLD_STARTED = ''started''"
| "threshold_name THRESHOLD_LOCKED_IN = ''locked_in''"
| "threshold_name THRESHOLD_ACTIVE = ''active''"
| "threshold_name THRESHOLD_FAILED = ''failed''"

definition BIP9SoftForkDesc :: "string \<Rightarrow> threshold_state \<Rightarrow> 'd univalue" where
  "BIP9SoftForkDesc name tipState = VOBJ [(''id'', VSTR name), (''status'', VSTR (threshold_name tipState))]"

text \<open>The loop need not end on a tree with a cycle.\<close>

partial_function (option) prune_loop :: "'d chain_env \<Rightarrow> nat \<Rightarrow> nat option" where
  "prune_loop E b = (case pprev (blockAt E b) of
     None \<Rightarrow> Some b
   | Some p \<Rightarrow> if nStatus (blockAt E p) AND BLOCK_HAVE_DATA E = 0 then Some b else prune_loop E p)"

record 'd info_env =
  info_chain :: string
  VerificationProgress :: "nat \<Rightarrow> 'd"
  fPruneMode :: bool
  info_consensus :: consensus_params
  csv_state :: threshold_state

definition info_pairs :: "'d chain_env \<Rightarrow> 'd info_env \<Rightarrow> nat \<Rightarrow> (string \<times> 'd univalue) list" where
  "info_pairs E I t =
     [(''chain'', VSTR (info_chain I)),
      (''blocks'', VNUM (Height E)),
      (''headers'', VNUM (case pindexBestHeader E of None \<Rightarrow> - 1 | Some b \<Rightarrow> nHeight (blockAt E b))),
      (''bestblockhash'', VSTR (GetHex E (blockHash (blockAt E t)))),
      (''difficulty'', VREAL (GetDifficulty E None)),
      (''mediantime'', VNUM (GetMedianTimePast E t)),
      (''verificationprogress'', VREAL (VerificationProgress I t)),
      (''chainwork'', VSTR (GetHex E (nChainWork (blockAt E t)))),
      (''pruned'', VBOOL (fPruneMode I)),
      (''softforks'', VARR [SoftForkDesc E ''bip34'' 2 (Some t) (info_consensus I),
         SoftForkDesc E ''bip66'' 3 (Some t) (info_consensus I),
         SoftForkDesc E ''bip65'' 4 (Some t) (info_consensus I)]),
      (''bip9_softforks'', VARR [BIP9SoftForkDesc ''csv'' (csv_state I)])]"

text \<open>\<open>None\<close> when the loop does not end.\<close>

definition getblockchaininfo ::
    "'d chain_env \<Rightarrow> 'd info_env \<Rightarrow> 'd univalue list \<Rightarrow> bool \<Rightarrow> 'd univalue rpc option" where
  "getblockchaininfo E I params fHelp =
     (if fHelp \<or> length params \<noteq> 0 then Some (Inl (HelpText ''getblockchaininfo''))
      else case Tip E of
        None \<Rightarrow> Some (Inl (Undefined NullDeref))
      | Some t \<Rightarrow>
          if fPruneMode I then
            Option.bind (prune_loop E t) (\<lambda>b.
              Some (Inr (VOBJ (info_pairs E I t @ [(''pruneheight'', VNUM (nHeight (blockAt E b)))]))))
          else Some (Inr (VOBJ (info_pairs E I t))))"

section \<open>Chain tips\<close>

definition CompareBlocksByHeight :: "'d chain_env \<Rightarrow> nat \<Rightarrow> nat \<Rightarrow> bool" where
  "CompareBlocksByHeight E a b =
     (if nHeight (blockAt E a) \<noteq> nHeight (blockAt E b)
      then nHeight (blockAt E a) > nHeight (blockAt E b) else a < b)"

definition block_tips :: "'d chain_env \<Rightarrow> nat list" where
  "block_tips E =
     (let lt = CompareBlocksByHeight E;
          setTips = fold (\<lambda>(h, p) s. cset_insert lt s p) (mapBlockIndex E) []
      in fold (\<lambda>(h, p) s. case pprev (blockAt E p) of None \<Rightarrow> s | Some q \<Rightarrow> cset_erase lt s q)
           (mapBlockIndex E) setTips)"

definition tip_status :: "'d chain_env \<Rightarrow> nat \<Rightarrow> string" where
  "tip_status E b =
     (if Contains E b then ''active''
      else if nStatus (blockAt E b) AND BLOCK_FAILED_MASK E \<noteq> 0 then ''invalid''
      else if nChainTx (blockAt E b) = 0 then ''headers-only''
      else if IsValidScripts E b then ''valid-fork''
      else if IsValidTree E b then ''valid-headers''
      else ''unknown'')"

definition tip_object :: "'d chain_env \<Rightarrow> int \<Rightarrow> nat \<Rightarrow> 'd univalue" where
  "tip_object E branchLen b = VOBJ
     [(''height'', VNUM (nHeight (blockAt E b))),
      (''hash'', VSTR (GetHex E (blockHash (blockAt E b)))),
      (''difficulty'', VREAL (GetDifficulty E (Some b))),
      (''chainwork'', VSTR (GetHex E (nChainWork (blockAt E b)))),
      (''branchlen'', VNUM branchLen),
      (''status'', VSTR (tip_status E b))]"

fun tip_array :: "'d chain_env \<Rightarrow> nat list \<Rightarrow> int \<Rightarrow> int \<Rightarrow> 'd univalue list \<Rightarrow> 'd univalue list rpc" where
  "tip_array E [] nCountMax nBranchMin res = Inr res"
| "tip_array E (b # bs) nCountMax nBranchMin res = (case FindFork E b of
     None \<Rightarrow> Inl (Undefined NullDeref)
   | Some f \<Rightarrow>
       let branchLen = nHeight (blockAt E b) - nHeight (blockAt E f) in
       if branchLen < nBranchMin then tip_array E bs nCountMax nBranchMin res
       else if nCountMax = i32_min then Inl (Undefined SignedOverflow)
       else if nCountMax < 1 then Inr res
       else tip_array E bs (nCountMax - 1) nBranchMin (res @ [tip_object E branchLen b]))"

text \<open>
  Without an active tip a null pointer is compared, or, in an empty set, dereferenced once the
  arguments have been read.
\<close>

definition getchaintips :: "'d chain_env \<Rightarrow> 'd univalue list \<Rightarrow> bool \<Rightarrow> 'd univalue rpc" where
  "getchaintips E params fHelp =
     help_if (fHelp \<or> length params > 2) ''getchaintips''
       (if Tip E = None \<and> block_tips E \<noteq> [] then Inl (Undefined NullDeref)
        else
          rbind (opt_arg (get_int E) params 0 i32_max) (\<lambda>nCountMax.
          rbind (opt_arg (get_int E) params 1 (- 1)) (\<lambda>nBranchMin.
          case Tip E of
            None \<Rightarrow> Inl (Undefined NullDeref)
          | Some t \<Rightarrow>
              rbind (tip_array E (cset_insert (CompareBlocksByHeight E) (block_tips E) t) nCountMax nBranchMin [])
                (\<lambda>res. Inr (VARR res)))))"

section \<open>Changing the validity of a block\<close>

datatype validation = Valid | Rejected string

text \<open>The state \<open>'w\<close> of the node, and what validation does to it.\<close>

record 'w validation_env =
  InvalidateBlock :: "'w \<Rightarrow> nat \<Rightarrow> validation \<times> 'w"
  ReconsiderBlock :: "'w \<Rightarrow> nat \<Rightarrow> validation \<times> 'w"
  ActivateBestChain :: "'w \<Rightarrow> validation \<times> 'w"

definition change_validity ::
    "'d chain_env \<Rightarrow> 'w validation_env \<Rightarrow> ('w \<Rightarrow> nat \<Rightarrow> validation \<times> 'w) \<Rightarrow> 'w \<Rightarrow> 'd univalue list \<Rightarrow>
     'd univalue rpc \<times> 'w" where
  "change_validity E V change w params = (case get_str E (params ! 0) of
     Inl e \<Rightarrow> (Inl e, w)
   | Inr strHash \<Rightarrow> (case find_block E strHash of
       Inl e \<Rightarrow> (Inl e, w)
     | Inr b \<Rightarrow>
         let (state, w) = change w b;
             (state, w) = (if state = Valid then ActivateBestChain V w else (state, w))
         in (case state of Valid \<Rightarrow> Inr VNULL | Rejected r \<Rightarrow> Inl (JSONRPCError RPC_DATABASE_ERROR r), w)))"

definition invalidateblock ::
    "'d chain_env \<Rightarrow> 'w validation_env \<Rightarrow> 'w \<Rightarrow> 'd univalue list \<Rightarrow> bool \<Rightarrow> 'd univalue rpc \<times> 'w" where
  "invalidateblock E V w params fHelp =
     (if fHelp \<or> length params \<noteq> 1 then (Inl (HelpText ''invalidateblock''), w)
      else change_validity E V (InvalidateBlock V) w params)"

definition reconsiderblock ::
    "'d chain_env \<Rightarrow> 'w validation_env \<Rightarrow> 'w \<Rightarrow> 'd univalue list \<Rightarrow> bool \<Rightarrow> 'd univalue rpc \<times> 'w" where
  "reconsiderblock E V w params fHelp =
     (if fHelp \<or> length params \<noteq> 1 then (Inl (HelpText ''reconsiderblock''), w)
      else change_validity E V (ReconsiderBlock V) w params)"

section \<open>Difficulty is a ratio of targets\<close>

text \<open>Arithmetic without rounding.\<close>

definition exact :: "rat fpu" where
  "exact = \<lparr>f_of = of_nat, f_div = (/), f_mul = (*)\<rparr>"

lemma shift_up_exact:
  "shift_up exact n d = (max n 29, d * 256 powi (29 - min n 29))"
proof (induction exact n d rule: shift_up.induct)
  case (1 n d)
  show ?case
  proof (cases "n < 29")
    case True
    then have "min (n + 1) 29 = n + 1" "min n 29 = n" by simp_all
    moreover have "(256 :: rat) powi (29 - n) = 256 powi (29 - (n + 1)) * 256"
      using power_int_add_1 [of "256 :: rat" "29 - (n + 1)"] by simp
    ultimately show ?thesis using True 1 by (subst shift_up.simps) (simp add: exact_def)
  next
    case False
    then show ?thesis by (subst shift_up.simps) (simp add: max_def)
  qed
qed

lemma shift_down_exact:
  "snd (shift_down exact n d) = d * 256 powi (29 - max n 29)"
proof (induction exact n d rule: shift_down.induct)
  case (1 n d)
  show ?case
  proof (cases "29 < n")
    case True
    then have "max (n - 1) 29 = n - 1" "max n 29 = n" by simp_all
    moreover have "(256 :: rat) powi (29 - (n - 1)) = 256 powi (29 - n) * 256"
      using power_int_add_1 [of "256 :: rat" "29 - n"] by (simp add: algebra_simps)
    ultimately show ?thesis using True 1 by (subst shift_down.simps) (simp add: exact_def)
  next
    case False
    then show ?thesis by (subst shift_down.simps) (simp add: max_def)
  qed
qed

text \<open>The number that the compact form \<open>nBits\<close> stands for.\<close>

definition target :: "u32 \<Rightarrow> rat" where
  "target b = of_nat (bits_mantissa b) * 256 powi (bits_shift b - 3)"

text \<open>
  C26: The difficulty is how many times the block's target fits into the largest one. In
  exact arithmetic \<open>GetDifficulty\<close> of a block is the target of the compact form \<open>0x1d00ffff\<close>
  divided by the target of the block's \<open>nBits\<close>, for every shift and every mantissa but 0, for
  which the code divides by zero.
\<close>

theorem difficulty_is_target_ratio:
  assumes "bits_mantissa (nBits (blockAt E b)) \<noteq> 0"
  shows "0 < target (nBits (blockAt E b)) \<and>
    GetDifficulty (E\<lparr>Fpu := exact\<rparr>) (Some b) = target 0x1d00ffff / target (nBits (blockAt E b))"
proof
  show "0 < target (nBits (blockAt E b))" using assms by (simp add: target_def)
  let ?n = "nBits (blockAt E b)" and ?q = "65535 / rat_of_nat (bits_mantissa (nBits (blockAt E b)))"
  have "GetDifficulty (E\<lparr>Fpu := exact\<rparr>) (Some b) =
      snd (shift_down exact (fst (shift_up exact (bits_shift ?n) ?q)) (snd (shift_up exact (bits_shift ?n) ?q)))"
    by (simp add: GetDifficulty_def block_difficulty_def exact_def case_prod_unfold Let_def)
  also have "\<dots> = ?q * 256 powi (29 - bits_shift ?n)"
    by (cases "bits_shift ?n \<le> 29") (simp_all add: shift_up_exact shift_down_exact min_def max_def)
  also have "(256 :: rat) powi (29 - bits_shift ?n) = 256 powi 26 / 256 powi (bits_shift ?n - 3)"
    using power_int_diff [of "256 :: rat" 26 "bits_shift ?n - 3"] by simp
  finally show "GetDifficulty (E\<lparr>Fpu := exact\<rparr>) (Some b) = target 0x1d00ffff / target (nBits (blockAt E b))"
    by (simp add: target_def bits_mantissa_def bits_shift_def)
qed

section \<open>The active chain\<close>

text \<open>What \<open>CChain\<close> documents of the queries, for a chain \<open>vs\<close> from the first block to the tip.\<close>

definition active_chain :: "'d chain_env \<Rightarrow> nat list \<Rightarrow> bool" where
  "active_chain E vs \<longleftrightarrow> vs \<noteq> [] \<and> distinct vs \<and> Tip E = Some (last vs) \<and> Height E = int (length vs) - 1 \<and>
     (\<forall>b. Contains E b \<longleftrightarrow> b \<in> set vs) \<and>
     (\<forall>b. b \<notin> set vs \<longrightarrow> NextBlock E b = None) \<and>
     (\<forall>i < length vs. NextBlock E (vs ! i) = (if Suc i < length vs then Some (vs ! Suc i) else None)) \<and>
     (\<forall>h. chainActive_at E h = (if 0 \<le> h \<and> h < int (length vs) then Some (vs ! nat h) else None)) \<and>
     (\<forall>i < length vs. nHeight (blockAt E (vs ! i)) = int i) \<and>
     (\<forall>i < length vs. pprev (blockAt E (vs ! i)) = (if i = 0 then None else Some (vs ! (i - 1))))"

lemma active_chain_tip: "active_chain E vs \<Longrightarrow> vs \<noteq> [] \<and> Tip E = Some (vs ! (length vs - 1))"
  by (simp add: active_chain_def last_conv_nth)

lemma active_chain_confirmations:
  "active_chain E vs \<Longrightarrow> i < length vs \<Longrightarrow> confirmations E (vs ! i) = int (length vs - i)"
  by (auto simp: active_chain_def confirmations_def of_nat_diff)

lemma headers_loop_chain:
  assumes "active_chain E vs" "i < length vs" "0 < n"
  shows "headers_loop (NextBlock E) json (Some (vs ! i)) n = map json (take (nat n) (drop i vs))"
  using assms(2,3)
proof (induction "nat n" arbitrary: i n)
  case (Suc m)
  have d: "drop i vs = vs ! i # drop (Suc i) vs" using Suc.prems(1) by (simp add: Cons_nth_drop_Suc)
  have n: "nat n = Suc (nat (n - 1))" using Suc.prems(2) by simp
  have nx: "NextBlock E (vs ! i) = (if Suc i < length vs then Some (vs ! Suc i) else None)"
    using assms(1) Suc.prems(1) by (simp add: active_chain_def)
  show ?case
  proof (cases "n - 1 \<le> 0 \<or> length vs \<le> Suc i")
    case True
    then show ?thesis using d n nx by (subst headers_loop.simps) (auto simp: headers_loop.simps)
  next
    case False
    then show ?thesis
      using Suc.hyps(1) [of "n - 1" "Suc i"] Suc.hyps(2) d n nx by (subst headers_loop.simps) simp
  qed
qed simp

lemma headers_loop_side: "NextBlock E b = None \<Longrightarrow> headers_loop (NextBlock E) json (Some b) n = [json b]"
  by (simp add: headers_loop.simps)

text \<open>A chain of three blocks, addresses 10 to 12, and a block 20 beside the last one.\<close>

definition demo_block :: "nat \<Rightarrow> int \<Rightarrow> nat option \<Rightarrow> CBlockIndex" where
  "demo_block b h p = \<lparr>blockHash = of_nat b, nHeight = h, nVersion = h + 1, hashMerkleRoot = 0, nTime = 0,
     nNonce = 0, nBits = 0x1d00ffff, nChainWork = 0, pprev = p, nStatus = (if b = 10 then 0 else 8), nTx = 1, nChainTx = 1\<rparr>"

definition demo_hex :: "uint256 \<Rightarrow> string" where
  "demo_hex h = (if h = 10 then ''a'' else if h = 11 then ''b'' else if h = 12 then ''c'' else ''d'')"

definition demo_unhex :: "string \<Rightarrow> uint256" where
  "demo_unhex s = (if s = ''a'' then 10 else if s = ''b'' then 11 else if s = ''c'' then 12 else 20)"

definition demo_chain :: "rat chain_env" where
  "demo_chain = uni_reader.extend plain_reader (chain_env.fields exact
     (\<lambda>b. if b = 10 then demo_block 10 0 None else if b = 11 then demo_block 11 1 (Some 10)
        else if b = 12 then demo_block 12 2 (Some 11) else demo_block b 2 (Some 11))
     [(20, 20), (10, 10), (12, 12), (11, 11)] (Some 12) 2 (\<lambda>b. b \<in> {10, 11, 12})
     (\<lambda>b. if b = 10 then Some 11 else if b = 11 then Some 12 else None)
     (\<lambda>h. if 0 \<le> h \<and> h < 3 then Some ([10, 11, 12] ! nat h) else None)
     (\<lambda>b. if b = 20 then Some 11 else Some b) None (\<lambda>b. 0) (\<lambda>b. True) (\<lambda>b. True) 8 96 (\<lambda>b. [])
     demo_hex demo_unhex (\<lambda>b. []) 2000 (\<lambda>a. VNUM (sint a)))"

lemma demo_chain_simps [simp]:
  "get_str demo_chain = get_str plain_reader" "get_int demo_chain = get_int plain_reader"
  "get_bool demo_chain = get_bool plain_reader" "MAX_HEADERS_RESULTS demo_chain = 2000"
  "Tip demo_chain = Some 12" "Height demo_chain = 2"
  "mapBlockIndex demo_chain = [(20, 20), (10, 10), (12, 12), (11, 11)]"
  "uint256S demo_chain = demo_unhex" "GetHex demo_chain = demo_hex"
  "FindFork demo_chain b = (if b = 20 then Some 11 else Some b)"
  "BLOCK_HAVE_DATA demo_chain = 8"
  by (simp_all add: demo_chain_def uni_reader.defs chain_env.defs)

theorem difficulty_is_target_ratio_witness:
  "GetDifficulty ((demo_chain\<lparr>blockAt := (\<lambda>b. (blockAt demo_chain b)\<lparr>nBits := 0x1b00ffff\<rparr>)\<rparr>)\<lparr>Fpu := exact\<rparr>) (Some 12) = 65536"
proof -
  let ?E = "demo_chain\<lparr>blockAt := (\<lambda>b. (blockAt demo_chain b)\<lparr>nBits := 0x1b00ffff\<rparr>)\<rparr>"
  have "bits_mantissa (nBits (blockAt ?E 12)) \<noteq> 0" by (simp add: bits_mantissa_def)
  from difficulty_is_target_ratio [OF this] show ?thesis
    by (simp add: target_def bits_mantissa_def bits_shift_def)
qed

lemma BlockHeader_demo: "BlockHeader_hex demo_chain b = []"
  by (simp add: demo_chain_def uni_reader.defs chain_env.defs)

lemma demo_chain_blocks [simp]:
  "blockAt demo_chain b = (if b = 10 then demo_block 10 0 None else if b = 11 then demo_block 11 1 (Some 10)
     else if b = 12 then demo_block 12 2 (Some 11) else demo_block b 2 (Some 11))"
  by (simp add: demo_chain_def uni_reader.defs chain_env.defs)

lemma demo_active: "active_chain demo_chain [10, 11, 12]"
proof -
  have "i < 3 \<Longrightarrow> i = 0 \<or> i = 1 \<or> i = 2" for i :: nat by auto
  then show ?thesis
    by (auto simp: active_chain_def demo_block_def less_Suc_eq
        demo_chain_def uni_reader.defs chain_env.defs numeral_2_eq_2)
qed

text \<open>
  C8: headers follow the chain. From a block of the active chain \<open>getblockheaders\<close> returns the
  headers of that block and its successors in order, as many as were asked for and as there
  are, the first with the number of confirmations the position in the chain gives.
\<close>

theorem headers_follow_chain:
  assumes "active_chain E vs" "i < length vs" "1 \<le> length params" "length params \<le> 3"
    and "get_str E (params ! 0) = Inr s" "map_of (mapBlockIndex E) (uint256S E s) = Some (vs ! i)"
    and "opt_arg (get_int E) params 1 (MAX_HEADERS_RESULTS E) = Inr n" "0 < n" "n \<le> MAX_HEADERS_RESULTS E"
    and "opt_arg (get_bool E) params 2 True = Inr v"
  shows "getblockheaders E params False = Inr (VARR (map (header_json E v) (take (nat n) (drop i vs)))) \<and>
    confirmations E (vs ! i) = int (length vs - i)"
proof
  have "\<not> (length params < 1 \<or> length params > 3)" "\<not> (n \<le> 0 \<or> n > MAX_HEADERS_RESULTS E)"
    using assms(3,4,8,9) by auto
  then show "getblockheaders E params False = Inr (VARR (map (header_json E v) (take (nat n) (drop i vs))))"
    unfolding getblockheaders_def find_block_def
    using headers_loop_chain [OF assms(1,2,8)] by (simp add: assms(5,6,10) assms(7) [simplified])
qed (rule active_chain_confirmations [OF assms(1,2)])

theorem headers_follow_chain_witness:
  "getblockheaders demo_chain [VSTR ''b'', VNUM 5, VBOOL False] False = Inr (VARR [VSTR [], VSTR []])"
proof -
  have "opt_arg (get_int demo_chain) [VSTR ''b'', VNUM 5, VBOOL False] 1 (MAX_HEADERS_RESULTS demo_chain) = Inr 5"
    "opt_arg (get_bool demo_chain) [VSTR ''b'', VNUM 5, VBOOL False] 2 True = Inr False"
    by (simp_all add: opt_arg_def plain_reader_def i32_min_def i32_max_def)
  from headers_follow_chain [OF demo_active _ _ _ _ _ this(1) _ _ this(2), of 1 "''b''"]
  show ?thesis
    by (simp add: plain_reader_def demo_unhex_def header_json_def BlockHeader_demo)
qed

text \<open>
  A block is found under its height. \<open>getblockhash\<close> returns the hash of the block of the
  active chain at the height, refuses exactly the heights outside the chain, and
  \<open>getblockheader\<close> of the hash describes this very block.
\<close>

theorem height_to_header:
  assumes "active_chain E vs" "get_int E v = Inr h"
    and "\<forall>b \<in> set vs. map_of (mapBlockIndex E) (blockHash (blockAt E b)) = Some b"
    and "\<forall>x. uint256S E (GetHex E x) = x" "\<forall>s. get_str E (VSTR s) = Inr s"
  shows "if 0 \<le> h \<and> h < int (length vs)
    then \<exists>s. getblockhash E [v] False = Inr (VSTR s) \<and>
      getblockheader E [VSTR s] False = Inr (blockheaderToJSON E (vs ! nat h)) \<and> nHeight (blockAt E (vs ! nat h)) = h
    else getblockhash E [v] False = Inl (JSONRPCError RPC_INVALID_PARAMETER ''Block height out of range'')"
proof (cases "0 \<le> h \<and> h < int (length vs)")
  case True
  then have i: "nat h < length vs" by auto
  have "chainActive_at E h = Some (vs ! nat h)" "Height E = int (length vs) - 1"
    "nHeight (blockAt E (vs ! nat h)) = h"
    using assms(1) True i by (auto simp: active_chain_def)
  moreover have "map_of (mapBlockIndex E) (blockHash (blockAt E (vs ! nat h))) = Some (vs ! nat h)"
    using assms(3) i by simp
  ultimately show ?thesis using True assms(2,4,5)
    by (simp add: getblockhash_def getblockheader_def hash_json_def find_block_def header_json_def)
next
  case False
  then have "h < 0 \<or> h > Height E" using assms(1) by (auto simp: active_chain_def)
  then have "getblockhash E [v] False = Inl (JSONRPCError RPC_INVALID_PARAMETER ''Block height out of range'')"
    using assms(2) by (auto simp: getblockhash_def)
  then show ?thesis unfolding if_not_P [OF False] .
qed

definition demo_chain2 :: "rat chain_env" where
  "demo_chain2 = demo_chain\<lparr>GetHex := (\<lambda>x. replicate (unat x) (CHR ''x'')), uint256S := (\<lambda>s. of_nat (length s))\<rparr>"

theorem height_to_header_witness:
  "\<exists>s. getblockhash demo_chain2 [VNUM 1] False = Inr (VSTR s) \<and>
     getblockheader demo_chain2 [VSTR s] False = Inr (blockheaderToJSON demo_chain2 11) \<and> nHeight (blockAt demo_chain2 11) = 1"
proof -
  have "active_chain demo_chain2 [10, 11, 12]"
    using demo_active by (simp add: active_chain_def demo_chain2_def)
  moreover have "\<forall>b \<in> set [10, 11, 12]. map_of (mapBlockIndex demo_chain2) (blockHash (blockAt demo_chain2 b)) = Some b"
    by (simp add: demo_chain2_def demo_block_def)
  moreover have "get_int demo_chain2 (VNUM 1) = Inr 1" "\<forall>x. uint256S demo_chain2 (GetHex demo_chain2 x) = x"
    "\<forall>s. get_str demo_chain2 (VSTR s) = Inr s"
    by (simp_all add: demo_chain2_def plain_reader_def i32_min_def i32_max_def)
  ultimately show ?thesis using height_to_header [of demo_chain2 "[10, 11, 12]" "VNUM 1" 1] by simp
qed

section \<open>Counting versions\<close>

lemma majority_loop_count:
  assumes "active_chain E vs"
  shows "k \<le> length vs \<Longrightarrow> majority_loop E v w i (if k = 0 then None else Some (vs ! (k - 1))) n =
    n + int (length (filter (\<lambda>b. nVersion (blockAt E b) \<ge> v) (drop (k - nat (w - i)) (take k vs))))"
proof (induction k arbitrary: i n)
  case 0
  then show ?case by (simp add: majority_loop.simps)
next
  case (Suc k)
  have p: "pprev (blockAt E (vs ! k)) = (if k = 0 then None else Some (vs ! (k - 1)))"
    using assms Suc.prems by (simp add: active_chain_def)
  show ?case
  proof (cases "i < w")
    case True
    then have "nat (w - i) = Suc (nat (w - (i + 1)))" by simp
    then have d: "Suc k - nat (w - i) = k - nat (w - (i + 1))" by simp
    have t: "take (Suc k) vs = take k vs @ [vs ! k]" using Suc.prems by (simp add: take_Suc_conv_app_nth)
    have l: "length (take k vs) = k" using Suc.prems by simp
    have "drop (Suc k - nat (w - i)) (take (Suc k) vs) = drop (k - nat (w - (i + 1))) (take k vs) @ [vs ! k]"
      unfolding t d by (subst drop_append) (simp only: l, simp)
    moreover have "majority_loop E v w i (Some (vs ! k)) n =
        majority_loop E v w (i + 1) (if k = 0 then None else Some (vs ! (k - 1))) (if nVersion (blockAt E (vs ! k)) \<ge> v then n + 1 else n)"
      using True p by (subst majority_loop.simps) simp
    ultimately show ?thesis using Suc.IH [of "i + 1"] Suc.prems by simp
  next
    case False
    then show ?thesis by (simp add: majority_loop.simps)
  qed
qed

text \<open>
  Soft forks are counted over the last blocks. The number that \<open>SoftForkMajorityDesc\<close>
  reports for the tip is how many of the last \<open>nMajorityWindow\<close> blocks of the active chain (or
  of all of them, if there are fewer) have at least the version, and the status compares it.
\<close>

theorem majority_counts_window:
  assumes "active_chain E vs"
  shows "SoftForkMajorityDesc E v (Tip E) n P =
    (let found = int (length (filter (\<lambda>b. nVersion (blockAt E b) \<ge> v) (drop (length vs - nat (nMajorityWindow P)) vs)))
     in VOBJ [(''status'', VBOOL (n \<le> found)), (''found'', VNUM found),
          (''required'', VNUM n), (''window'', VNUM (nMajorityWindow P))])"
  using majority_loop_count [OF assms, of "length vs" v "nMajorityWindow P" 0 0] active_chain_tip [OF assms]
  by (simp add: SoftForkMajorityDesc_def Let_def)

theorem majority_counts_window_witness:
  "SoftForkMajorityDesc demo_chain 3 (Tip demo_chain) 2 \<lparr>nMajorityWindow = 2, nMajorityEnforceBlockUpgrade = 2,
     nMajorityRejectBlockOutdated = 2\<rparr> =
   VOBJ [(''status'', VBOOL False), (''found'', VNUM 1), (''required'', VNUM 2), (''window'', VNUM 2)]"
  using majority_counts_window [OF demo_active, of 3 2 "\<lparr>nMajorityWindow = 2, nMajorityEnforceBlockUpgrade = 2,
     nMajorityRejectBlockOutdated = 2\<rparr>"]
  by (simp add: demo_block_def)

section \<open>The height of pruning\<close>

definition have_data :: "'d chain_env \<Rightarrow> nat \<Rightarrow> bool" where
  "have_data E b \<longleftrightarrow> nStatus (blockAt E b) AND BLOCK_HAVE_DATA E \<noteq> 0"

lemma prune_loop_chain:
  assumes "active_chain E vs" "i < length vs"
  shows "\<exists>k \<le> i. prune_loop E (vs ! i) = Some (vs ! k) \<and> (\<forall>j. k \<le> j \<and> j < i \<longrightarrow> have_data E (vs ! j)) \<and>
    (k = 0 \<or> \<not> have_data E (vs ! (k - 1)))"
  using assms(2)
proof (induction i)
  case 0
  then have "pprev (blockAt E (vs ! 0)) = None" using assms(1) by (simp add: active_chain_def)
  then have "prune_loop E (vs ! 0) = Some (vs ! 0)" by (simp add: prune_loop.simps)
  then show ?case by blast
next
  case (Suc i)
  have p: "pprev (blockAt E (vs ! Suc i)) = Some (vs ! i)"
    using assms(1) Suc.prems by (simp add: active_chain_def)
  show ?case
  proof (cases "have_data E (vs ! i)")
    case True
    then have "prune_loop E (vs ! Suc i) = prune_loop E (vs ! i)"
      using p by (subst prune_loop.simps) (simp add: have_data_def)
    then show ?thesis using Suc True by (metis Suc_lessD le_SucI less_SucE)
  next
    case False
    then have "prune_loop E (vs ! Suc i) = Some (vs ! Suc i)"
      using p by (subst prune_loop.simps) (simp add: have_data_def)
    then show ?thesis using False by (intro exI [of _ "Suc i"]) auto
  qed
qed

text \<open>
  C38: the height of pruning is the lowest block kept. On a pruned node with an active chain
  \<open>getblockchaininfo\<close> returns, and \<open>pruneheight\<close> is the first height from which on every block
  below the tip has its data: the block before it, if there is one, has not.
\<close>

theorem pruneheight_is_lowest:
  assumes "active_chain E vs" "fPruneMode I"
  shows "\<exists>pairs k. getblockchaininfo E I [] False = Some (Inr (VOBJ (pairs @ [(''pruneheight'', VNUM (int k))]))) \<and>
    k < length vs \<and> (\<forall>j. k \<le> j \<and> j < length vs - 1 \<longrightarrow> have_data E (vs ! j)) \<and>
    (k = 0 \<or> \<not> have_data E (vs ! (k - 1)))"
proof -
  note tip = active_chain_tip [OF assms(1)]
  then have l: "length vs - 1 < length vs" by simp
  from prune_loop_chain [OF assms(1) l] obtain k where k: "k \<le> length vs - 1"
    "prune_loop E (vs ! (length vs - 1)) = Some (vs ! k)" "\<forall>j. k \<le> j \<and> j < length vs - 1 \<longrightarrow> have_data E (vs ! j)"
    "k = 0 \<or> \<not> have_data E (vs ! (k - 1))" by blast
  have kl: "k < length vs" using k(1) l by linarith
  then have "nHeight (blockAt E (vs ! k)) = int k" using assms(1) by (simp add: active_chain_def)
  then have "getblockchaininfo E I [] False =
      Some (Inr (VOBJ (info_pairs E I (vs ! (length vs - 1)) @ [(''pruneheight'', VNUM (int k))])))"
    using tip k(2) assms(2) by (simp add: getblockchaininfo_def)
  then show ?thesis
    by (intro exI [of _ "info_pairs E I (vs ! (length vs - 1))"] exI [of _ k] conjI k(3,4) kl)
qed

theorem pruneheight_is_lowest_witness:
  "\<exists>pairs k. getblockchaininfo demo_chain \<lparr>info_chain = ''main'', VerificationProgress = (\<lambda>b. 1), fPruneMode = True,
      info_consensus = \<lparr>nMajorityWindow = 2, nMajorityEnforceBlockUpgrade = 2, nMajorityRejectBlockOutdated = 2\<rparr>,
      csv_state = THRESHOLD_STARTED\<rparr> [] False = Some (Inr (VOBJ (pairs @ [(''pruneheight'', VNUM (int k))]))) \<and> k < 3"
  using pruneheight_is_lowest [OF demo_active, of "\<lparr>info_chain = ''main'', VerificationProgress = (\<lambda>b. 1), fPruneMode = True,
      info_consensus = \<lparr>nMajorityWindow = 2, nMajorityEnforceBlockUpgrade = 2, nMajorityRejectBlockOutdated = 2\<rparr>,
      csv_state = THRESHOLD_STARTED\<rparr>"]
  by (auto simp: eval_nat_numeral)

section \<open>The tips\<close>

interpretation by_height: comparator "CompareBlocksByHeight E" for E
  by unfold_locales (auto simp: CompareBlocksByHeight_def split: if_splits)

text \<open>The known blocks, those without a known successor, and the length of a branch.\<close>

definition known :: "'d chain_env \<Rightarrow> nat set" where
  "known E = snd ` set (mapBlockIndex E)"

definition childless :: "'d chain_env \<Rightarrow> nat set" where
  "childless E = {b \<in> known E. \<forall>c \<in> known E. pprev (blockAt E c) \<noteq> Some b}"

definition branch_len :: "'d chain_env \<Rightarrow> nat \<Rightarrow> int" where
  "branch_len E b = nHeight (blockAt E b) - nHeight (blockAt E (the (FindFork E b)))"

lemma fold_insert_tips:
  "set (fold (\<lambda>(h, p) s. cset_insert (CompareBlocksByHeight E) s p) ps s) = snd ` set ps \<union> set s"
  "sorted_wrt (CompareBlocksByHeight E) s \<Longrightarrow>
   sorted_wrt (CompareBlocksByHeight E) (fold (\<lambda>(h, p) s. cset_insert (CompareBlocksByHeight E) s p) ps s)"
  by (induction ps arbitrary: s) (auto simp: by_height.set_insert by_height.sorted_insert)

lemma fold_erase_tips:
  "set (fold (\<lambda>(h, p) s. case pprev (blockAt E p) of None \<Rightarrow> s | Some q \<Rightarrow> cset_erase (CompareBlocksByHeight E) s q) ps s) =
     {b \<in> set s. \<forall>c \<in> snd ` set ps. pprev (blockAt E c) \<noteq> Some b}"
  "sorted_wrt (CompareBlocksByHeight E) s \<Longrightarrow> sorted_wrt (CompareBlocksByHeight E)
     (fold (\<lambda>(h, p) s. case pprev (blockAt E p) of None \<Rightarrow> s | Some q \<Rightarrow> cset_erase (CompareBlocksByHeight E) s q) ps s)"
  by (induction ps arbitrary: s) (auto simp: by_height.set_erase by_height.sorted_erase split: option.splits)

lemma block_tips_spec: "set (block_tips E) = childless E" "sorted_wrt (CompareBlocksByHeight E) (block_tips E)"
  by (auto simp: block_tips_def Let_def fold_erase_tips fold_insert_tips childless_def known_def)

lemma tip_array_spec:
  assumes "\<forall>b \<in> set bs. FindFork E b \<noteq> None" "n \<noteq> i32_min"
  shows "tip_array E bs n l res =
    Inr (res @ map (\<lambda>b. tip_object E (branch_len E b) b) (take (nat n) (filter (\<lambda>b. l \<le> branch_len E b) bs)))"
  using assms
proof (induction bs arbitrary: n res)
  case (Cons b bs)
  then obtain f where f: "FindFork E b = Some f" by auto
  have ih: "tip_array E bs n' l res' =
      Inr (res' @ map (\<lambda>b. tip_object E (branch_len E b) b) (take (nat n') (filter (\<lambda>b. l \<le> branch_len E b) bs)))"
    if "n' = n \<or> 1 \<le> n \<and> n' = n - 1" for n' res'
    using that Cons.prems by (intro Cons.IH) (auto simp: i32_min_def)
  have bl: "branch_len E b = nHeight (blockAt E b) - nHeight (blockAt E f)" using f by (simp add: branch_len_def)
  show ?case
  proof (cases "branch_len E b < l \<or> n < 1")
    case True
    then show ?thesis using f bl ih [of n] Cons.prems(2) by (auto simp: Let_def)
  next
    case False
    then have "nat n = Suc (nat (n - 1))" by arith
    then show ?thesis using False f bl ih [of "n - 1"] Cons.prems(2) by (simp add: Let_def)
  qed
qed simp

text \<open>The tips to report: the known blocks without a successor, and the active tip.\<close>

definition tip_list :: "'d chain_env \<Rightarrow> nat \<Rightarrow> nat list" where
  "tip_list E t = cset_insert (CompareBlocksByHeight E) (block_tips E) t"

lemma tip_list_spec:
  "set (tip_list E t) = insert t (childless E)" "sorted_wrt (CompareBlocksByHeight E) (tip_list E t)"
  "distinct (tip_list E t)"
proof -
  show s: "sorted_wrt (CompareBlocksByHeight E) (tip_list E t)"
    unfolding tip_list_def by (rule by_height.sorted_insert [OF block_tips_spec(2)])
  then show "distinct (tip_list E t)" by (rule by_height.sorted_distinct)
  show "set (tip_list E t) = insert t (childless E)"
    unfolding tip_list_def by_height.set_insert block_tips_spec(1) ..
qed

text \<open>
  C7: the chain tips are exactly the ends of branches. \<open>getchaintips\<close> takes the known blocks
  that no known block has as its predecessor and the active tip, each once, the highest
  first, leaves out those with a branch shorter than asked for, and reports as many of the rest
  as asked for, with the length of the branch and the status.
\<close>

theorem getchaintips_exact:
  assumes "length params \<le> 2" "opt_arg (get_int E) params 0 i32_max = Inr n" "n \<noteq> i32_min"
    and "opt_arg (get_int E) params 1 (- 1) = Inr l" "Tip E = Some t"
    and "\<forall>b \<in> insert t (childless E). FindFork E b \<noteq> None"
  shows "\<exists>ts. set ts = insert t (childless E) \<and> distinct ts \<and> sorted_wrt (CompareBlocksByHeight E) ts \<and>
    getchaintips E params False = Inr (VARR (map (\<lambda>b. tip_object E (branch_len E b) b)
      (take (nat n) (filter (\<lambda>b. l \<le> branch_len E b) ts))))"
proof -
  have "\<forall>b \<in> set (tip_list E t). FindFork E b \<noteq> None" using assms(6) by (simp only: tip_list_spec(1))
  from tip_array_spec [OF this assms(3), of l "[]"]
  have "tip_array E (tip_list E t) n l [] = Inr (map (\<lambda>b. tip_object E (branch_len E b) b)
      (take (nat n) (filter (\<lambda>b. l \<le> branch_len E b) (tip_list E t))))"
    by simp
  moreover have "\<not> length params > 2" using assms(1) by simp
  ultimately have "getchaintips E params False = Inr (VARR (map (\<lambda>b. tip_object E (branch_len E b) b)
      (take (nat n) (filter (\<lambda>b. l \<le> branch_len E b) (tip_list E t)))))"
    unfolding getchaintips_def by (simp add: assms(2,5) assms(4) [simplified] tip_list_def)
  then show ?thesis using tip_list_spec [of E t] by blast
qed

lemma demo_childless: "childless demo_chain = {12, 20}"
  by (auto simp: childless_def known_def demo_block_def)

theorem getchaintips_exact_witness:
  "\<exists>ts. set ts = {12, 20 :: nat} \<and> distinct ts \<and> sorted_wrt (CompareBlocksByHeight demo_chain) ts \<and>
     getchaintips demo_chain [VNUM 5, VNUM 1] False = Inr (VARR (map (\<lambda>b. tip_object demo_chain (branch_len demo_chain b) b)
       (take 5 (filter (\<lambda>b. 1 \<le> branch_len demo_chain b) ts))))"
proof -
  have a: "opt_arg (get_int demo_chain) [VNUM 5, VNUM 1] 0 i32_max = Inr 5"
    "opt_arg (get_int demo_chain) [VNUM 5, VNUM 1] 1 (- 1) = Inr 1"
    by (simp_all add: opt_arg_def plain_reader_def i32_min_def i32_max_def)
  have b: "insert 12 (childless demo_chain) = {12, 20}" by (auto simp: demo_childless)
  have "length [VNUM 5, VNUM 1 :: rat univalue] \<le> 2" "(5 :: int) \<noteq> i32_min" "Tip demo_chain = Some 12"
    "\<forall>b \<in> insert 12 (childless demo_chain). FindFork demo_chain b \<noteq> None"
    by (simp_all add: i32_min_def)
  from getchaintips_exact [OF this(1) a(1) this(2) a(2) this(3,4)] show ?thesis unfolding b by simp
qed

text \<open>
  Exactly one tip is active. If the known blocks include the active chain and every
  known block's fork is known, then of the tips reported only the tip of the active chain has
  the status \<open>active\<close>, and its branch has length zero.
\<close>

theorem one_active_tip:
  assumes "active_chain E vs" "set vs \<subseteq> known E" "\<forall>b \<in> set vs. FindFork E b = Some b"
  shows "{b \<in> insert (last vs) (childless E). tip_status E b = ''active''} = {last vs} \<and> branch_len E (last vs) = 0"
proof -
  have "b = last vs" if "b \<in> set vs" "b \<in> childless E" for b
  proof -
    obtain i where i: "i < length vs" "b = vs ! i" using \<open>b \<in> set vs\<close> by (auto simp: in_set_conv_nth)
    have "\<not> Suc i < length vs"
    proof
      assume "Suc i < length vs"
      then have "vs ! Suc i \<in> known E" "pprev (blockAt E (vs ! Suc i)) = Some b"
        using assms(1,2) i by (auto simp: active_chain_def)
      then show False using \<open>b \<in> childless E\<close> by (auto simp: childless_def)
    qed
    then have "i = length vs - 1" using i by simp
    then show ?thesis using i assms(1) by (simp add: active_chain_def last_conv_nth)
  qed
  moreover have "tip_status E b = ''active'' \<longleftrightarrow> b \<in> set vs" for b
    using assms(1) by (auto simp: active_chain_def tip_status_def)
  moreover have "last vs \<in> set vs" using assms(1) by (simp add: active_chain_def)
  ultimately show ?thesis using assms(3) by (auto simp: branch_len_def)
qed

theorem one_active_tip_witness:
  "{b \<in> {12, 20}. tip_status demo_chain b = ''active''} = {12} \<and> branch_len demo_chain 12 = 0"
proof -
  have "set [10, 11, 12] \<subseteq> known demo_chain" by (auto simp: known_def)
  moreover have "insert 12 (childless demo_chain) = {12, 20}" by (auto simp: demo_childless)
  ultimately show ?thesis using one_active_tip [OF demo_active] by simp
qed

end
