(* ===== verification/RpcDocs.thy ===== *)
theory RpcDocs
  imports ChainRpc
begin

text \<open>
  The answers that the help texts of \<open>rpcclient.cpp\<close> document. A help text lists the members
  of an answer with their kinds; here that is a \<open>shape\<close>, and \<open>conforms\<close> tells whether a JSON
  value has it. The properties compare what each handler returns with what its help says.
\<close>

section \<open>Shapes of values\<close>

datatype shape =
    Numeric
  | Text
  | Boolean
  | OneOf "string list"
  | ArrayOf shape
  | ObjectOf shape
  | Object "(string \<times> shape) list" "(string \<times> shape) list"

text \<open>
  An object has each of the first members and may have each of the second, every member at
  most once, and no others.
\<close>

fun conforms :: "shape \<Rightarrow> 'd univalue \<Rightarrow> bool" where
  "conforms Numeric v = (case v of VNUM n \<Rightarrow> True | VREAL d \<Rightarrow> True | _ \<Rightarrow> False)"
| "conforms Text v = (case v of VSTR s \<Rightarrow> True | _ \<Rightarrow> False)"
| "conforms Boolean v = (case v of VBOOL b \<Rightarrow> True | _ \<Rightarrow> False)"
| "conforms (OneOf words) v = (case v of VSTR s \<Rightarrow> s \<in> set words | _ \<Rightarrow> False)"
| "conforms (ArrayOf sh) v = (case v of VARR vs \<Rightarrow> (\<forall>x \<in> set vs. conforms sh x) | _ \<Rightarrow> False)"
| "conforms (ObjectOf sh) v = (case v of VOBJ kvs \<Rightarrow> (\<forall>x \<in> set kvs. conforms sh (snd x)) | _ \<Rightarrow> False)"
| "conforms (Object req opt) v = (case v of VOBJ kvs \<Rightarrow>
     distinct (map fst kvs) \<and> set (map fst kvs) \<subseteq> set (map fst req) \<union> set (map fst opt) \<and>
     (\<forall>m \<in> set req. case map_of kvs (fst m) of None \<Rightarrow> False | Some u \<Rightarrow> conforms (snd m) u) \<and>
     (\<forall>m \<in> set opt. case map_of kvs (fst m) of None \<Rightarrow> True | Some u \<Rightarrow> conforms (snd m) u)
   | _ \<Rightarrow> False)"

lemma conforms_text [simp]: "conforms Text (VSTR s)"
  and conforms_numeric [simp]: "conforms Numeric (VNUM n)" "conforms Numeric (VREAL d)"
  and conforms_boolean [simp]: "conforms Boolean (VBOOL b)"
  by simp_all

section \<open>What the help texts say\<close>

definition doc_getblockcount :: shape where
  "doc_getblockcount = Numeric"

definition doc_getbestblockhash :: shape where
  "doc_getbestblockhash = Text"

definition doc_getdifficulty :: shape where
  "doc_getdifficulty = Numeric"

text \<open>Where a result depends on \<open>verbose\<close>, the shape does.\<close>

definition doc_getrawmempool :: "bool \<Rightarrow> shape" where
  "doc_getrawmempool verbose =
     (if \<not> verbose then ArrayOf Text
      else ObjectOf (Object
        [(''size'', Numeric), (''fee'', Numeric), (''modifiedfee'', Numeric), (''time'', Numeric),
         (''height'', Numeric), (''startingpriority'', Numeric), (''currentpriority'', Numeric),
         (''descendantcount'', Numeric), (''descendantsize'', Numeric), (''descendantfees'', Numeric),
         (''depends'', ArrayOf Text)] []))"

definition doc_getblockhashes :: shape where
  "doc_getblockhashes = ArrayOf Text"

definition doc_getblockhash :: shape where
  "doc_getblockhash = Text"

text \<open>
  The first block has no previous hash and the last one no next hash, which the texts do not
  say: these two members are optional.
\<close>

definition doc_getblockheader :: "bool \<Rightarrow> shape" where
  "doc_getblockheader verbose =
     (if verbose then Object
        [(''hash'', Text), (''confirmations'', Numeric), (''height'', Numeric), (''version'', Numeric),
         (''merkleroot'', Text), (''time'', Numeric), (''mediantime'', Numeric), (''nonce'', Numeric),
         (''bits'', Text), (''difficulty'', Numeric), (''chainwork'', Text)]
        [(''previousblockhash'', Text), (''nextblockhash'', Text)]
      else Text)"

definition doc_getblockheaders :: "bool \<Rightarrow> shape" where
  "doc_getblockheaders verbose = ArrayOf
     (if verbose then Object
        [(''hash'', Text), (''confirmations'', Numeric), (''height'', Numeric), (''version'', Numeric),
         (''merkleroot'', Text), (''time'', Numeric), (''mediantime'', Numeric), (''nonce'', Numeric),
         (''bits'', Text), (''difficulty'', Numeric), (''chainwork'', Text)]
        [(''previousblockhash'', Text), (''nextblockhash'', Text)]
      else Text)"

definition doc_getblock :: "bool \<Rightarrow> shape" where
  "doc_getblock verbose =
     (if verbose then Object
        [(''hash'', Text), (''confirmations'', Numeric), (''size'', Numeric), (''height'', Numeric),
         (''version'', Numeric), (''merkleroot'', Text), (''tx'', ArrayOf Text), (''time'', Numeric),
         (''mediantime'', Numeric), (''nonce'', Numeric), (''bits'', Text), (''difficulty'', Numeric),
         (''chainwork'', Text)]
        [(''previousblockhash'', Text), (''nextblockhash'', Text)]
      else Text)"

definition doc_gettxoutsetinfo :: shape where
  "doc_gettxoutsetinfo = Object
     [(''height'', Numeric), (''bestblock'', Text), (''transactions'', Numeric), (''txouts'', Numeric),
      (''bytes_serialized'', Numeric), (''hash_serialized'', Text), (''total_amount'', Numeric)] []"

definition doc_scriptPubKey :: shape where
  "doc_scriptPubKey = Object
     [(''asm'', Text), (''hex'', Text), (''reqSigs'', Numeric), (''type'', Text), (''addresses'', ArrayOf Text)] []"

definition doc_gettxout :: shape where
  "doc_gettxout = Object
     [(''bestblock'', Text), (''confirmations'', Numeric), (''value'', Numeric),
      (''scriptPubKey'', doc_scriptPubKey), (''version'', Numeric), (''coinbase'', Boolean)] []"

definition doc_verifychain :: shape where
  "doc_verifychain = Boolean"

definition doc_majority :: shape where
  "doc_majority = Object
     [(''status'', Boolean), (''found'', Numeric), (''required'', Numeric), (''window'', Numeric)] []"

definition doc_softfork :: shape where
  "doc_softfork = Object
     [(''id'', Text), (''version'', Numeric), (''enforce'', doc_majority), (''reject'', doc_majority)] []"

definition doc_bip9_softfork :: shape where
  "doc_bip9_softfork = Object
     [(''id'', Text), (''status'', OneOf [''defined'', ''started'', ''lockedin'', ''active'', ''failed''])] []"

text \<open>A node that does not prune has no \<open>pruneheight\<close>.\<close>

definition doc_getblockchaininfo :: shape where
  "doc_getblockchaininfo = Object
     [(''chain'', Text), (''blocks'', Numeric), (''headers'', Numeric), (''bestblockhash'', Text),
      (''difficulty'', Numeric), (''mediantime'', Numeric), (''verificationprogress'', Numeric),
      (''chainwork'', Text), (''pruned'', Boolean),
      (''softforks'', ArrayOf doc_softfork), (''bip9_softforks'', ArrayOf doc_bip9_softfork)]
     [(''pruneheight'', Numeric)]"

definition doc_getchaintips :: shape where
  "doc_getchaintips = ArrayOf (Object
     [(''height'', Numeric), (''hash'', Text), (''difficulty'', Numeric), (''chainwork'', Text),
      (''branchlen'', Numeric),
      (''status'', OneOf [''active'', ''valid-fork'', ''valid-headers'', ''headers-only'', ''invalid''])] [])"

definition doc_getmempoolinfo :: shape where
  "doc_getmempoolinfo = Object
     [(''size'', Numeric), (''bytes'', Numeric), (''usage'', Numeric), (''maxmempool'', Numeric),
      (''mempoolminfee'', Numeric)] []"

section \<open>What the handlers answer beyond it\<close>

text \<open>A status word that the code has and the help text has not.\<close>

primrec widen :: "string \<Rightarrow> shape \<Rightarrow> shape" where
  "widen w Numeric = Numeric"
| "widen w Text = Text"
| "widen w Boolean = Boolean"
| "widen w (OneOf words) = OneOf (w # words)"
| "widen w (ArrayOf sh) = ArrayOf (widen w sh)"
| "widen w (ObjectOf sh) = ObjectOf (widen w sh)"
| "widen w (Object req opt) = Object (map (map_prod id (widen w)) req) (map (map_prod id (widen w)) opt)"

text \<open>
  \<open>ScriptPubKeyToJSON\<close>, which is not part of the repository, gives the number of signatures
  and the addresses only of scripts of a standard form.
\<close>

definition any_scriptPubKey :: shape where
  "any_scriptPubKey = Object
     [(''asm'', Text), (''hex'', Text), (''type'', Text)] [(''reqSigs'', Numeric), (''addresses'', ArrayOf Text)]"

definition any_gettxout :: shape where
  "any_gettxout = Object
     [(''bestblock'', Text), (''confirmations'', Numeric), (''value'', Numeric),
      (''scriptPubKey'', any_scriptPubKey), (''version'', Numeric), (''coinbase'', Boolean)] []"

section \<open>The parts of the answers\<close>

text \<open>An amount is a number in JSON.\<close>

definition amounts_numeric :: "'d chain_env \<Rightarrow> bool" where
  "amounts_numeric E \<longleftrightarrow> (\<forall>a. conforms Numeric (ValueFromAmount E a))"

lemma blockheaderToJSON_conforms: "conforms (doc_getblockheader True) (blockheaderToJSON E b)"
  by (simp add: doc_getblockheader_def blockheaderToJSON_def link_pairs_def Let_def split: option.split)

lemma header_json_conforms: "conforms (doc_getblockheader fVerbose) (header_json E fVerbose b)"
  by (cases fVerbose) (simp_all add: header_json_def blockheaderToJSON_conforms, simp add: doc_getblockheader_def)

lemma blockToJSON_conforms: "conforms (doc_getblock True) (blockToJSON E TxToJSON tx_hash blk b False)"
  by (simp add: doc_getblock_def blockToJSON_def link_pairs_def block_tx_def Let_def split: option.split)

lemma entry_json_conforms: "amounts_numeric E \<Longrightarrow> \<exists>r. doc_getrawmempool True = ObjectOf r \<and> conforms r (entry_json E M e)"
  by (simp add: doc_getrawmempool_def entry_json_def amounts_numeric_def)

lemma SoftForkMajorityDesc_conforms: "conforms doc_majority (SoftForkMajorityDesc E v p n P)"
  by (simp add: doc_majority_def SoftForkMajorityDesc_def Let_def)

lemma headers_loop_all: "\<forall>b. P (json b) \<Longrightarrow> \<forall>x \<in> set (headers_loop nxt json p n). P x"
proof (induction nxt json p n rule: headers_loop.induct)
  case (1 nxt json p n)
  then show ?case by (subst headers_loop.simps) (auto split: option.splits)
qed

lemma doc_headers: "doc_getblockheaders fVerbose = ArrayOf (doc_getblockheader fVerbose)"
  by (simp add: doc_getblockheaders_def doc_getblockheader_def)

text \<open>Every tip that is not active is known to be invalid, without blocks, or valid so far.\<close>

definition tips_known :: "'d chain_env \<Rightarrow> bool" where
  "tips_known E \<longleftrightarrow> (\<forall>b. Contains E b \<or> nStatus (blockAt E b) AND BLOCK_FAILED_MASK E \<noteq> 0 \<or>
     nChainTx (blockAt E b) = 0 \<or> IsValidScripts E b \<or> IsValidTree E b)"

lemma tip_status_known:
  "tips_known E \<Longrightarrow> tip_status E b \<in> set [''active'', ''valid-fork'', ''valid-headers'', ''headers-only'', ''invalid'']"
  unfolding tips_known_def tip_status_def by (auto dest!: spec [where x = b])

definition doc_tip :: shape where
  "doc_tip = Object
     [(''height'', Numeric), (''hash'', Text), (''difficulty'', Numeric), (''chainwork'', Text),
      (''branchlen'', Numeric),
      (''status'', OneOf [''active'', ''valid-fork'', ''valid-headers'', ''headers-only'', ''invalid''])] []"

lemma doc_tips: "doc_getchaintips = ArrayOf doc_tip"
  by (simp add: doc_getchaintips_def doc_tip_def)

lemma tip_object_conforms: "tips_known E \<Longrightarrow> conforms doc_tip (tip_object E n b)"
  using tip_status_known [of E b] by (simp add: doc_tip_def tip_object_def)

lemma tip_object_widened: "conforms (widen ''unknown'' doc_tip) (tip_object E n b)"
  by (simp add: doc_tip_def tip_object_def tip_status_def)

lemma tip_array_conforms:
  assumes "\<And>k b. conforms sh (tip_object E k b)"
  shows "tip_array E bs n m res = Inr vs \<Longrightarrow> \<forall>x \<in> set res. conforms sh x \<Longrightarrow> \<forall>x \<in> set vs. conforms sh x"
proof (induction bs arbitrary: n res)
  case (Cons b bs)
  have step: "\<forall>x \<in> set (res @ [tip_object E k b]). conforms sh x" for k
    using Cons.prems(2) assms [of k b] by simp
  show ?case
  proof (cases "FindFork E b")
    case None
    then show ?thesis using Cons.prems(1) by simp
  next
    case (Some f)
    let ?k = "nHeight (blockAt E b) - nHeight (blockAt E f)"
    have eq: "tip_array E (b # bs) n m res =
        (if ?k < m then tip_array E bs n m res else if n = i32_min then Inl (Undefined SignedOverflow)
         else if n < 1 then Inr res else tip_array E bs (n - 1) m (res @ [tip_object E ?k b]))"
      by (simp only: tip_array.simps Some option.case Let_def)
    consider "tip_array E bs n m res = Inr vs" | "res = vs"
      | "tip_array E bs (n - 1) m (res @ [tip_object E ?k b]) = Inr vs"
      using Cons.prems(1) unfolding eq by (metis Inl_Inr_False sum.inject(2))
    then show ?thesis
    proof cases
      case 1
      then show ?thesis using Cons.prems(2) by (rule Cons.IH)
    next
      case 2
      then show ?thesis using Cons.prems(2) by (simp only:)
    next
      case 3
      then show ?thesis using step by (rule Cons.IH)
    qed
  qed
next
  case Nil
  then show ?case by (simp only: tip_array.simps sum.inject)
qed

lemma tips_conform:
  "tip_array E bs n m [] = Inr vs \<Longrightarrow> conforms (widen ''unknown'' doc_getchaintips) (VARR vs)"
  "tips_known E \<Longrightarrow> tip_array E bs n m [] = Inr vs \<Longrightarrow> conforms doc_getchaintips (VARR vs)"
  using tip_array_conforms [of "widen ''unknown'' doc_tip" E bs n m "[]" vs, OF tip_object_widened]
    tip_array_conforms [of doc_tip E bs n m "[]" vs, OF tip_object_conforms]
  by (simp_all add: doc_tips)

section \<open>Answers and their documentation\<close>

lemma getblockheader_documented:
  assumes "getblockheader E params h = Inr v" "opt_arg (get_bool E) params 1 True = Inr fVerbose"
  shows "conforms (doc_getblockheader fVerbose) v"
  using assms by (auto simp: getblockheader_def help_if_Inr rbind_Inr_iff header_json_conforms)

lemma getblockheaders_documented:
  assumes "getblockheaders E params h = Inr v" "opt_arg (get_bool E) params 2 True = Inr fVerbose"
  shows "conforms (doc_getblockheaders fVerbose) v"
  using assms
  by (auto simp: getblockheaders_def help_if_Inr rbind_Inr_iff doc_headers header_json_conforms split: if_splits
      dest!: bspec [OF headers_loop_all [where P = "conforms (doc_getblockheader fVerbose)"], rotated])

lemma getblock_documented:
  assumes "getblock E pr disk hex js txh params h = Inr v" "opt_arg (get_bool E) params 1 True = Inr fVerbose"
  shows "conforms (doc_getblock fVerbose) v"
  using assms
  by (auto simp: getblock_def help_if_Inr rbind_Inr_iff blockToJSON_conforms split: if_splits option.splits)
    (simp_all add: doc_getblock_def)

lemma getrawmempool_documented:
  assumes "getrawmempool E M params h = Inr v" "opt_arg (get_bool E) params 0 False = Inr fVerbose" "amounts_numeric E"
  shows "conforms (doc_getrawmempool fVerbose) v"
proof -
  have v: "v = mempoolToJSON E M fVerbose"
    using assms(1,2) by (auto simp: getrawmempool_def help_if_Inr rbind_Inr_iff)
  show ?thesis
  proof (cases fVerbose)
    case False
    then show ?thesis by (simp add: v mempoolToJSON_def doc_getrawmempool_def)
  next
    case True
    have "\<exists>r. doc_getrawmempool True = ObjectOf r" by (simp add: doc_getrawmempool_def)
    then obtain r where r: "doc_getrawmempool True = ObjectOf r" by blast
    have "conforms r (entry_json E M e)" for e
      using entry_json_conforms [OF assms(3), of M e] r by auto
    then show ?thesis using True by (simp add: v mempoolToJSON_def r)
  qed
qed

lemma gettxoutsetinfo_documented:
  "gettxoutsetinfo E (Some st) params h = Inr v \<Longrightarrow> amounts_numeric E \<Longrightarrow> conforms doc_gettxoutsetinfo v"
  by (auto simp: gettxoutsetinfo_def help_if_Inr amounts_numeric_def doc_gettxoutsetinfo_def)

definition scripts_conform :: "shape \<Rightarrow> 'd coins_env \<Rightarrow> bool" where
  "scripts_conform sh V \<longleftrightarrow> (\<forall>t c x. (pool_coins V t = Some c \<or> tip_coins V t = Some c) \<longrightarrow>
     x \<in> set (coins_vout c) \<longrightarrow> conforms sh (out_script_json x))"

lemma txout_json_conforms:
  "txout_json E V c x = Inr v \<Longrightarrow> amounts_numeric E \<Longrightarrow> conforms doc_scriptPubKey (out_script_json x) \<Longrightarrow>
   conforms doc_gettxout v"
  "txout_json E V c x = Inr v \<Longrightarrow> amounts_numeric E \<Longrightarrow> conforms any_scriptPubKey (out_script_json x) \<Longrightarrow>
   conforms any_gettxout v"
  by (auto simp: txout_json_def doc_gettxout_def any_gettxout_def amounts_numeric_def split: option.splits)

lemma gettxout_documented:
  assumes "gettxout E V params h = Inr v" "v \<noteq> VNULL" "amounts_numeric E"
  shows "scripts_conform doc_scriptPubKey V \<Longrightarrow> conforms doc_gettxout v"
    "scripts_conform any_scriptPubKey V \<Longrightarrow> conforms any_gettxout v"
proof -
  obtain b t n where "(case (if b then pool_coins V else tip_coins V) t of None \<Rightarrow> Inr VNULL
      | Some c \<Rightarrow> if n < 0 \<or> n \<ge> int (length (coins_vout c)) \<or> out_IsNull (coins_vout c ! nat n) then Inr VNULL
                  else txout_json E V c (coins_vout c ! nat n)) = Inr v"
    using assms(1) by (auto simp only: gettxout_def help_if_Inr rbind_Inr_iff)
  with assms(2) obtain c where c: "(if b then pool_coins V else tip_coins V) t = Some c"
      "\<not> n < 0" "n < int (length (coins_vout c))" "txout_json E V c (coins_vout c ! nat n) = Inr v"
    by (cases "(if b then pool_coins V else tip_coins V) t") (auto split: if_splits)
  then have "coins_vout c ! nat n \<in> set (coins_vout c)" by simp
  moreover have "pool_coins V t = Some c \<or> tip_coins V t = Some c" using c(1) by (simp split: if_splits)
  ultimately have s: "scripts_conform sh V \<Longrightarrow> conforms sh (out_script_json (coins_vout c ! nat n))" for sh
    unfolding scripts_conform_def by blast
  show "scripts_conform doc_scriptPubKey V \<Longrightarrow> conforms doc_gettxout v"
    "scripts_conform any_scriptPubKey V \<Longrightarrow> conforms any_gettxout v"
    by (rule txout_json_conforms [OF c(4) assms(3)], erule s)+
qed

lemma getchaintips_documented:
  assumes "getchaintips E params h = Inr v"
  shows "conforms (widen ''unknown'' doc_getchaintips) v" "tips_known E \<Longrightarrow> conforms doc_getchaintips v"
proof -
  obtain bs n m vs where vs: "tip_array E bs n m [] = Inr vs" "v = VARR vs"
    using assms(1) by (auto simp: getchaintips_def help_if_Inr rbind_Inr_iff split: if_splits option.splits)
  show "conforms (widen ''unknown'' doc_getchaintips) v" "tips_known E \<Longrightarrow> conforms doc_getchaintips v"
    using tips_conform(1) [OF vs(1)] tips_conform(2) [OF _ vs(1)] unfolding vs(2) .
qed

lemma getmempoolinfo_documented:
  "getmempoolinfo E M params h = Inr v \<Longrightarrow> amounts_numeric E \<Longrightarrow> conforms doc_getmempoolinfo v"
  by (auto simp: getmempoolinfo_def help_if_Inr mempoolInfoToJSON_def Let_def amounts_numeric_def
      doc_getmempoolinfo_def split: if_splits)

section \<open>The state of the chain\<close>

lemma SoftForkDesc_conforms: "conforms doc_softfork (SoftForkDesc E name version p P)"
  by (simp add: doc_softfork_def SoftForkDesc_def SoftForkMajorityDesc_conforms)

lemma BIP9SoftForkDesc_conforms:
  "conforms doc_bip9_softfork (BIP9SoftForkDesc name t) \<longleftrightarrow> t \<noteq> THRESHOLD_LOCKED_IN"
  by (cases t) (simp_all add: doc_bip9_softfork_def BIP9SoftForkDesc_def)

lemma widen_softfork: "widen w doc_softfork = doc_softfork"
  by (simp add: doc_softfork_def doc_majority_def)

lemma BIP9SoftForkDesc_widened: "conforms (widen ''locked_in'' doc_bip9_softfork) (BIP9SoftForkDesc name t)"
  by (cases t) (simp_all add: doc_bip9_softfork_def BIP9SoftForkDesc_def)

lemma info_pairs_conform:
  assumes "extra = [] \<or> extra = [(''pruneheight'', VNUM n)]"
  shows "conforms doc_getblockchaininfo (VOBJ (info_pairs E I t @ extra)) \<longleftrightarrow> csv_state I \<noteq> THRESHOLD_LOCKED_IN"
    "conforms (widen ''locked_in'' doc_getblockchaininfo) (VOBJ (info_pairs E I t @ extra))"
  using assms
  by (elim disjE; simp add: doc_getblockchaininfo_def info_pairs_def SoftForkDesc_conforms BIP9SoftForkDesc_conforms
      widen_softfork BIP9SoftForkDesc_widened)+

lemma getblockchaininfo_pairs:
  assumes "getblockchaininfo E I params h = Some (Inr v)"
  shows "\<exists>t extra n. v = VOBJ (info_pairs E I t @ extra) \<and> (extra = [] \<or> extra = [(''pruneheight'', VNUM n)])"
proof (cases "Tip E")
  case None
  then show ?thesis using assms by (simp add: getblockchaininfo_def split: if_splits)
next
  case (Some t)
  show ?thesis
  proof (cases "fPruneMode I")
    case True
    then show ?thesis using assms Some by (auto simp: getblockchaininfo_def bind_eq_Some_conv split: if_splits)
  next
    case False
    then have "v = VOBJ (info_pairs E I t @ [])"
      using assms Some by (simp add: getblockchaininfo_def split: if_splits)
    then show ?thesis by blast
  qed
qed

lemma getblockchaininfo_documented:
  assumes "getblockchaininfo E I params h = Some (Inr v)"
  shows "conforms doc_getblockchaininfo v \<longleftrightarrow> csv_state I \<noteq> THRESHOLD_LOCKED_IN"
    "conforms (widen ''locked_in'' doc_getblockchaininfo) v"
  using getblockchaininfo_pairs [OF assms] info_pairs_conform by blast+

section \<open>Properties\<close>

definition answers :: "shape \<Rightarrow> 'd univalue rpc \<Rightarrow> bool" where
  "answers sh r = (case r of Inl e \<Rightarrow> True | Inr v \<Rightarrow> conforms sh v)"

lemma answers_iff: "answers sh r \<longleftrightarrow> (\<forall>v. r = Inr v \<longrightarrow> conforms sh v)"
  by (cases r) (simp_all add: answers_def)

lemma plain_answers:
  "answers doc_getblockcount (getblockcount E params h)"
  "answers doc_getbestblockhash (getbestblockhash E params h)"
  "answers doc_getdifficulty (getdifficulty E params h)"
  "answers doc_getblockhash (getblockhash E params h)"
  "answers doc_getblockhashes (getblockhashes E index params h)"
  "answers doc_verifychain (verifychain E lv bl VerifyDB params h)"
  by (auto simp: answers_iff getblockcount_def getbestblockhash_def getdifficulty_def getblockhash_def
      getblockhashes_def verifychain_def hash_json_def help_if_Inr rbind_Inr_iff doc_getblockcount_def
      doc_getbestblockhash_def doc_getdifficulty_def doc_getblockhash_def doc_getblockhashes_def
      doc_verifychain_def split: if_splits option.splits)

lemma answersI: "(\<And>v. r = Inr v \<Longrightarrow> conforms sh v) \<Longrightarrow> answers sh r"
  by (simp add: answers_iff)

lemma verbose_answers:
  "opt_arg (get_bool E) params 1 True = Inr verbose \<Longrightarrow> answers (doc_getblockheader verbose) (getblockheader E params h)"
  "opt_arg (get_bool E) params 1 True = Inr verbose \<Longrightarrow>
     answers (doc_getblock verbose) (getblock E pruned disk hex js txh params h)"
  "opt_arg (get_bool E) params 2 True = Inr verbose \<Longrightarrow> answers (doc_getblockheaders verbose) (getblockheaders E params h)"
  by (rule answersI, erule (1) getblockheader_documented getblock_documented getblockheaders_documented)+

lemma pool_answers:
  assumes "amounts_numeric E"
  shows "answers doc_getmempoolinfo (getmempoolinfo E M params h)"
    "answers doc_gettxoutsetinfo (gettxoutsetinfo E (Some st) params h)"
    "opt_arg (get_bool E) params 0 False = Inr verbose \<Longrightarrow> answers (doc_getrawmempool verbose) (getrawmempool E M params h)"
    "scripts_conform doc_scriptPubKey V \<Longrightarrow> gettxout E V params h \<noteq> Inr VNULL \<Longrightarrow> answers doc_gettxout (gettxout E V params h)"
    "scripts_conform any_scriptPubKey V \<Longrightarrow> gettxout E V params h \<noteq> Inr VNULL \<Longrightarrow> answers any_gettxout (gettxout E V params h)"
  subgoal by (rule answersI, erule getmempoolinfo_documented) (rule assms)
  subgoal by (rule answersI, erule gettxoutsetinfo_documented) (rule assms)
  subgoal by (rule answersI, erule (1) getrawmempool_documented) (rule assms)
  subgoal by (rule answersI, rule gettxout_documented(1) [OF _ _ assms]) auto
  subgoal by (rule answersI, rule gettxout_documented(2) [OF _ _ assms]) auto
  done

lemma tips_answers:
  "answers (widen ''unknown'' doc_getchaintips) (getchaintips E params h)"
  "tips_known E \<Longrightarrow> answers doc_getchaintips (getchaintips E params h)"
  by (rule answersI, erule getchaintips_documented(1))
    (rule answersI, erule getchaintips_documented(2))

lemma info_answers:
  "getblockchaininfo E I params h = Some r \<Longrightarrow> answers (widen ''locked_in'' doc_getblockchaininfo) r"
  "csv_state I \<noteq> THRESHOLD_LOCKED_IN \<Longrightarrow> getblockchaininfo E I params h = Some r \<Longrightarrow> answers doc_getblockchaininfo r"
  using getblockchaininfo_documented by (blast intro: answersI)+

lemma no_stats: "gettxoutsetinfo E None params h = Inr v \<Longrightarrow> v = VOBJ []"
  by (auto simp: gettxoutsetinfo_def help_if_Inr)


text \<open>The chain of three blocks, with one unspent output and \<open>csv\<close> active.\<close>

definition demo_coins :: "rat coins_env" where
  "demo_coins =
     (let c = (\<lambda>t :: uint256. if t = 0 then Some \<lparr>coins_vout = [\<lparr>out_IsNull = False, out_nValue = 5,
            out_script_json = VOBJ [(''asm'', VSTR []), (''hex'', VSTR []), (''reqSigs'', VNUM 1),
              (''type'', VSTR ''pubkey''), (''addresses'', VARR [])]\<rparr>],
          coins_nHeight = 1, coins_nVersion = 1, coins_fCoinBase = True\<rparr> else None)
      in \<lparr>pool_coins = c, tip_coins = c, GetBestBlock = 12, MEMPOOL_HEIGHT = 0x7fffffff\<rparr>)"

definition demo_info :: "rat info_env" where
  "demo_info = \<lparr>info_chain = ''test'', VerificationProgress = (\<lambda>b. 1), fPruneMode = False,
     info_consensus = \<lparr>nMajorityWindow = 1000, nMajorityEnforceBlockUpgrade = 750, nMajorityRejectBlockOutdated = 950\<rparr>,
     csv_state = THRESHOLD_ACTIVE\<rparr>"

lemma demo_chain_documented: "amounts_numeric demo_chain" "scripts_conform any_scriptPubKey demo_coins"
  by (simp_all add: amounts_numeric_def scripts_conform_def demo_coins_def Let_def
      any_scriptPubKey_def demo_chain_def uni_reader.defs chain_env.defs)


end
