(* ===== verification/Gobject.thy ===== *)
theory Gobject
  imports Rpc Governance
begin

text \<open>
  The command \<open>gobject\<close>, \<open>ChainX-MN/rpcgovernance.cpp\<close>, over the governance manager of
  \<open>Governance\<close>. The operations of the manager that \<open>governance.h\<close> only declares, governance
  objects, votes, keys and the masternode list are fields of \<open>gobject_env\<close>. The file ends inside
  \<open>getcurrentvotes\<close>, and the beginning of the loop of \<open>vote-alias\<close> is missing: the missing
  parts are parameters, too. Types of definitions are left to inference where they only repeat the record.
\<close>

section \<open>Environment and state\<close>

datatype object_type = GOVERNANCE_OBJECT_PROPOSAL | GOVERNANCE_OBJECT_TRIGGER
  | GOVERNANCE_OBJECT_WATCHDOG | GOVERNANCE_OBJECT_OTHER

datatype vote_signal = VOTE_SIGNAL_NONE | VOTE_SIGNAL_FUNDING | VOTE_SIGNAL_VALID
  | VOTE_SIGNAL_DELETE | VOTE_SIGNAL_ENDORSED | VOTE_SIGNAL_CUSTOM string

datatype vote_outcome = VOTE_OUTCOME_NONE | VOTE_OUTCOME_YES | VOTE_OUTCOME_NO | VOTE_OUTCOME_ABSTAIN

record CMasternodeEntry =
  getAlias :: string
  getPrivKey :: string
  getTxHash :: string
  getOutputIndex :: string

text \<open>
  \<open>'m\<close> is the manager, \<open>'o\<close> a governance object, \<open>'p\<close> the collateral of a masternode, \<open>'v\<close> a
  vote, \<open>'k\<close> a pair of keys, \<open>'x\<close> a governance exception. \<open>Sign\<close> gives the signed vote or object.
\<close>

record ('d, 'm, 'o, 'p, 'v, 'k, 'x) gobject_env = "'d uni_reader" +
  ParseHashV :: "'d univalue \<Rightarrow> string \<Rightarrow> uint256 rpc"
  lexical_cast_int :: "string \<Rightarrow> int rpc"
  hash_ToString :: "uint256 \<Rightarrow> string"
  fmt_d :: "int \<Rightarrow> string"
  GetTime :: i64
  gov_ToString :: "'m \<Rightarrow> string"
  deserialize_hex :: "string \<Rightarrow> string"
  BlockchainSynced :: bool
  activeVin :: 'p
  activeKeys :: 'k
  no_vin :: 'p
  vin_ToStringShort :: "'p \<Rightarrow> string"
  mnodeman_Get :: "'p \<Rightarrow> 'p option"
  getEntries :: "CMasternodeEntry list"
  GetKeysFromSecret :: "string \<Rightarrow> 'k option"
  SetHex :: "string \<Rightarrow> uint256"
  ParseInt32 :: "string \<Rightarrow> int option"
  make_vin :: "uint256 \<Rightarrow> u32 \<Rightarrow> 'p"
  ConvertVoteSignal :: "string \<Rightarrow> vote_signal"
  ConvertVoteOutcome :: "string \<Rightarrow> vote_outcome"
  CGovernanceVote :: "'p \<Rightarrow> uint256 \<Rightarrow> vote_signal \<Rightarrow> vote_outcome \<Rightarrow> 'v"
  vote_Sign :: "'k \<Rightarrow> 'v \<Rightarrow> 'v option"
  vote_GetHash :: "'v \<Rightarrow> uint256"
  vote_ToString :: "'v \<Rightarrow> string"
  CGovernanceException :: 'x
  GetMessage :: "'x \<Rightarrow> string"
  CGovernanceObject :: "uint256 \<Rightarrow> int \<Rightarrow> int \<Rightarrow> uint256 \<Rightarrow> string \<Rightarrow> 'o"
  GetObjectType :: "'o \<Rightarrow> object_type"
  obj_GetHash :: "'o \<Rightarrow> uint256"
  IsValidLocally :: "'o \<Rightarrow> bool \<Rightarrow> bool \<times> string"
  sign_object :: "'k \<Rightarrow> 'p \<Rightarrow> 'o \<Rightarrow> 'o"
  GetBudgetSystemCollateralTX :: "'o \<Rightarrow> uint256 option"
  GetDataAsHex :: "'o \<Rightarrow> string"
  GetDataAsString :: "'o \<Rightarrow> string"
  GetCollateralHash :: "'o \<Rightarrow> uint256"
  object_type_num :: "object_type \<Rightarrow> int"
  GetCreationTime :: "'o \<Rightarrow> int"
  GetMasternodeVin :: "'o \<Rightarrow> 'p"
  GetAbsoluteYesCount :: "'o \<Rightarrow> vote_signal \<Rightarrow> int"
  GetYesCount :: "'o \<Rightarrow> vote_signal \<Rightarrow> int"
  GetNoCount :: "'o \<Rightarrow> vote_signal \<Rightarrow> int"
  GetAbstainCount :: "'o \<Rightarrow> vote_signal \<Rightarrow> int"
  IsSetCachedValid :: "'o \<Rightarrow> bool"
  IsSetCachedFunding :: "'o \<Rightarrow> bool"
  IsSetCachedDelete :: "'o \<Rightarrow> bool"
  IsSetCachedEndorsed :: "'o \<Rightarrow> bool"
  MasternodeRateCheck :: "'m \<Rightarrow> 'o \<Rightarrow> bool \<Rightarrow> bool \<times> 'm"
  AddSeenGovernanceObject :: "'m \<Rightarrow> uint256 \<Rightarrow> 'm"
  AddGovernanceObject :: "'m \<Rightarrow> 'o \<Rightarrow> bool \<Rightarrow> 'm"
  GetAllNewerThan :: "'m \<Rightarrow> i64 \<Rightarrow> 'o list"
  FindGovernanceObject :: "'m \<Rightarrow> uint256 \<Rightarrow> 'o option"
  GetMatchingVotes :: "'m \<Rightarrow> uint256 \<Rightarrow> 'v list"
  lexical_cast_u32 :: "string \<Rightarrow> u32 rpc"
  currentvotes_rest :: "'m \<Rightarrow> uint256 \<Rightarrow> 'p \<Rightarrow> 'd univalue rpc"

text \<open>The manager, and the votes, objects and transactions sent to the network.\<close>

record ('m, 'o, 'v) gobject_state =
  gov :: 'm
  votes_sent :: "'v list"
  objects_sent :: "'o list"
  txs_sent :: "uint256 list"

definition bad_parameter :: "string \<Rightarrow> rpc_error" where
  "bad_parameter msg = JSONRPCError RPC_INVALID_PARAMETER msg"

section \<open>Voting\<close>

definition convert_vote where
  "convert_vote E (hash :: uint256) strVoteSignal strVoteOutcome =
     (let eVoteSignal = ConvertVoteSignal E strVoteSignal; eVoteOutcome = ConvertVoteOutcome E strVoteOutcome in
      if eVoteSignal = VOTE_SIGNAL_NONE then
        Inl (bad_parameter ''Invalid vote signal. Please using one of the following: (funding|valid|delete|endorsed) OR `custom sentinel code` '')
      else if eVoteOutcome = VOTE_OUTCOME_NONE then
        Inl (bad_parameter (''Invalid vote outcome. Please use one of the following: 'yes', 'no' or 'abstain'' @ [CHR 0x27]))
      else Inr (hash, eVoteSignal, eVoteOutcome))"

definition vote_arguments where
  "vote_arguments E params =
     rbind (ParseHashV E (params ! 1) ''Object hash'') (\<lambda>hash.
     rbind (get_str E (params ! 2)) (\<lambda>strVoteSignal.
     rbind (get_str E (params ! 3)) (\<lambda>strVoteOutcome.
     convert_vote E hash strVoteSignal strVoteOutcome)))"

definition status_failed :: "string \<Rightarrow> 'd univalue" where
  "status_failed msg = VOBJ [(''result'', VSTR ''failed''), (''errorMessage'', VSTR msg)]"

definition status_success :: "'d univalue" where
  "status_success = VOBJ [(''result'', VSTR ''success'')]"

definition vote_report where
  "vote_report (E :: ('d, 'm, 'o, 'p, 'v, 'k, 'x) gobject_env) nSuccessful nFailed results = VOBJ
     [(''overall'', VSTR (''Voted successfully '' @ fmt_d E nSuccessful @ '' time(s) and failed '' @
        fmt_d E nFailed @ '' time(s).'')),
      (''detail'', VOBJ results :: 'd univalue)]"

text \<open>
  One vote of one masternode: whether it succeeded, the status reported, and the new state.
  \<open>send_vote\<close> signs and sends, \<open>cast_vote\<close> looks the masternode up before. \<open>G\<close> is the
  environment of the manager.
\<close>

definition send_vote where
  "send_vote (E :: ('d, 'm, 'o, 'p, 'v, 'k, 'x) gobject_env) G st mn_vin keys hash sig outc =
     (case vote_Sign E keys (CGovernanceVote E mn_vin hash sig outc) of
        None \<Rightarrow> (False, status_failed ''Failure to sign.'' :: 'd univalue, st)
      | Some vote \<Rightarrow>
          let (fOK, m, exc, relayed) = ProcessVoteAndRelay G (gov st) vote (CGovernanceException E)
          in (fOK, if fOK then status_success else status_failed (GetMessage E exc),
              st\<lparr>gov := m, votes_sent := votes_sent st @ relayed\<rparr>))"

definition cast_vote where
  "cast_vote E G st vin keys hash sig outc = (case mnodeman_Get E vin of
     None \<Rightarrow> (False, status_failed ''Can't find masternode by collateral output'', st)
   | Some mn_vin \<Rightarrow> send_vote E G st mn_vin keys hash sig outc)"

definition vote_conf where
  "vote_conf E G st params =
     (if length params \<noteq> 4 then
        (Inl (bad_parameter (''Correct usage is 'gobject vote-conf <governance-hash> [funding|valid|delete] [yes|no|abstain]'' @ [CHR 0x27])), st)
      else case vote_arguments E params of
        Inl e \<Rightarrow> (Inl e, st)
      | Inr (hash, sig, outc) \<Rightarrow>
          let (ok, status, st) = cast_vote E G st (activeVin E) (activeKeys E) hash sig outc
          in (Inr (vote_report E (if ok then 1 else 0) (if ok then 0 else 1) [(''chainx.conf'', status)]), st))"

text \<open>
  One iteration of the loop over the configured masternodes (\<open>vote_loop\<close>): whether it succeeded, its status
  and the state. An output index that is no number ends the iteration without a result.
\<close>

definition vote_entry where
  "vote_entry (E :: ('d, 'm, 'o, 'p, 'v, 'k, 'x) gobject_env) G hash sig outc st mne = (case GetKeysFromSecret E (getPrivKey mne) of
     None \<Rightarrow> Some (False, status_failed ''Masternode signing error, could not set key correctly'', st)
   | Some keys \<Rightarrow> (case ParseInt32 E (getOutputIndex mne) of
       None \<Rightarrow> None
     | Some nOutputIndex \<Rightarrow>
         Some (cast_vote E G st (make_vin E (SetHex E (getTxHash mne)) (word_of_int nOutputIndex)) keys hash sig outc)))"

fun vote_loop ::
    "(('m, 'o, 'v) gobject_state \<Rightarrow> CMasternodeEntry \<Rightarrow> (bool \<times> 'd univalue \<times> ('m, 'o, 'v) gobject_state) option) \<Rightarrow>
     CMasternodeEntry list \<Rightarrow> int \<times> int \<times> (string \<times> 'd univalue) list \<times> ('m, 'o, 'v) gobject_state \<Rightarrow>
     int \<times> int \<times> (string \<times> 'd univalue) list \<times> ('m, 'o, 'v) gobject_state" where
  "vote_loop f [] (nSuccessful, nFailed, results, st) = (nSuccessful, nFailed, results, st)"
| "vote_loop f (mne # mnes) (nSuccessful, nFailed, results, st) =
     (case f st mne of
        None \<Rightarrow> vote_loop f mnes (nSuccessful, nFailed, results, st)
      | Some (ok, status, st) \<Rightarrow> vote_loop f mnes
          (if ok then nSuccessful + 1 else nSuccessful, if ok then nFailed else nFailed + 1,
           results @ [(getAlias mne, status)], st))"

definition vote_many where
  "vote_many E G st params =
     (if length params \<noteq> 4 then
        (Inl (bad_parameter (''Correct usage is 'gobject vote-many <governance-hash> [funding|valid|delete] [yes|no|abstain]'' @ [CHR 0x27])), st)
      else case vote_arguments E params of
        Inl e \<Rightarrow> (Inl e, st)
      | Inr (hash, sig, outc) \<Rightarrow>
          let (nSuccessful, nFailed, results, st) = vote_loop (vote_entry E G hash sig outc) (getEntries E) (0, 0, [], st)
          in (Inr (vote_report E nSuccessful nFailed results), st))"

text \<open>
  \<open>vote-alias\<close>. The file lacks the beginning of its loop; \<open>head\<close> is what it finds for an entry
  of the configuration: to pass over it, a failure with its message, or the masternode and its
  keys, which the rest of the loop uses.
\<close>

definition alias_arguments where
  "alias_arguments E params =
     rbind (ParseHashV E (params ! 1) ''Object hash'') (\<lambda>hash.
     rbind (get_str E (params ! 2)) (\<lambda>strVoteSignal.
     rbind (get_str E (params ! 3)) (\<lambda>strVoteOutcome.
     rbind (get_str E (params ! 4)) (\<lambda>strAlias.
     rbind (convert_vote E hash strVoteSignal strVoteOutcome) (\<lambda>(hash, sig, outc).
       Inr (strAlias, hash, sig, outc))))))"

definition alias_entry where
  "alias_entry E G head hash sig outc st mne = (case head mne of
     None \<Rightarrow> None
   | Some (Inl msg) \<Rightarrow> Some (False, status_failed msg, st)
   | Some (Inr (vin, keys)) \<Rightarrow> Some (send_vote E G st vin keys hash sig outc))"

definition vote_alias where
  "vote_alias E G head st params =
     (if length params \<noteq> 5 then
        (Inl (bad_parameter (''Correct usage is 'gobject vote-alias <governance-hash> [funding|valid|delete] [yes|no|abstain] <alias-name>'' @ [CHR 0x27])), st)
      else case alias_arguments E params of
        Inl e \<Rightarrow> (Inl e, st)
      | Inr (strAlias, hash, sig, outc) \<Rightarrow>
          let (nSuccessful, nFailed, results, st) = vote_loop (alias_entry E G (head strAlias) hash sig outc) (getEntries E) (0, 0, [], st)
          in (Inr (vote_report E nSuccessful nFailed results), st))"

section \<open>Objects\<close>

text \<open>The parent of an object: 0 stands for the root.\<close>

definition parent_hash where
  "parent_hash E v what =
     rbind (get_str E v) (\<lambda>s. if s = ''0'' then Inr 0 else ParseHashV E v what)"

definition object_arguments where
  "object_arguments E params hashParent txidFee =
     rbind (get_str E (params ! 2)) (\<lambda>strRevision.
     rbind (get_str E (params ! 3)) (\<lambda>strTime.
     rbind (lexical_cast_int E strRevision) (\<lambda>nRevision.
     rbind (lexical_cast_int E strTime) (\<lambda>nTime.
     rbind (get_str E (params ! 4)) (\<lambda>strData.
       Inr (CGovernanceObject E hashParent nRevision nTime txidFee strData))))))"

definition needs_masternode where
  "needs_masternode E govobj \<longleftrightarrow>
     GetObjectType E govobj = GOVERNANCE_OBJECT_TRIGGER \<or> GetObjectType E govobj = GOVERNANCE_OBJECT_WATCHDOG"

definition invalid_object where
  "invalid_object E govobj strError = JSONRPCError RPC_INTERNAL_ERROR
     (''Governance object is not valid - '' @ hash_ToString E (obj_GetHash E govobj) @ '' - '' @ strError)"

definition prepare_object where
  "prepare_object E params =
     rbind (parent_hash E (params ! 1) ''fee-txid, parameter 1'') (\<lambda>hashParent.
     object_arguments E params hashParent 0)"

definition gobject_prepare where
  "gobject_prepare (E :: ('d, 'm, 'o, 'p, 'v, 'k, 'x) gobject_env) st params =
     (if length params \<noteq> 5 then
        (Inl (bad_parameter (''Correct usage is 'gobject prepare <parent-hash> <revision> <time> <data-hex>'' @ [CHR 0x27])), st)
      else case prepare_object E params of
        Inl e \<Rightarrow> (Inl e, st)
      | Inr govobj \<Rightarrow>
          if needs_masternode E govobj then
            (Inl (bad_parameter ''Trigger and watchdog objects need not be prepared (however only masternodes can create them)''), st)
          else if \<not> fst (IsValidLocally E govobj False) then
            (Inl (invalid_object E govobj (snd (IsValidLocally E govobj False))), st)
          else case GetBudgetSystemCollateralTX E govobj of
            None \<Rightarrow> (Inl (JSONRPCError RPC_INTERNAL_ERROR
              ''Error making collateral transaction for governance object. Please check your wallet balance and make sure your wallet is unlocked.''), st)
          | Some txid \<Rightarrow> (Inr (VSTR (hash_ToString E txid) :: 'd univalue), st\<lparr>txs_sent := txs_sent st @ [txid]\<rparr>))"

text \<open>The object a submission is about, before it is signed.\<close>

definition submit_object where
  "submit_object E params =
     rbind (if length params = 6 then ParseHashV E (params ! 5) ''fee-txid, parameter 6'' else Inr 0) (\<lambda>txidFee.
     rbind (parent_hash E (params ! 1) ''parent object hash, parameter 2'') (\<lambda>hashParent.
     object_arguments E params hashParent txidFee))"

definition authorise where
  "authorise E params govobj =
     (if needs_masternode E govobj then
        case mnodeman_Get E (activeVin E) of
          Some mn_vin \<Rightarrow> Inr (sign_object E (activeKeys E) mn_vin govobj)
        | None \<Rightarrow> Inl (bad_parameter ''Only valid masternodes can submit this type of object'')
      else if length params \<noteq> 6 then
        Inl (bad_parameter ''The fee-txid parameter must be included to submit this type of object'')
      else Inr govobj)"

definition rate_exceeded :: rpc_error where
  "rate_exceeded = bad_parameter ''Object creation rate limit exceeded''"

text \<open>The rate is checked without, then with an update of the manager's buffer.\<close>

definition relay_object where
  "relay_object (E :: ('d, 'm, 'o, 'p, 'v, 'k, 'x) gobject_env) st govobj =
     (let (ok, m) = MasternodeRateCheck E (gov st) govobj False in
      if \<not> ok then (Inl rate_exceeded, st\<lparr>gov := m\<rparr>)
      else let (ok, m) = MasternodeRateCheck E m govobj True in
        if \<not> ok then (Inl rate_exceeded, st\<lparr>gov := m\<rparr>)
        else
          let m = AddSeenGovernanceObject E m (obj_GetHash E govobj);
              st = st\<lparr>gov := m, objects_sent := objects_sent st @ [govobj]\<rparr>;
              st = st\<lparr>gov := AddGovernanceObject E (gov st) govobj True\<rparr>
          in (Inr (VSTR (hash_ToString E (obj_GetHash E govobj)) :: 'd univalue), st))"

definition gobject_submit where
  "gobject_submit E st params =
     (if length params < 5 \<or> length params > 6 then
        (Inl (bad_parameter (''Correct usage is 'gobject submit <parent-hash> <revision> <time> <data-hex> <fee-txid>'' @ [CHR 0x27])), st)
      else if \<not> BlockchainSynced E then
        (Inl (JSONRPCError RPC_CLIENT_IN_INITIAL_DOWNLOAD
           ''Must wait for client to sync with masternode network. Try again in a minute or so.''), st)
      else case rbind (submit_object E params) (authorise E params) of
        Inl e \<Rightarrow> (Inl e, st)
      | Inr govobj \<Rightarrow>
          if \<not> fst (IsValidLocally E govobj True) then
            (Inl (invalid_object E govobj (snd (IsValidLocally E govobj True))), st)
          else relay_object E st govobj)"

section \<open>Queries\<close>

definition signing_pair where
  "signing_pair E ob = (if GetMasternodeVin E ob \<noteq> no_vin E
     then [(''SigningMasternode'', VSTR (vin_ToStringShort E (GetMasternodeVin E ob)))] else [])"

definition basic_pairs where
  "basic_pairs E ob =
     [(''DataHex'', VSTR (GetDataAsHex E ob)),
      (''DataString'', VSTR (GetDataAsString E ob)),
      (''Hash'', VSTR (hash_ToString E (obj_GetHash E ob))),
      (''CollateralHash'', VSTR (hash_ToString E (GetCollateralHash E ob))),
      (''ObjectType'', VNUM (object_type_num E (GetObjectType E ob))),
      (''CreationTime'', VNUM (GetCreationTime E ob))] @ signing_pair E ob"

definition count_pairs where
  "count_pairs E ob sig =
     [(''AbsoluteYesCount'', VNUM (GetAbsoluteYesCount E ob sig)),
      (''YesCount'', VNUM (GetYesCount E ob sig)),
      (''NoCount'', VNUM (GetNoCount E ob sig)),
      (''AbstainCount'', VNUM (GetAbstainCount E ob sig))]"

definition validity_pairs where
  "validity_pairs E ob name =
     [(name, VBOOL (fst (IsValidLocally E ob False))),
      (''IsValidReason'', VSTR (snd (IsValidLocally E ob False))),
      (''fCachedValid'', VBOOL (IsSetCachedValid E ob)),
      (''fCachedFunding'', VBOOL (IsSetCachedFunding E ob)),
      (''fCachedDelete'', VBOOL (IsSetCachedDelete E ob)),
      (''fCachedEndorsed'', VBOOL (IsSetCachedEndorsed E ob))]"

definition list_object where
  "list_object (E :: ('d, 'm, 'o, 'p, 'v, 'k, 'x) gobject_env) ob = (VOBJ (basic_pairs E ob @ count_pairs E ob VOTE_SIGNAL_FUNDING @
     validity_pairs E ob ''fBlockchainValidity'') :: 'd univalue)"

definition shown where
  "shown E strShow strType ob \<longleftrightarrow>
     \<not> (strShow = ''valid'' \<and> \<not> IsSetCachedValid E ob) \<and>
     \<not> (strType = ''proposals'' \<and> GetObjectType E ob \<noteq> GOVERNANCE_OBJECT_PROPOSAL) \<and>
     \<not> (strType = ''triggers'' \<and> GetObjectType E ob \<noteq> GOVERNANCE_OBJECT_TRIGGER) \<and>
     \<not> (strType = ''watchdogs'' \<and> GetObjectType E ob \<noteq> GOVERNANCE_OBJECT_WATCHDOG)"

definition list_types :: "string list" where
  "list_types = [''proposals'', ''triggers'', ''watchdogs'', ''all'']"

text \<open>The starting time is an \<open>int\<close>; it is converted back for the query.\<close>

definition list_objects where
  "list_objects E st strCommand strShow strType =
     (let nStartTime = (if strCommand = ''diff'' then sint (ucast (GetLastDiffTime (gov st)) :: 32 word) else 0);
          objs = GetAllNewerThan E (gov st) (word_of_int nStartTime);
          st = st\<lparr>gov := UpdateLastDiffTime (GetTime E) (gov st)\<rparr>
      in (Inr (VOBJ (map (\<lambda>ob. (hash_ToString E (obj_GetHash E ob), list_object E ob))
            (filter (shown E strShow strType) objs))) :: _ rpc, st))"

definition gobject_list where
  "gobject_list E st strCommand params =
     (if length params > 3 then
        (Inl (bad_parameter (''Correct usage is 'gobject [list|diff] [valid] [type]'' @ [CHR 0x27])), st)
      else case opt_arg (get_str E) params 1 ''valid'' of
        Inl e \<Rightarrow> (Inl e, st)
      | Inr strShow \<Rightarrow>
          if strShow \<noteq> ''valid'' \<and> strShow \<noteq> ''all'' then
            (Inr (VSTR (''Invalid mode, should be 'valid' or 'all'' @ [CHR 0x27])), st)
          else case opt_arg (get_str E) params 2 ''all'' of
            Inl e \<Rightarrow> (Inl e, st)
          | Inr strType \<Rightarrow>
              if strType \<notin> set list_types then
                (Inr (VSTR (''Invalid type, should be 'proposals', 'triggers', 'watchdogs' or 'all'' @ [CHR 0x27])), st)
              else list_objects E st strCommand strShow strType)"

definition get_object where
  "get_object (E :: ('d, 'm, 'o, 'p, 'v, 'k, 'x) gobject_env) ob = (VOBJ (basic_pairs E ob @
     [(''FundingResult'', VOBJ (count_pairs E ob VOTE_SIGNAL_FUNDING)),
      (''ValidResult'', VOBJ (count_pairs E ob VOTE_SIGNAL_VALID)),
      (''DeleteResult'', VOBJ (count_pairs E ob VOTE_SIGNAL_DELETE)),
      (''EndorsedResult'', VOBJ (count_pairs E ob VOTE_SIGNAL_ENDORSED))] @
     validity_pairs E ob ''fLocalValidity'') :: 'd univalue)"

definition find_object where
  "find_object E m v what unknown =
     rbind (ParseHashV E v what) (\<lambda>hash. case FindGovernanceObject E m hash of
       None \<Rightarrow> Inl (bad_parameter unknown) | Some ob \<Rightarrow> Inr (hash, ob))"

definition gobject_get where
  "gobject_get E m params =
     (if length params \<noteq> 2 then
        Inl (bad_parameter (''Correct usage is 'gobject get <governance-hash>'' @ [CHR 0x27]))
      else rbind (find_object E m (params ! 1) ''GovObj hash'' ''Unknown governance object'')
             (\<lambda>(hash, ob). Inr (get_object E ob)))"

definition gobject_getvotes where
  "gobject_getvotes (E :: ('d, 'm, 'o, 'p, 'v, 'k, 'x) gobject_env) m params =
     (if length params \<noteq> 2 then
        Inl (RuntimeError (''Correct usage is 'gobject getvotes <governance-hash>'' @ [CHR 0x27]))
      else rbind (find_object E m (params ! 1) ''Governance hash'' ''Unknown governance-hash'')
             (\<lambda>(hash, ob). Inr (VOBJ (map (\<lambda>v. (hash_ToString E (vote_GetHash E v), VSTR (vote_ToString E v) :: 'd univalue))
                (GetMatchingVotes E m hash)))))"

definition gobject_deserialize where
  "gobject_deserialize (E :: ('d, 'm, 'o, 'p, 'v, 'k, 'x) gobject_env) params =
     (if length params \<noteq> 2 then
        Inl (bad_parameter (''Correct usage is 'gobject deserialize <data-hex>'' @ [CHR 0x27]))
      else rbind (get_str E (params ! 1)) (\<lambda>strHex. Inr (VSTR (deserialize_hex E strHex) :: 'd univalue)))"

text \<open>\<open>getcurrentvotes\<close> up to the end of the file.\<close>

definition gobject_getcurrentvotes where
  "gobject_getcurrentvotes E m params =
     (if length params \<noteq> 2 \<and> length params \<noteq> 4 then
        Inl (RuntimeError (''Correct usage is 'gobject getcurrentvotes <governance-hash> [txid vout_index]'' @ [CHR 0x27]))
      else rbind (ParseHashV E (params ! 1) ''Governance hash'') (\<lambda>hash.
           rbind (if length params = 4 then
               rbind (ParseHashV E (params ! 2) ''Masternode Collateral hash'') (\<lambda>txid.
               rbind (get_str E (params ! 3)) (\<lambda>strVout.
               rbind (lexical_cast_u32 E strVout) (\<lambda>vout. Inr (make_vin E txid vout))))
             else Inr (no_vin E)) (\<lambda>mnCollateralOutpoint.
           currentvotes_rest E m hash mnCollateralOutpoint)))"

section \<open>The command\<close>

definition gobject_commands :: "string list" where
  "gobject_commands = [''vote-many'', ''vote-conf'', ''vote-alias'', ''prepare'', ''submit'', ''count'',
     ''deserialize'', ''get'', ''getvotes'', ''getcurrentvotes'', ''list'', ''diff'']"

definition gobject_run where
  "gobject_run E G head st strCommand params =
     (if strCommand = ''count'' then (Inr (VSTR (gov_ToString E (gov st))), st)
      else if strCommand = ''deserialize'' then (gobject_deserialize E params, st)
      else if strCommand = ''prepare'' then gobject_prepare E st params
      else if strCommand = ''submit'' then gobject_submit E st params
      else if strCommand = ''vote-conf'' then vote_conf E G st params
      else if strCommand = ''vote-many'' then vote_many E G st params
      else if strCommand = ''vote-alias'' then vote_alias E G head st params
      else if strCommand = ''list'' \<or> strCommand = ''diff'' then gobject_list E st strCommand params
      else if strCommand = ''get'' then (gobject_get E (gov st) params, st)
      else if strCommand = ''getvotes'' then (gobject_getvotes E (gov st) params, st)
      else (gobject_getcurrentvotes E (gov st) params, st))"

definition gobject where
  "gobject E G head st params fHelp = (case opt_arg (get_str E) params 0 [] of
     Inl e \<Rightarrow> (Inl e, st)
   | Inr strCommand \<Rightarrow>
       if fHelp \<or> strCommand \<notin> set gobject_commands then (Inl (HelpText ''gobject''), st)
       else gobject_run E G head st strCommand params)"

section \<open>Lemmas\<close>

lemma ProcessVoteAndRelay_relayed:
  "ProcessVoteAndRelay G m v x = (ok, m', x', relayed) \<Longrightarrow> relayed = (if ok then [v] else [])"
  by (auto simp: ProcessVoteAndRelay_def split: prod.splits if_splits)

text \<open>A vote that a masternode with these keys signs on what was asked.\<close>

definition signed_vote where
  "signed_vote E keys vin hash sig outc v \<longleftrightarrow> (\<exists>mn_vin. mnodeman_Get E vin = Some mn_vin \<and>
     vote_Sign E keys (CGovernanceVote E mn_vin hash sig outc) = Some v)"

lemma send_vote_cases:
  assumes "send_vote E G st mn_vin keys hash sig outc = (ok, status, st')"
  shows "objects_sent st' = objects_sent st \<and> txs_sent st' = txs_sent st \<and>
    (if ok then status = status_success \<and> (\<exists>v. votes_sent st' = votes_sent st @ [v] \<and>
         vote_Sign E keys (CGovernanceVote E mn_vin hash sig outc) = Some v)
     else votes_sent st' = votes_sent st \<and> (\<exists>msg. status = status_failed msg))"
  using assms
  by (auto simp: send_vote_def Let_def split: option.splits prod.splits if_splits
      dest!: ProcessVoteAndRelay_relayed)

lemma cast_vote_cases:
  assumes "cast_vote E G st vin keys hash sig outc = (ok, status, st')"
  shows "objects_sent st' = objects_sent st" "txs_sent st' = txs_sent st"
    "ok \<Longrightarrow> status = status_success \<and> (\<exists>v. votes_sent st' = votes_sent st @ [v] \<and> signed_vote E keys vin hash sig outc v)"
    "\<not> ok \<Longrightarrow> votes_sent st' = votes_sent st \<and> (\<exists>msg. status = status_failed msg)"
  using assms
  by (auto simp: cast_vote_def signed_vote_def split: option.splits dest!: send_vote_cases)

text \<open>The masternodes that get an entry in the report, and the collateral of one.\<close>

definition reported where
  "reported E mne \<longleftrightarrow> \<not> (GetKeysFromSecret E (getPrivKey mne) \<noteq> None \<and> ParseInt32 E (getOutputIndex mne) = None)"

definition entry_vin where
  "entry_vin E mne = make_vin E (SetHex E (getTxHash mne)) (word_of_int (the (ParseInt32 E (getOutputIndex mne))))"

lemma status_distinct [simp]: "status_failed msg \<noteq> status_success" "status_success \<noteq> status_failed msg"
  by (simp_all add: status_failed_def status_success_def)

lemma vote_entry_reported: "vote_entry E G hash sig outc st mne = None \<longleftrightarrow> \<not> reported E mne"
  by (auto simp: vote_entry_def reported_def split: option.splits)

text \<open>A vote that an entry of the configuration asks for.\<close>

definition entry_vote where
  "entry_vote E hash sig outc mne v \<longleftrightarrow> (\<exists>keys. GetKeysFromSecret E (getPrivKey mne) = Some keys \<and>
     signed_vote E keys (entry_vin E mne) hash sig outc v)"

text \<open>
  What a round of the loop does: an entry is passed over or counted, and a counted one that
  succeeds sends one vote that was asked for, while one that fails sends none.
\<close>

locale vote_round =
  fixes f :: "('m, 'o, 'v) gobject_state \<Rightarrow> CMasternodeEntry \<Rightarrow>
      (bool \<times> 'd univalue \<times> ('m, 'o, 'v) gobject_state) option"
    and counted :: "CMasternodeEntry \<Rightarrow> bool"
    and asked :: "CMasternodeEntry \<Rightarrow> 'v \<Rightarrow> bool"
  assumes passed_over: "f st mne = None \<longleftrightarrow> \<not> counted mne"
    and sends: "f st mne = Some (ok, status, st') \<Longrightarrow>
      (\<exists>vs. votes_sent st' = votes_sent st @ vs \<and> length vs = (if ok then 1 else 0) \<and> (\<forall>v \<in> set vs. asked mne v))"
    and status: "f st mne = Some (ok, status, st') \<Longrightarrow> status = status_success \<longleftrightarrow> ok"
    and rest: "f st mne = Some (ok, status, st') \<Longrightarrow> objects_sent st' = objects_sent st \<and> txs_sent st' = txs_sent st"
begin

lemma loop_spec:
  assumes "vote_loop f mnes (ns, nf, results, st) = (ns', nf', results', st')"
  shows "\<exists>new votes. results' = results @ new \<and> map fst new = map getAlias (filter counted mnes) \<and>
    ns' = ns + int (length (filter (\<lambda>r. snd r = status_success) new)) \<and>
    nf' = nf + int (length (filter (\<lambda>r. snd r \<noteq> status_success) new)) \<and>
    votes_sent st' = votes_sent st @ votes \<and> ns' = ns + int (length votes) \<and>
    (\<forall>v \<in> set votes. \<exists>mne \<in> set mnes. asked mne v) \<and>
    objects_sent st' = objects_sent st \<and> txs_sent st' = txs_sent st"
  using assms
proof (induction mnes arbitrary: ns nf results st)
  case (Cons mne mnes)
  show ?case
  proof (cases "f st mne")
    case None
    then have "vote_loop f mnes (ns, nf, results, st) = (ns', nf', results', st')"
      using Cons.prems by simp
    from Cons.IH [OF this] show ?thesis
      using None unfolding passed_over filter.simps(2) by (simp only: if_False list.set insert_iff bex_simps) blast
  next
    case (Some r)
    obtain ok status st1 where r: "r = (ok, status, st1)" by (metis prod_cases3)
    obtain vs where vs: "votes_sent st1 = votes_sent st @ vs" "length vs = (if ok then 1 else 0)"
      "\<forall>v \<in> set vs. asked mne v" using sends [OF Some [unfolded r]] by blast
    have "counted mne" using passed_over [of st mne] Some by simp
    moreover have "vote_loop f mnes (if ok then ns + 1 else ns, if ok then nf else nf + 1,
        results @ [(getAlias mne, status)], st1) = (ns', nf', results', st')"
      using Cons.prems Some r by simp
    from Cons.IH [OF this] obtain new votes where "results' = results @ (getAlias mne, status) # new"
      "map fst new = map getAlias (filter counted mnes)" "votes_sent st' = votes_sent st1 @ votes"
      "ns' = (if ok then ns + 1 else ns) + int (length (filter (\<lambda>r. snd r = status_success) new))"
      "nf' = (if ok then nf else nf + 1) + int (length (filter (\<lambda>r. snd r \<noteq> status_success) new))"
      "ns' = (if ok then ns + 1 else ns) + int (length votes)"
      "\<forall>v \<in> set votes. \<exists>mne \<in> set mnes. asked mne v"
      "objects_sent st' = objects_sent st1" "txs_sent st' = txs_sent st1" by auto
    ultimately show ?thesis using vs status [OF Some [unfolded r]] rest [OF Some [unfolded r]]
      by (intro exI [of _ "(getAlias mne, status) # new"] exI [of _ "vs @ votes"]) auto
  qed
qed simp

lemma loop_frame:
  assumes "vote_loop f mnes (ns, nf, results, st) = (ns', nf', results', st')"
  shows "objects_sent st' = objects_sent st" "txs_sent st' = txs_sent st"
  using loop_spec [OF assms] by auto

end

interpretation many: vote_round "vote_entry E G hash sig outc" "reported E" "entry_vote E hash sig outc"
  for E G hash sig outc
proof
  fix st mne ok status st'
  show "vote_entry E G hash sig outc st mne = None \<longleftrightarrow> \<not> reported E mne" by (rule vote_entry_reported)
  assume e: "vote_entry E G hash sig outc st mne = Some (ok, status, st')"
  have "(\<exists>vs. votes_sent st' = votes_sent st @ vs \<and> length vs = (if ok then 1 else 0) \<and>
      (\<forall>v \<in> set vs. entry_vote E hash sig outc mne v)) \<and> (status = status_success \<longleftrightarrow> ok) \<and>
      objects_sent st' = objects_sent st \<and> txs_sent st' = txs_sent st"
  proof (cases "GetKeysFromSecret E (getPrivKey mne)")
    case None
    then show ?thesis using e by (auto simp: vote_entry_def)
  next
    case (Some keys)
    then have c: "cast_vote E G st (entry_vin E mne) keys hash sig outc = (ok, status, st')"
      using e by (auto simp: vote_entry_def entry_vin_def split: option.splits)
    show ?thesis using cast_vote_cases [OF c] Some by (cases ok) (auto simp: entry_vote_def)
  qed
  then show "\<exists>vs. votes_sent st' = votes_sent st @ vs \<and> length vs = (if ok then 1 else 0) \<and>
      (\<forall>v \<in> set vs. entry_vote E hash sig outc mne v)" "status = status_success \<longleftrightarrow> ok"
    "objects_sent st' = objects_sent st \<and> txs_sent st' = txs_sent st" by blast+
qed

text \<open>A vote that \<open>vote-alias\<close> makes for an entry.\<close>

definition alias_vote where
  "alias_vote E head hash sig outc mne v \<longleftrightarrow> (\<exists>vin keys. head mne = Some (Inr (vin, keys)) \<and>
     vote_Sign E keys (CGovernanceVote E vin hash sig outc) = Some v)"

interpretation by_alias: vote_round "alias_entry E G head hash sig outc" "\<lambda>mne. head mne \<noteq> None" "alias_vote E head hash sig outc"
  for E G head hash sig outc
proof
  fix st mne ok status st'
  show "alias_entry E G head hash sig outc st mne = None \<longleftrightarrow> \<not> head mne \<noteq> None"
    by (cases "head mne") (simp_all add: alias_entry_def split: sum.split prod.split del: not_None_eq)
  assume e: "alias_entry E G head hash sig outc st mne = Some (ok, status, st')"
  then have "(\<exists>vs. votes_sent st' = votes_sent st @ vs \<and> length vs = (if ok then 1 else 0) \<and>
      (\<forall>v \<in> set vs. alias_vote E head hash sig outc mne v)) \<and> (status = status_success \<longleftrightarrow> ok) \<and>
      objects_sent st' = objects_sent st \<and> txs_sent st' = txs_sent st"
    by (auto simp: alias_entry_def alias_vote_def split: option.splits sum.splits if_splits dest!: send_vote_cases)
  then show "\<exists>vs. votes_sent st' = votes_sent st @ vs \<and> length vs = (if ok then 1 else 0) \<and>
      (\<forall>v \<in> set vs. alias_vote E head hash sig outc mne v)" "status = status_success \<longleftrightarrow> ok"
    "objects_sent st' = objects_sent st \<and> txs_sent st' = txs_sent st" by blast+
qed

section \<open>Properties\<close>

text \<open>
  C10: a vote by many masternodes is reported as it happened. When \<open>vote-many\<close> returns, its
  detail has one entry for each configured masternode (but for those with a valid key whose
  output index is no number), the numbers in its summary are those of the entries that
  succeeded and failed, exactly one vote was sent for each that succeeded, and every vote sent
  was signed with the key of a configured masternode for the object, signal and outcome asked.
\<close>

theorem vote_many_exact:
  assumes "vote_many E G st params = (Inr r, st')"
  shows "\<exists>hash sig outc results votes. vote_arguments E params = Inr (hash, sig, outc) \<and>
    r = vote_report E (int (length votes)) (int (length (filter (\<lambda>e. snd e \<noteq> status_success) results))) results \<and>
    map fst results = map getAlias (filter (reported E) (getEntries E)) \<and>
    length votes = length (filter (\<lambda>e. snd e = status_success) results) \<and>
    votes_sent st' = votes_sent st @ votes \<and>
    (\<forall>v \<in> set votes. \<exists>mne \<in> set (getEntries E). entry_vote E hash sig outc mne v)"
proof -
  have "length params = 4" using assms by (simp add: vote_many_def split: if_splits)
  moreover obtain hash sig outc where a: "vote_arguments E params = Inr (hash, sig, outc)"
    using assms by (auto simp: vote_many_def split: if_splits sum.splits)
  moreover obtain ns nf results st1 where l: "vote_loop (vote_entry E G hash sig outc) (getEntries E) (0, 0, [], st) = (ns, nf, results, st1)"
    by (metis prod_cases4)
  ultimately have r: "r = vote_report E ns nf results" "st' = st1" using assms by (simp_all add: vote_many_def)
  obtain votes where "map fst results = map getAlias (filter (reported E) (getEntries E))"
    "ns = int (length (filter (\<lambda>r. snd r = status_success) results))"
    "nf = int (length (filter (\<lambda>r. snd r \<noteq> status_success) results))"
    "votes_sent st1 = votes_sent st @ votes" "ns = int (length votes)"
    "\<forall>v \<in> set votes. \<exists>mne \<in> set (getEntries E). entry_vote E hash sig outc mne v"
    using many.loop_spec [OF l] by auto
  then show ?thesis using a r
    by (intro exI [of _ hash] exI [of _ sig] exI [of _ outc] exI [of _ results] exI [of _ votes]) auto
qed

text \<open>What the rate check may do to the manager.\<close>

definition rate_checked where
  "rate_checked E m ob m' \<longleftrightarrow> m' = snd (MasternodeRateCheck E m ob False) \<or>
     m' = snd (MasternodeRateCheck E (snd (MasternodeRateCheck E m ob False)) ob True)"

definition passes_rate where
  "passes_rate E m ob \<longleftrightarrow> fst (MasternodeRateCheck E m ob False) \<and>
     fst (MasternodeRateCheck E (snd (MasternodeRateCheck E m ob False)) ob True)"

lemma relay_object_cases:
  obtains (sent) st' where "relay_object E st ob = (Inr (VSTR (hash_ToString E (obj_GetHash E ob))), st')"
      "passes_rate E (gov st) ob" "objects_sent st' = objects_sent st @ [ob]"
      "votes_sent st' = votes_sent st" "txs_sent st' = txs_sent st"
  | (refused) st' where "relay_object E st ob = (Inl rate_exceeded, st')" "\<not> passes_rate E (gov st) ob"
      "st' = st\<lparr>gov := gov st'\<rparr>" "rate_checked E (gov st) ob (gov st')"
proof -
  obtain ok m where a: "MasternodeRateCheck E (gov st) ob False = (ok, m)" by fastforce
  obtain ok2 m2 where b: "MasternodeRateCheck E m ob True = (ok2, m2)" by fastforce
  note defs = relay_object_def passes_rate_def rate_checked_def a b Let_def
  show ?thesis
  proof (cases "ok \<and> ok2")
    case True
    then show ?thesis using sent by (simp add: defs)
  next
    case False
    then show ?thesis
      by (intro refused [of "st\<lparr>gov := (if ok then m2 else m)\<rparr>"]) (auto simp: defs)
  qed
qed

text \<open>
  C9: a governance object is submitted completely or not at all. Either \<open>submit\<close> reports an
  error, nothing is sent to the network and the manager is as before, but for a rate check;
  or exactly one object is sent, whose hash is returned, which is valid locally, passed the rate
  check and was authorised: a trigger or watchdog is signed by this node's registered
  masternode, any other object comes with the transaction of its fee.
\<close>

theorem submit_all_or_nothing:
  "case gobject_submit E st params of
     (Inl e, st') \<Rightarrow> objects_sent st' = objects_sent st \<and>
       (st' = st \<or> e = rate_exceeded \<and> (\<exists>ob. rate_checked E (gov st) ob (gov st')))
   | (Inr r, st') \<Rightarrow> \<exists>raw ob. submit_object E params = Inr raw \<and> r = VSTR (hash_ToString E (obj_GetHash E ob)) \<and>
       objects_sent st' = objects_sent st @ [ob] \<and> fst (IsValidLocally E ob True) \<and> passes_rate E (gov st) ob \<and>
       (if needs_masternode E raw
        then \<exists>mn_vin. mnodeman_Get E (activeVin E) = Some mn_vin \<and> ob = sign_object E (activeKeys E) mn_vin raw
        else length params = 6 \<and> ob = raw)"
proof (cases "rbind (submit_object E params) (authorise E params)")
  case (Inl e)
  then show ?thesis by (simp add: gobject_submit_def)
next
  case (Inr ob)
  then obtain raw where raw: "submit_object E params = Inr raw" "authorise E params raw = Inr ob"
    by (auto simp: rbind_Inr_iff)
  have au: "if needs_masternode E raw
      then \<exists>mn_vin. mnodeman_Get E (activeVin E) = Some mn_vin \<and> ob = sign_object E (activeKeys E) mn_vin raw
      else length params = 6 \<and> ob = raw"
    using raw(2) by (auto simp: authorise_def split: if_splits option.splits)
  show ?thesis
  proof (cases "length params < 5 \<or> length params > 6 \<or> \<not> BlockchainSynced E \<or> \<not> fst (IsValidLocally E ob True)")
    case True
    then show ?thesis using Inr by (auto simp: gobject_submit_def)
  next
    case False
    then have s: "gobject_submit E st params = relay_object E st ob" using Inr by (simp add: gobject_submit_def)
    show ?thesis
    proof (rule relay_object_cases [of E st ob])
      fix st' assume "relay_object E st ob = (Inr (VSTR (hash_ToString E (obj_GetHash E ob))), st')"
        "passes_rate E (gov st) ob" "objects_sent st' = objects_sent st @ [ob]"
      then show ?thesis unfolding s using raw(1) au False by auto
    next
      fix st' assume "relay_object E st ob = (Inl rate_exceeded, st')" "st' = st\<lparr>gov := gov st'\<rparr>"
        "rate_checked E (gov st) ob (gov st')"
      moreover from this(2) have "objects_sent st' = objects_sent st" by (metis gobject_state.simps(10) gobject_state.surjective gobject_state.update_convs(1) gobject_state.select_convs(3))
      ultimately show ?thesis unfolding s by auto
    qed
  qed
qed

lemma narrow_time:
  assumes "0 \<le> sint (t :: i64)" "sint t < 2147483648"
  shows "word_of_int (sint (ucast t :: 32 word)) = t"
proof -
  have u: "uint t = sint t" using assms(1) unat_eq_sint_i64 [of t] by (simp only: uint_nat)
  have "uint (ucast t :: 32 word) = take_bit 32 (uint t)" by (simp only: unsigned_ucast_eq) simp
  also have "\<dots> = sint t" unfolding u using assms by (intro take_bit_int_eq_self) simp_all
  finally have c: "uint (ucast t :: 32 word) = sint t" .
  have "sint (ucast t :: 32 word) = signed_take_bit (LENGTH(32) - Suc 0) (uint (ucast t :: 32 word))" by (rule sint_uint)
  also have "\<dots> = sint t" unfolding c using assms by (intro signed_take_bit_int_eq_self) simp_all
  finally show ?thesis by (simp only: word_of_int_sint)
qed

lemma gobject_list_cases:
  obtains (early) x where "gobject_list E st c params = (x, st)" "\<forall>objs. x \<noteq> Inr (VOBJ objs)"
  | (run) a b where "gobject_list E st c params = list_objects E st c a b"
proof (cases "length params > 3")
  case True
  then show ?thesis
    by (intro early [of "Inl (bad_parameter (''Correct usage is 'gobject [list|diff] [valid] [type]'' @ [CHR 0x27]))"])
      (simp_all add: gobject_list_def)
next
  case a: False
  show ?thesis
  proof (cases "opt_arg (get_str E) params 1 ''valid''")
    case (Inl e)
    then show ?thesis using a by (intro early [of "Inl e"]) (simp_all add: gobject_list_def)
  next
    case b: (Inr strShow)
    show ?thesis
    proof (cases "strShow \<noteq> ''valid'' \<and> strShow \<noteq> ''all''")
      case True
      then show ?thesis using a b
        by (intro early [of "Inr (VSTR (''Invalid mode, should be 'valid' or 'all'' @ [CHR 0x27]))"]) (simp_all add: gobject_list_def)
    next
      case s: False
      show ?thesis
      proof (cases "opt_arg (get_str E) params 2 ''all''")
        case (Inl e)
        then show ?thesis using a b s by (intro early [of "Inl e"]) (auto simp: gobject_list_def)
      next
        case ty: (Inr strType)
        have g: "gobject_list E st c params = (if strType \<notin> set list_types then
            (Inr (VSTR (''Invalid type, should be 'proposals', 'triggers', 'watchdogs' or 'all'' @ [CHR 0x27])), st)
          else list_objects E st c strShow strType)"
          unfolding gobject_list_def b ty sum.case if_not_P [OF a] if_not_P [OF s] by (rule refl)
        show ?thesis
        proof (cases "strType \<notin> set list_types")
          case True
          then show ?thesis unfolding g if_P [OF True] by (intro early [OF g [unfolded if_P [OF True]]]) simp
        next
          case False
          then show ?thesis by (intro run [OF g [unfolded if_not_P [OF False]]])
        qed
      qed
    qed
  qed
qed

lemma list_objects_state:
  "snd (list_objects E st c a b) = st\<lparr>gov := UpdateLastDiffTime (GetTime E) (gov st)\<rparr>"
  by (simp add: list_objects_def Let_def)

lemma gobject_list_state:
  "snd (gobject_list E st c params) = st \<or>
   snd (gobject_list E st c params) = st\<lparr>gov := UpdateLastDiffTime (GetTime E) (gov st)\<rparr>"
  using list_objects_state [of E st c] by (rule_tac gobject_list_cases [of E st c params]) auto

lemma gobject_list_done:
  assumes "gobject_list E st c params = (Inr (VOBJ objs), st1)"
  shows "gov st1 = UpdateLastDiffTime (GetTime E) (gov st)"
proof (rule gobject_list_cases [of E st c params])
  fix x assume "gobject_list E st c params = (x, st)" "\<forall>objs. x \<noteq> Inr (VOBJ objs)"
  moreover from this(1) have "x = Inr (VOBJ objs)" using assms by simp
  ultimately show ?thesis by blast
next
  fix a b assume "gobject_list E st c params = list_objects E st c a b"
  then have "snd (gobject_list E st c params) = snd (list_objects E st c a b)" by (rule arg_cong)
  then show ?thesis unfolding list_objects_state assms snd_conv by simp
qed

text \<open>
  A diff reports what is new since the last diff or the last list. Either command records
  the time, so that the next \<open>diff\<close> reports exactly the valid objects newer than that time (a
  time before 2038, which an \<open>int\<close> can hold).
\<close>

theorem diff_since_last_query:
  assumes "gobject_list E st c params = (Inr (VOBJ objs), st1)"
    and "0 \<le> sint (GetTime E)" "sint (GetTime E) < 2147483648"
  shows "fst (gobject_list E2 st1 ''diff'' []) = Inr (VOBJ (map (\<lambda>ob. (hash_ToString E2 (obj_GetHash E2 ob), list_object E2 ob))
     (filter (\<lambda>ob. IsSetCachedValid E2 ob) (GetAllNewerThan E2 (gov st1) (GetTime E)))))"
proof -
  have "GetLastDiffTime (gov st1) = GetTime E"
    using gobject_list_done [OF assms(1)] by (simp add: GetLastDiffTime_def UpdateLastDiffTime_def)
  then have "word_of_int (sint (ucast (GetLastDiffTime (gov st1)) :: 32 word)) = GetTime E"
    using narrow_time [OF assms(2,3)] by simp
  moreover have "shown E2 ''valid'' ''all'' = (\<lambda>ob. IsSetCachedValid E2 ob)"
    by (rule ext) (simp add: shown_def)
  ultimately show ?thesis by (simp add: gobject_list_def list_objects_def list_types_def Let_def)
qed

lemma frame_vote_conf: "objects_sent (snd (vote_conf E G st params)) = objects_sent st"
  "txs_sent (snd (vote_conf E G st params)) = txs_sent st"
proof -
  have "objects_sent (snd (vote_conf E G st params)) = objects_sent st \<and> txs_sent (snd (vote_conf E G st params)) = txs_sent st"
  proof (cases "length params \<noteq> 4 \<or> (\<exists>e. vote_arguments E params = Inl e)")
    case True
    then show ?thesis by (auto simp: vote_conf_def)
  next
    case False
    then obtain hash sig outc where a: "vote_arguments E params = Inr (hash, sig, outc)" "length params = 4"
      by (metis obj_sumE prod_cases3)
    obtain ok status st1 where c: "cast_vote E G st (activeVin E) (activeKeys E) hash sig outc = (ok, status, st1)"
      by (metis prod_cases3)
    show ?thesis using a c cast_vote_cases(1,2) [OF c] by (simp add: vote_conf_def)
  qed
  then show "objects_sent (snd (vote_conf E G st params)) = objects_sent st"
    "txs_sent (snd (vote_conf E G st params)) = txs_sent st" by simp_all
qed

lemma frame_vote_many: "objects_sent (snd (vote_many E G st params)) = objects_sent st"
  "txs_sent (snd (vote_many E G st params)) = txs_sent st"
proof -
  have "objects_sent (snd (vote_many E G st params)) = objects_sent st \<and> txs_sent (snd (vote_many E G st params)) = txs_sent st"
  proof (cases "length params \<noteq> 4 \<or> (\<exists>e. vote_arguments E params = Inl e)")
    case True
    then show ?thesis by (auto simp: vote_many_def)
  next
    case False
    then obtain hash sig outc where a: "vote_arguments E params = Inr (hash, sig, outc)" "length params = 4"
      by (metis obj_sumE prod_cases3)
    obtain ns nf results st1 where l: "vote_loop (vote_entry E G hash sig outc) (getEntries E) (0, 0, [], st) = (ns, nf, results, st1)"
      by (metis prod_cases4)
    show ?thesis using a l many.loop_frame [OF l] by (simp add: vote_many_def)
  qed
  then show "objects_sent (snd (vote_many E G st params)) = objects_sent st"
    "txs_sent (snd (vote_many E G st params)) = txs_sent st" by simp_all
qed

lemma frame_vote_alias: "objects_sent (snd (vote_alias E G head st params)) = objects_sent st"
  "txs_sent (snd (vote_alias E G head st params)) = txs_sent st"
proof -
  have "objects_sent (snd (vote_alias E G head st params)) = objects_sent st \<and> txs_sent (snd (vote_alias E G head st params)) = txs_sent st"
  proof (cases "length params \<noteq> 5 \<or> (\<exists>e. alias_arguments E params = Inl e)")
    case True
    then show ?thesis by (auto simp: vote_alias_def)
  next
    case False
    then obtain name hash sig outc where a: "alias_arguments E params = Inr (name, hash, sig, outc)" "length params = 5"
      by (metis obj_sumE prod_cases4)
    obtain ns nf results st1 where l: "vote_loop (alias_entry E G (head name) hash sig outc) (getEntries E) (0, 0, [], st) = (ns, nf, results, st1)"
      by (metis prod_cases4)
    show ?thesis using a l by_alias.loop_frame [OF l] by (simp add: vote_alias_def)
  qed
  then show "objects_sent (snd (vote_alias E G head st params)) = objects_sent st"
    "txs_sent (snd (vote_alias E G head st params)) = txs_sent st" by simp_all
qed

lemma frame_list: "votes_sent (snd (gobject_list E st c params)) = votes_sent st"
  "objects_sent (snd (gobject_list E st c params)) = objects_sent st"
  "txs_sent (snd (gobject_list E st c params)) = txs_sent st"
  using gobject_list_state [of E st c params] by auto

lemma frame_submit: "votes_sent (snd (gobject_submit E st params)) = votes_sent st"
  "txs_sent (snd (gobject_submit E st params)) = txs_sent st"
proof -
  have r: "votes_sent (snd (relay_object E st ob)) = votes_sent st \<and> txs_sent (snd (relay_object E st ob)) = txs_sent st" for ob
    by (simp add: relay_object_def Let_def split: prod.splits)
  show "votes_sent (snd (gobject_submit E st params)) = votes_sent st"
    "txs_sent (snd (gobject_submit E st params)) = txs_sent st"
    by (cases "rbind (submit_object E params) (authorise E params)"; simp add: gobject_submit_def r)+
qed

lemma frame_prepare: "votes_sent (snd (gobject_prepare E st params)) = votes_sent st"
  "objects_sent (snd (gobject_prepare E st params)) = objects_sent st" "gov (snd (gobject_prepare E st params)) = gov st"
  by (cases "prepare_object E params"; simp add: gobject_prepare_def split: option.split)+

lemmas gobject_frames = frame_vote_conf frame_vote_many frame_vote_alias frame_list frame_submit frame_prepare

text \<open>
  Each subcommand does only what it is for. Whatever the arguments, votes are sent only by
  the three vote commands, objects only by \<open>submit\<close>, transactions only by
  \<open>prepare\<close>; all other subcommands, unknown ones and the help leave the state alone but for the
  time of the last diff, which \<open>list\<close> and \<open>diff\<close> set.
\<close>

theorem gobject_frame:
  assumes "opt_arg (get_str E) params 0 [] = Inr c"
  shows "(c \<in> {''vote-conf'', ''vote-many'', ''vote-alias''} \<or> votes_sent (snd (gobject E G head st params fHelp)) = votes_sent st) \<and>
    (c = ''submit'' \<or> objects_sent (snd (gobject E G head st params fHelp)) = objects_sent st) \<and>
    (c = ''prepare'' \<or> txs_sent (snd (gobject E G head st params fHelp)) = txs_sent st) \<and>
    (c \<in> {''vote-conf'', ''vote-many'', ''vote-alias'', ''submit'', ''list'', ''diff''} \<or> gov (snd (gobject E G head st params fHelp)) = gov st)"
proof (cases "fHelp \<or> c \<notin> set gobject_commands")
  case True
  then show ?thesis using assms by (simp add: gobject_def)
next
  case False
  have g: "gobject E G head st params fHelp = gobject_run E G head st c params"
    unfolding gobject_def assms sum.case if_not_P [OF False] by (rule refl)
  show ?thesis unfolding g gobject_run_def by (simp add: gobject_frames)
qed

section \<open>Examples\<close>

text \<open>
  Two configured masternodes with collateral 1 and one with an index that is no number; a
  vote and a key are numbers, and the manager refuses no vote.
\<close>

type_synonym demo_mgr = "(unit, nat, unit, unit, unit) CGovernanceManager"

definition demo_mgr :: demo_mgr where
  "demo_mgr = \<lparr>pCurrentBlockIndex = None, nTimeLastDiff = 0, nCachedBlockHeight = 0, mapObjects = [], mapSeenGovernanceObjects = [],
     mapMasternodeOrphanObjects = [], mapWatchdogObjects = [], nHashWatchdogCurrent = 0,
     nTimeWatchdogCurrent = 0, mapVoteToObject = (), mapInvalidVotes = (), mapOrphanVotes = (),
     mapLastMasternodeObject = [], setRequestedObjects = [], setRequestedVotes = [], fRateChecksEnabled = True\<rparr>"

definition demo_gov_env :: "(unit, nat, unit, unit, unit, nat, unit) gov_env" where
  "demo_gov_env = \<lparr>vo_clear = id, vi_clear = id, vm_clear = id, vi_insert = (\<lambda>m h v. m), vm_insert = (\<lambda>m h v. m),
     vote_hash = of_nat, GetAdjustedTime = 0, GOVERNANCE_ORPHAN_EXPIRATION_TIME = 0,
     SERIALIZATION_VERSION_STRING = [], ProcessVote = (\<lambda>m v x. (True, m, x))\<rparr>"

definition demo_entry :: "string \<Rightarrow> string \<Rightarrow> CMasternodeEntry" where
  "demo_entry name idx = \<lparr>getAlias = name, getPrivKey = ''k'', getTxHash = [], getOutputIndex = idx\<rparr>"

definition demo_gobject :: "(unit, demo_mgr, unit, nat, nat, nat, unit) gobject_env" where
  "demo_gobject = uni_reader.extend plain_reader (gobject_env.fields
     (\<lambda>v what. Inr 5) (\<lambda>s. Inr 0) (\<lambda>h. ''h'') (\<lambda>i. ''n'') 100 (\<lambda>m. []) id True 0 9 0 (\<lambda>p. [])
     (\<lambda>p. if p = 1 then Some 1 else None) [demo_entry ''a'' ''1'', demo_entry ''b'' ''x'', demo_entry ''c'' ''2'']
     (\<lambda>s. Some 3) (\<lambda>s. 0) (\<lambda>s. if s = ''1'' then Some 1 else if s = ''2'' then Some 2 else None)
     (\<lambda>h i. unat i) (\<lambda>s. VOTE_SIGNAL_FUNDING) (\<lambda>s. VOTE_OUTCOME_YES) (\<lambda>p h s out. p) (\<lambda>k v. Some (k + v))
     of_nat (\<lambda>v. []) () (\<lambda>x. []) (\<lambda>h r t f d. ()) (\<lambda>ob. GOVERNANCE_OBJECT_PROPOSAL) (\<lambda>ob. 5)
     (\<lambda>ob b. (True, [])) (\<lambda>k p ob. ob) (\<lambda>ob. Some 6) (\<lambda>ob. []) (\<lambda>ob. []) (\<lambda>ob. 0) (\<lambda>t. 1) (\<lambda>ob. 0) (\<lambda>ob. 0)
     (\<lambda>ob s. 0) (\<lambda>ob s. 0) (\<lambda>ob s. 0) (\<lambda>ob s. 0) (\<lambda>ob. True) (\<lambda>ob. True) (\<lambda>ob. True) (\<lambda>ob. True)
     (\<lambda>m ob b. (True, m)) (\<lambda>m h. m) (\<lambda>m ob b. m) (\<lambda>m t. [()]) (\<lambda>m h. Some ()) (\<lambda>m h. []) (\<lambda>s. Inr 0)
     (\<lambda>m h p. Inr VNULL))"

definition demo_gobject_state :: "(demo_mgr, unit, nat) gobject_state" where
  "demo_gobject_state = \<lparr>gov = demo_mgr, votes_sent = [], objects_sent = [], txs_sent = []\<rparr>"

lemmas demo_gobject_simps = demo_gobject_def demo_gov_env_def demo_gobject_state_def demo_entry_def
  uni_reader.defs gobject_env.defs plain_reader_def

lemma demo_vote_loop: "vote_loop (vote_entry demo_gobject demo_gov_env 5 VOTE_SIGNAL_FUNDING VOTE_OUTCOME_YES)
    (getEntries demo_gobject) (0, 0, [], demo_gobject_state) =
  (1, 1, [(''a'', status_success), (''c'', status_failed ''Can't find masternode by collateral output'')],
    demo_gobject_state\<lparr>votes_sent := [4]\<rparr>)"
  by (simp add: demo_gobject_simps vote_entry_def cast_vote_def send_vote_def ProcessVoteAndRelay_def)

lemma demo_vote_arguments:
  "vote_arguments demo_gobject [VSTR [], VSTR [], VSTR [], VSTR []] = Inr (5, VOTE_SIGNAL_FUNDING, VOTE_OUTCOME_YES)"
  by (simp add: demo_gobject_simps vote_arguments_def convert_vote_def)

theorem vote_many_exact_witness:
  "\<exists>(results :: (string \<times> unit univalue) list) votes. snd (vote_many demo_gobject demo_gov_env demo_gobject_state [VSTR [], VSTR [], VSTR [], VSTR []]) =
     demo_gobject_state\<lparr>votes_sent := votes\<rparr> \<and> map fst results = [''a'', ''c''] \<and> length votes = 1"
proof -
  have v: "vote_many demo_gobject demo_gov_env demo_gobject_state [VSTR [], VSTR [], VSTR [], VSTR []] =
    (Inr (vote_report demo_gobject 1 1 [(''a'', status_success), (''c'', status_failed ''Can't find masternode by collateral output'')]),
     demo_gobject_state\<lparr>votes_sent := [4]\<rparr>)"
    by (simp add: vote_many_def demo_vote_arguments demo_vote_loop)
  have a: "map getAlias (filter (reported demo_gobject) (getEntries demo_gobject)) = [''a'', ''c'']"
    by (simp add: demo_gobject_simps reported_def)
  obtain results :: "(string \<times> unit univalue) list" and votes :: "nat list" where "map fst results = [''a'', ''c'']"
    "votes_sent (demo_gobject_state\<lparr>votes_sent := [4]\<rparr>) = votes_sent demo_gobject_state @ votes"
    using vote_many_exact [OF v, unfolded a] by (elim exE conjE) (rule that)
  then show ?thesis unfolding v by (intro exI [of _ results] exI [of _ votes]) (auto simp: demo_gobject_state_def)
qed

theorem diff_since_last_query_witness:
  "fst (gobject_list demo_gobject (demo_gobject_state\<lparr>gov := demo_mgr\<lparr>nTimeLastDiff := 100\<rparr>\<rparr>) ''diff'' []) =
     Inr (VOBJ [(''h'', list_object demo_gobject ())])"
proof -
  have l: "gobject_list demo_gobject demo_gobject_state ''list'' [] =
     (Inr (VOBJ [(''h'', list_object demo_gobject ())]), demo_gobject_state\<lparr>gov := demo_mgr\<lparr>nTimeLastDiff := 100\<rparr>\<rparr>)"
    by (simp add: gobject_list_def list_objects_def list_types_def shown_def UpdateLastDiffTime_def demo_gobject_simps)
  have t: "GetTime demo_gobject = 100" by (simp add: demo_gobject_simps)
  show ?thesis using diff_since_last_query [OF l, of demo_gobject] by (simp add: t) (simp add: demo_gobject_simps)
qed

theorem gobject_frame_witness:
  "objects_sent (snd (gobject demo_gobject demo_gov_env (\<lambda>name mne. None) demo_gobject_state [VSTR ''vote-many''] False)) = []"
proof -
  have "opt_arg (get_str demo_gobject) [VSTR ''vote-many''] 0 [] = Inr ''vote-many''"
    by (simp add: opt_arg_def demo_gobject_simps)
  from gobject_frame [OF this, of demo_gov_env "\<lambda>name mne. None" demo_gobject_state False]
  show ?thesis by (simp add: demo_gobject_state_def)
qed

end
