(* ===== verification/Mixing.thy ===== *)
theory Mixing
  imports Codec StdMap "HOL-Library.Char_ord" "HOL-Library.List_Lexorder"
begin

text \<open>
  The classes of the mixing protocol that \<open>Maternodes/SRC/darksend.h\<close> defines, and the alerts
  of \<open>Blockchain/alert.h\<close>: their members, constructors, serialization and inline members. The
  protocol itself (\<open>darksend.cpp\<close>) is not part of the repository, nor are transactions, their
  inputs (\<open>'i\<close>) and outputs (\<open>'u\<close>). A serialized object is the tuple of the values that
  \<open>READWRITE\<close> passes.
\<close>

section \<open>Constants\<close>

definition PRIVATESEND_AUTO_TIMEOUT_MIN :: int where "PRIVATESEND_AUTO_TIMEOUT_MIN = 5"
definition PRIVATESEND_AUTO_TIMEOUT_MAX :: int where "PRIVATESEND_AUTO_TIMEOUT_MAX = 15"
definition PRIVATESEND_QUEUE_TIMEOUT :: int where "PRIVATESEND_QUEUE_TIMEOUT = 30"
definition PRIVATESEND_SIGNING_TIMEOUT :: int where "PRIVATESEND_SIGNING_TIMEOUT = 15"
definition MIN_PRIVATESEND_PEER_PROTO_VERSION :: int where "MIN_PRIVATESEND_PEER_PROTO_VERSION = 70206"
definition DENOMS_COUNT_MAX :: int where "DENOMS_COUNT_MAX = 100"
definition DEFAULT_PRIVATESEND_ROUNDS :: int where "DEFAULT_PRIVATESEND_ROUNDS = 2"
definition DEFAULT_PRIVATESEND_AMOUNT :: int where "DEFAULT_PRIVATESEND_AMOUNT = 1000"
definition DEFAULT_PRIVATESEND_LIQUIDITY :: int where "DEFAULT_PRIVATESEND_LIQUIDITY = 0"
definition DEFAULT_PRIVATESEND_MULTISESSION :: bool where "DEFAULT_PRIVATESEND_MULTISESSION = False"
definition PRIVATESEND_KEYS_THRESHOLD_WARNING :: int where "PRIVATESEND_KEYS_THRESHOLD_WARNING = 100"
definition PRIVATESEND_KEYS_THRESHOLD_STOP :: int where "PRIVATESEND_KEYS_THRESHOLD_STOP = 50"

section \<open>Entries\<close>

record 'i CTxDSIn =
  base_in :: 'i
  fHasSig :: bool
  in_nSentTimes :: int

definition CTxDSIn_init :: "'i \<Rightarrow> 'i CTxDSIn" where
  "CTxDSIn_init txin = \<lparr>base_in = txin, fHasSig = False, in_nSentTimes = 0\<rparr>"

record 'u CTxDSOut =
  base_out :: 'u
  out_nSentTimes :: int

definition CTxDSOut_init :: "'u \<Rightarrow> 'u CTxDSOut" where
  "CTxDSOut_init out = \<lparr>base_out = out, out_nSentTimes = 0\<rparr>"

record ('i, 'u, 'tx) CDarkSendEntry =
  vecTxDSIn :: "'i CTxDSIn list"
  vecTxDSOut :: "'u CTxDSOut list"
  txCollateral :: 'tx

text \<open>The constructor without arguments takes the empty transaction.\<close>

definition CDarkSendEntry_default :: "'tx \<Rightarrow> ('i, 'u, 'tx) CDarkSendEntry" where
  "CDarkSendEntry_default no_tx = \<lparr>vecTxDSIn = [], vecTxDSOut = [], txCollateral = no_tx\<rparr>"

definition CDarkSendEntry_init :: "'i list \<Rightarrow> 'u list \<Rightarrow> 'tx \<Rightarrow> ('i, 'u, 'tx) CDarkSendEntry" where
  "CDarkSendEntry_init vecTxIn vecTxOut tx =
     \<lparr>vecTxDSIn = map CTxDSIn_init vecTxIn, vecTxDSOut = map CTxDSOut_init vecTxOut, txCollateral = tx\<rparr>"

text \<open>
  An input or output is serialized by its base class; one that is read starts from the
  constructor without arguments.
\<close>

definition entry_write :: "('i, 'u, 'tx) CDarkSendEntry \<Rightarrow> 'i list \<times> 'tx \<times> 'u list" where
  "entry_write e = (map base_in (vecTxDSIn e), txCollateral e, map base_out (vecTxDSOut e))"

definition entry_read :: "'i list \<times> 'tx \<times> 'u list \<Rightarrow> ('i, 'u, 'tx) CDarkSendEntry" where
  "entry_read = (\<lambda>(ins, tx, outs).
     \<lparr>vecTxDSIn = map CTxDSIn_init ins, vecTxDSOut = map CTxDSOut_init outs, txCollateral = tx\<rparr>)"

section \<open>Queues\<close>

record 'i CDarksendQueue =
  nDenom :: int
  queue_vin :: 'i
  queue_nTime :: i64
  fReady :: bool
  queue_vchSig :: "byte list"
  fTried :: bool

definition CDarksendQueue_init :: "int \<Rightarrow> 'i \<Rightarrow> i64 \<Rightarrow> bool \<Rightarrow> 'i CDarksendQueue" where
  "CDarksendQueue_init denom vin t ready =
     \<lparr>nDenom = denom, queue_vin = vin, queue_nTime = t, fReady = ready, queue_vchSig = [], fTried = False\<rparr>"

definition CDarksendQueue_default :: "'i \<Rightarrow> 'i CDarksendQueue" where
  "CDarksendQueue_default no_vin = CDarksendQueue_init 0 no_vin 0 False"

type_synonym 'i queue_image = "int \<times> 'i \<times> i64 \<times> bool \<times> byte list"

definition queue_write :: "'i CDarksendQueue \<Rightarrow> 'i queue_image" where
  "queue_write q = (nDenom q, queue_vin q, queue_nTime q, fReady q, queue_vchSig q)"

definition queue_read :: "'i queue_image \<Rightarrow> 'i CDarksendQueue \<Rightarrow> 'i CDarksendQueue" where
  "queue_read = (\<lambda>(d, vin, t, ready, sig) q.
     q\<lparr>nDenom := d, queue_vin := vin, queue_nTime := t, fReady := ready, queue_vchSig := sig\<rparr>)"

text \<open>\<open>IsExpired\<close> subtracts two \<open>int64_t\<close>.\<close>

definition IsExpired :: "i64 \<Rightarrow> 'i CDarksendQueue \<Rightarrow> bool res" where
  "IsExpired GetTime q =
     (let d = sint GetTime - sint (queue_nTime q) in
      if fits_i64 d then Inr (d > PRIVATESEND_QUEUE_TIMEOUT) else Inl SignedOverflow)"

definition queue_ToString :: "(int \<Rightarrow> string) \<Rightarrow> ('i \<Rightarrow> string) \<Rightarrow> 'i CDarksendQueue \<Rightarrow> string" where
  "queue_ToString fmt ToStringShort q =
     ''nDenom='' @ fmt (nDenom q) @ '', nTime='' @ fmt (sint (queue_nTime q)) @
     '', fReady='' @ (if fReady q then ''true'' else ''false'') @
     '', fTried='' @ (if fTried q then ''true'' else ''false'') @
     '', masternode='' @ ToStringShort (queue_vin q)"

definition queue_eq :: "('i \<Rightarrow> 'op) \<Rightarrow> 'i CDarksendQueue \<Rightarrow> 'i CDarksendQueue \<Rightarrow> bool" where
  "queue_eq prevout a b \<longleftrightarrow> nDenom a = nDenom b \<and> prevout (queue_vin a) = prevout (queue_vin b) \<and>
     queue_nTime a = queue_nTime b \<and> fReady a = fReady b"

section \<open>Broadcast transactions\<close>

record ('i, 'tx) CDarksendBroadcastTx =
  bc_tx :: 'tx
  bc_vin :: 'i
  bc_vchSig :: "byte list"
  bc_sigTime :: i64

definition CDarksendBroadcastTx_init :: "'tx \<Rightarrow> 'i \<Rightarrow> i64 \<Rightarrow> ('i, 'tx) CDarksendBroadcastTx" where
  "CDarksendBroadcastTx_init t i time = \<lparr>bc_tx = t, bc_vin = i, bc_vchSig = [], bc_sigTime = time\<rparr>"

definition CDarksendBroadcastTx_default :: "'tx \<Rightarrow> 'i \<Rightarrow> ('i, 'tx) CDarksendBroadcastTx" where
  "CDarksendBroadcastTx_default no_tx no_vin = CDarksendBroadcastTx_init no_tx no_vin 0"

definition broadcast_write :: "('i, 'tx) CDarksendBroadcastTx \<Rightarrow> 'tx \<times> 'i \<times> byte list \<times> i64" where
  "broadcast_write b = (bc_tx b, bc_vin b, bc_vchSig b, bc_sigTime b)"

definition broadcast_read :: "'tx \<times> 'i \<times> byte list \<times> i64 \<Rightarrow> ('i, 'tx) CDarksendBroadcastTx" where
  "broadcast_read = (\<lambda>(t, i, s, time). \<lparr>bc_tx = t, bc_vin = i, bc_vchSig = s, bc_sigTime = time\<rparr>)"

section \<open>The pool\<close>

datatype PoolMessage = ERR_ALREADY_HAVE | ERR_DENOM | ERR_ENTRIES_FULL | ERR_EXISTING_TX | ERR_FEES
  | ERR_INVALID_COLLATERAL | ERR_INVALID_INPUT | ERR_INVALID_SCRIPT | ERR_INVALID_TX | ERR_MAXIMUM
  | ERR_MN_LIST | ERR_MODE | ERR_NON_STANDARD_PUBKEY | ERR_NOT_A_MN | ERR_QUEUE_FULL | ERR_RECENT
  | ERR_SESSION | ERR_MISSING_TX | ERR_VERSION | MSG_NOERR | MSG_SUCCESS | MSG_ENTRIES_ADDED

definition MSG_POOL_MIN :: PoolMessage where "MSG_POOL_MIN = ERR_ALREADY_HAVE"
definition MSG_POOL_MAX :: PoolMessage where "MSG_POOL_MAX = MSG_ENTRIES_ADDED"

datatype PoolState = POOL_STATE_IDLE | POOL_STATE_QUEUE | POOL_STATE_ACCEPTING_ENTRIES
  | POOL_STATE_SIGNING | POOL_STATE_ERROR | POOL_STATE_SUCCESS

definition POOL_STATE_MIN :: PoolState where "POOL_STATE_MIN = POOL_STATE_IDLE"
definition POOL_STATE_MAX :: PoolState where "POOL_STATE_MAX = POOL_STATE_SUCCESS"

datatype PoolStatusUpdate = STATUS_REJECTED | STATUS_ACCEPTED

text \<open>The value of an enumerator, as \<open>GetState\<close> returns it.\<close>

fun pool_state_value :: "PoolState \<Rightarrow> int" where
  "pool_state_value POOL_STATE_IDLE = 0"
| "pool_state_value POOL_STATE_QUEUE = 1"
| "pool_state_value POOL_STATE_ACCEPTING_ENTRIES = 2"
| "pool_state_value POOL_STATE_SIGNING = 3"
| "pool_state_value POOL_STATE_ERROR = 4"
| "pool_state_value POOL_STATE_SUCCESS = 5"

text \<open>The states are ordered as their values, as the comparisons of an enumeration are.\<close>

lemma pool_state_value_inject [simp]: "pool_state_value a = pool_state_value b \<longleftrightarrow> a = b"
  by (cases a; cases b) simp_all

instantiation PoolState :: linorder
begin

definition less_eq_PoolState :: "PoolState \<Rightarrow> PoolState \<Rightarrow> bool" where
  "less_eq_PoolState a b \<longleftrightarrow> pool_state_value a \<le> pool_state_value b"

definition less_PoolState :: "PoolState \<Rightarrow> PoolState \<Rightarrow> bool" where
  "less_PoolState a b \<longleftrightarrow> pool_state_value a < pool_state_value b"

instance
  by standard (auto simp: less_eq_PoolState_def less_PoolState_def simp flip: pool_state_value_inject)

end

lemma pool_states_bounded: "POOL_STATE_MIN \<le> s \<and> s \<le> POOL_STATE_MAX"
  by (cases s) (simp_all add: less_eq_PoolState_def POOL_STATE_MIN_def POOL_STATE_MAX_def)

text \<open>
  The members of \<open>CDarksendPool\<close> but for the mutex and the two mutable transactions. A
  pointer to a block is an address, or null. \<open>'mn\<close> is a masternode.
\<close>

record ('i, 'u, 'tx, 'op, 'mn) CDarksendPool =
  vecDarksendQueue :: "'i CDarksendQueue list"
  vecMasternodesUsed :: "'i list"
  vecDenominationsSkipped :: "i64 list"
  vecOutPointLocked :: "'op list"
  vecSessionCollaterals :: "'tx list"
  vecEntries :: "('i, 'u, 'tx) CDarkSendEntry list"
  pool_nState :: PoolState
  nTimeLastSuccessfulStep :: i64
  nCachedLastSuccessBlock :: int
  nMinBlockSpacing :: int
  pool_pCurrentBlockIndex :: "nat option"
  nSessionID :: int
  nEntriesCount :: int
  fLastEntryAccepted :: bool
  strLastMessage :: string
  strAutoDenomResult :: string
  fUnitTest :: bool
  pSubmittedToMasternode :: "'mn option"
  nSessionDenom :: int
  nCachedNumBlocks :: int
  fCreateAutoBackups :: bool

text \<open>The initialisers of the constructor, applied before \<open>SetNull\<close>, which is declared only.\<close>

definition CDarksendPool_init ::
    "(('i, 'u, 'tx, 'op, 'mn) CDarksendPool \<Rightarrow> ('i, 'u, 'tx, 'op, 'mn) CDarksendPool) \<Rightarrow>
     ('i, 'u, 'tx, 'op, 'mn) CDarksendPool \<Rightarrow> ('i, 'u, 'tx, 'op, 'mn) CDarksendPool" where
  "CDarksendPool_init SetNull memory = SetNull (memory\<lparr>vecDarksendQueue := [], vecMasternodesUsed := [],
     vecDenominationsSkipped := [], vecOutPointLocked := [], vecSessionCollaterals := [], vecEntries := [],
     nCachedLastSuccessBlock := 0, nMinBlockSpacing := 0, strLastMessage := [], strAutoDenomResult := [],
     fUnitTest := False, nCachedNumBlocks := i32_max, fCreateAutoBackups := True\<rparr>)"

text \<open>The length of a vector, converted to \<open>int\<close>.\<close>

definition as_int :: "nat \<Rightarrow> int" where
  "as_int n = sint (of_nat n :: 32 word)"

definition IsSessionReady :: "int \<Rightarrow> ('i, 'u, 'tx, 'op, 'mn) CDarksendPool \<Rightarrow> bool" where
  "IsSessionReady GetMaxPoolTransactions p \<longleftrightarrow>
     as_int (length (vecSessionCollaterals p)) \<ge> GetMaxPoolTransactions"

definition IsDenomSkipped :: "i64 \<Rightarrow> ('i, 'u, 'tx, 'op, 'mn) CDarksendPool \<Rightarrow> bool" where
  "IsDenomSkipped nDenomValue p \<longleftrightarrow> nDenomValue \<in> set (vecDenominationsSkipped p)"

definition ClearSkippedDenominations ::
    "('i, 'u, 'tx, 'op, 'mn) CDarksendPool \<Rightarrow> ('i, 'u, 'tx, 'op, 'mn) CDarksendPool" where
  "ClearSkippedDenominations p = p\<lparr>vecDenominationsSkipped := []\<rparr>"

definition SetMinBlockSpacing ::
    "int \<Rightarrow> ('i, 'u, 'tx, 'op, 'mn) CDarksendPool \<Rightarrow> ('i, 'u, 'tx, 'op, 'mn) CDarksendPool" where
  "SetMinBlockSpacing nMinBlockSpacingIn p = p\<lparr>nMinBlockSpacing := nMinBlockSpacingIn\<rparr>"

definition GetQueueSize :: "('i, 'u, 'tx, 'op, 'mn) CDarksendPool \<Rightarrow> int" where
  "GetQueueSize p = as_int (length (vecDarksendQueue p))"

definition GetState :: "('i, 'u, 'tx, 'op, 'mn) CDarksendPool \<Rightarrow> int" where
  "GetState p = pool_state_value (pool_nState p)"

lemma GetState_range: "GetState p \<in> {pool_state_value POOL_STATE_MIN..pool_state_value POOL_STATE_MAX}"
  using pool_states_bounded [of "pool_nState p"] by (simp add: GetState_def less_eq_PoolState_def)

definition GetEntriesCount :: "('i, 'u, 'tx, 'op, 'mn) CDarksendPool \<Rightarrow> int" where
  "GetEntriesCount p = as_int (length (vecEntries p))"

section \<open>Alerts\<close>

record CUnsignedAlert =
  alert_nVersion :: int
  nRelayUntil :: i64
  nExpiration :: i64
  nID :: int
  nCancel :: int
  setCancel :: "int stdset"
  nMinVer :: int
  nMaxVer :: int
  setSubVer :: "string stdset"
  nPriority :: int
  strComment :: string
  strStatusBar :: string
  strReserved :: string

record CAlert = CUnsignedAlert +
  alert_vchMsg :: "byte list"
  alert_vchSig :: "byte list"

type_synonym unsigned_alert_image =
  "int \<times> i64 \<times> i64 \<times> int \<times> int \<times> int list \<times> int \<times> int \<times> string list \<times> int \<times> string \<times> string \<times> string"

definition unsigned_alert_write :: "'z CUnsignedAlert_scheme \<Rightarrow> unsigned_alert_image" where
  "unsigned_alert_write a = (alert_nVersion a, nRelayUntil a, nExpiration a, nID a, nCancel a, setCancel a,
     nMinVer a, nMaxVer a, setSubVer a, nPriority a, strComment a, strStatusBar a, strReserved a)"

text \<open>
  A set is read element by element. \<open>limited\<close> is \<open>LIMITED_STRING\<close> of \<open>serialize.h\<close>, which
  refuses a string that is too long when it is read.
\<close>

definition unsigned_alert_read ::
    "(nat \<Rightarrow> string \<Rightarrow> string res) \<Rightarrow> unsigned_alert_image \<Rightarrow> 'z CUnsignedAlert_scheme \<Rightarrow> 'z CUnsignedAlert_scheme res" where
  "unsigned_alert_read limited = (\<lambda>(v, relay, expires, i, cancel, cancels, lo, hi, subvers, prio, comment, bar, reserved) a.
     rbind (limited 65536 comment) (\<lambda>comment.
     rbind (limited 256 bar) (\<lambda>bar.
     rbind (limited 256 reserved) (\<lambda>reserved.
     Inr (a\<lparr>alert_nVersion := v, nRelayUntil := relay, nExpiration := expires, nID := i, nCancel := cancel,
       setCancel := fold (\<lambda>x s. sset_insert s x) cancels [], nMinVer := lo, nMaxVer := hi,
       setSubVer := fold (\<lambda>x s. sset_insert s x) subvers [], nPriority := prio,
       strComment := comment, strStatusBar := bar, strReserved := reserved\<rparr>)))))"

definition alert_write :: "CAlert \<Rightarrow> byte list \<times> byte list" where
  "alert_write a = (alert_vchMsg a, alert_vchSig a)"

definition alert_read :: "byte list \<times> byte list \<Rightarrow> CAlert \<Rightarrow> CAlert" where
  "alert_read = (\<lambda>(msg, sig) a. a\<lparr>alert_vchMsg := msg, alert_vchSig := sig\<rparr>)"

section \<open>Encodings\<close>

lemma entry_read_write: "entry_read (entry_write e) = CDarkSendEntry_init (map base_in (vecTxDSIn e)) (map base_out (vecTxDSOut e)) (txCollateral e)"
  by (simp add: entry_read_def entry_write_def CDarkSendEntry_init_def)

interpretation queue_codec: codec "\<lambda>q. Inr (queue_write q)"
    "\<lambda>e. Inr (queue_read e (CDarksendQueue_default no_vin))" "\<lambda>q. \<not> fTried q" for no_vin :: 'i
  by unfold_locales
    (simp add: queue_write_def queue_read_def CDarksendQueue_default_def CDarksendQueue_init_def)

interpretation broadcast_codec: canonical_codec "\<lambda>b. Inr (broadcast_write b)"
    "\<lambda>e. Inr (broadcast_read e)" "\<lambda>b. True"
  by unfold_locales (auto simp: broadcast_write_def broadcast_read_def)

interpretation entry_codec: codec "\<lambda>e. Inr (entry_write e)" "\<lambda>d. Inr (entry_read d)"
    "\<lambda>e. e = CDarkSendEntry_init (map base_in (vecTxDSIn e)) (map base_out (vecTxDSOut e)) (txCollateral e)"
  by unfold_locales (metis entry_read_write)

lemma sset_fold_ok: "sset_ok s \<Longrightarrow> sset_ok (fold (\<lambda>x s. sset_insert s x) xs s)"
  by (induction xs arbitrary: s) simp_all

lemma set_sset_fold: "set (fold (\<lambda>x s. sset_insert s x) xs s) = set xs \<union> set s"
  by (induction xs arbitrary: s) auto

lemma sset_read_write: "sset_ok s \<Longrightarrow> fold (\<lambda>x s. sset_insert s x) s [] = s"
  using sset_fold_ok [of "[]" s] set_sset_fold [of s "[]"] increasing.sorted_unique
  by (simp add: sset_ok_def)

section \<open>Properties\<close>

text \<open>
  A mixing entry does not bring its signature flags along. What a node reads from a
  serialized entry has the inputs, outputs and collateral of the sender's, but no input counts
  as signed and nothing as sent, whatever the sender had set; written again it is the same.
\<close>

theorem received_entry_unsigned:
  "let e' = entry_read (entry_write e) in
     map base_in (vecTxDSIn e') = map base_in (vecTxDSIn e) \<and>
     map base_out (vecTxDSOut e') = map base_out (vecTxDSOut e) \<and> txCollateral e' = txCollateral e \<and>
     list_all (\<lambda>i. \<not> fHasSig i \<and> in_nSentTimes i = 0) (vecTxDSIn e') \<and>
     list_all (\<lambda>i. out_nSentTimes i = 0) (vecTxDSOut e') \<and> entry_write e' = entry_write e"
  unfolding entry_read_write
  by (simp add: CDarkSendEntry_init_def CTxDSIn_init_def CTxDSOut_init_def entry_write_def list_all_iff comp_def)

text \<open>
  A queue expires once and for all. For a time stamp that is not negative \<open>IsExpired\<close> is
  defined at every time from 1970 on, is true exactly after the timeout, and stays true; for
  a stamp far enough in the past, which a message may carry, the subtraction overflows.
\<close>

theorem queue_expires:
  assumes "0 \<le> sint (queue_nTime q)" "0 \<le> sint now" "sint now \<le> sint later"
  shows "IsExpired now q = Inr (sint (queue_nTime q) + 30 < sint now) \<and>
    (IsExpired now q = Inr True \<longrightarrow> IsExpired later q = Inr True) \<and>
    IsExpired later (q\<lparr>queue_nTime := word_of_int i64_min\<rparr>) = Inl SignedOverflow"
proof -
  have "fits_i64 (sint now - sint (queue_nTime q))" "fits_i64 (sint later - sint (queue_nTime q))"
    using assms sint_i64_range [of now] sint_i64_range [of later] sint_i64_range [of "queue_nTime q"]
    by (simp_all add: i64_bounds)
  moreover have "sint (word_of_int i64_min :: i64) = i64_min" by (rule sint_of_int_fits) (simp add: i64_bounds)
  ultimately show ?thesis using assms
    by (auto simp: IsExpired_def PRIVATESEND_QUEUE_TIMEOUT_def Let_def i64_bounds)
qed

theorem queue_expires_witness:
  "IsExpired 131 (CDarksendQueue_init 1 () 100 True) = Inr True \<and>
   IsExpired 200 ((CDarksendQueue_init 1 () 100 True)\<lparr>queue_nTime := word_of_int i64_min\<rparr>) = Inl SignedOverflow"
  using queue_expires [of "CDarksendQueue_init 1 () 100 True" 131 200] by (simp add: CDarksendQueue_init_def)

text \<open>
  A queue that is relayed is the same queue. Reading a written queue into a new one gives
  all members back but \<open>fTried\<close>, which is false; the two are equal for \<open>operator==\<close>, which is an
  equivalence that does not look at the signature.
\<close>

theorem queue_relayed:
  "queue_read (queue_write q) (CDarksendQueue_default no_vin) = q\<lparr>fTried := False\<rparr> \<and>
   queue_eq prevout q (queue_read (queue_write q) (CDarksendQueue_default no_vin)) \<and>
   equivp (queue_eq prevout) \<and> queue_eq prevout q (q\<lparr>queue_vchSig := sig\<rparr>)"
proof -
  have "equivp (queue_eq prevout)"
    by (rule equivpI) (auto simp: queue_eq_def reflp_def symp_def transp_def)
  then show ?thesis
    by (simp add: queue_read_def queue_write_def CDarksendQueue_default_def CDarksendQueue_init_def queue_eq_def)
qed

text \<open>What \<open>LIMITED_STRING\<close> does, and the alerts it accepts.\<close>

definition limited_ok :: "(nat \<Rightarrow> string \<Rightarrow> string res) \<Rightarrow> bool" where
  "limited_ok limited \<longleftrightarrow> (\<forall>n s. (length s \<le> n \<longrightarrow> limited n s = Inr s) \<and>
     (n < length s \<longrightarrow> (\<exists>e. limited n s = Inl e)))"

definition alert_ok :: "'z CUnsignedAlert_scheme \<Rightarrow> bool" where
  "alert_ok a \<longleftrightarrow> sset_ok (setCancel a) \<and> sset_ok (setSubVer a) \<and> length (strComment a) \<le> 65536 \<and>
     length (strStatusBar a) \<le> 256 \<and> length (strReserved a) \<le> 256"

lemma limited_Inr: "limited_ok limited \<Longrightarrow> limited n s = Inr t \<longleftrightarrow> length s \<le> n \<and> t = s"
  unfolding limited_ok_def by (metis Inl_Inr_False Inr_inject not_le)

lemma alert_read_ok:
  assumes "limited_ok limited" "unsigned_alert_read limited e b = Inr b'"
  shows "alert_ok b'"
  using assms sset_fold_ok [of "[] :: int list"] sset_fold_ok [of "[] :: string list"]
  by (auto simp: unsigned_alert_read_def rbind_Inr_iff limited_Inr alert_ok_def sset_ok_def split: prod.splits)

text \<open>
  An alert is read back as it was written. For an alert with its sets in order and its
  texts within their limits (and every alert that was read is one), reading the written form
  restores every member of the unsigned alert and no other.
\<close>

theorem alert_roundtrip:
  assumes "limited_ok limited" "alert_ok a"
  shows "unsigned_alert_read limited (unsigned_alert_write a) b =
    Inr (CUnsignedAlert.extend (CUnsignedAlert.truncate a) (CUnsignedAlert.more b))"
  using assms by (simp add: unsigned_alert_read_def unsigned_alert_write_def alert_ok_def
      limited_ok_def sset_read_write CUnsignedAlert.defs)

definition demo_alert :: CUnsignedAlert where
  "demo_alert = \<lparr>alert_nVersion = 1, nRelayUntil = 10, nExpiration = 20, nID = 3, nCancel = 2,
     setCancel = [1, 2], nMinVer = 0, nMaxVer = 70206, setSubVer = [''/a/'', ''/b/''], nPriority = 5000,
     strComment = [], strStatusBar = ''upgrade'', strReserved = []\<rparr>"

theorem alert_roundtrip_witness:
  "unsigned_alert_read (\<lambda>n s. if length s \<le> n then Inr s else Inl OutOfRange) (unsigned_alert_write demo_alert)
     (demo_alert\<lparr>setCancel := [], strStatusBar := []\<rparr>) = Inr demo_alert"
proof -
  have "limited_ok (\<lambda>n s. if length s \<le> n then Inr s else Inl OutOfRange)" by (simp add: limited_ok_def)
  moreover have "alert_ok demo_alert"
    by (simp add: alert_ok_def demo_alert_def sset_ok_def less_list_code less_char_def)
  ultimately show ?thesis
    using alert_roundtrip [of _ demo_alert "demo_alert\<lparr>setCancel := [], strStatusBar := []\<rparr>"]
    by (simp add: CUnsignedAlert.defs demo_alert_def)
qed

end
