(* ===== verification/ActiveMasternode.thy ===== *)
theory ActiveMasternode
  imports Prelude
begin

text \<open>
  The state of the local masternode: \<open>Maternodes/activemasternode.cpp\<close>. The file ends inside
  \<open>ManageStateInitial\<close>, and \<open>ManageStateRemote\<close> and \<open>ManageStateLocal\<close> are not in the
  repository: the missing part and these two are fields of \<open>mn_env\<close>, as are the network, the
  masternode list, pings and the formatting of numbers. Log messages are not modelled. Nothing
  is assumed of the missing parts: a journal in the state says what they did to the masternode
  list.
\<close>

section \<open>State and environment\<close>

datatype masternode_type = MASTERNODE_UNKNOWN | MASTERNODE_REMOTE | MASTERNODE_LOCAL | MASTERNODE_OTHER_TYPE

datatype masternode_state = ACTIVE_MASTERNODE_INITIAL | ACTIVE_MASTERNODE_SYNC_IN_PROCESS
  | ACTIVE_MASTERNODE_INPUT_TOO_NEW | ACTIVE_MASTERNODE_NOT_CAPABLE | ACTIVE_MASTERNODE_STARTED
  | ACTIVE_MASTERNODE_OTHER_STATE

text \<open>
  \<open>mnodeman\<close> is the masternode list, a global of the program. The journal has the pings that
  \<open>SendMasternodePing\<close> relays, and of every call of code that is not in the repository the list
  as that code found and as it left it.
\<close>

datatype ('ping, 'mn) mn_event = Relayed 'ping | Elsewhere 'mn 'mn

record ('addr, 'ping, 'mn) CActiveMasternode =
  eType :: masternode_type
  nState :: masternode_state
  fPingerEnabled :: bool
  strNotCapableReason :: string
  service :: 'addr
  mnodeman :: 'mn
  journal :: "('ping, 'mn) mn_event list"

record 'peer CNode_info =
  fSuccessfullyConnected :: bool
  addr_IsIPv4 :: bool
  peer_addr :: 'peer

record ('addr, 'peer, 'ping, 'mn) mn_env =
  fMasterNode :: bool
  NetworkIDString :: string
  REGTEST :: string
  MAIN :: string
  IsBlockchainSynced :: bool
  fListen :: bool
  vNodes :: "'peer CNode_info list"
  GetLocal :: "'addr \<Rightarrow> 'peer option \<Rightarrow> bool \<times> 'addr"
  IsValidNetAddr :: "'addr \<Rightarrow> bool"
  GetPort :: "'addr \<Rightarrow> int"
  mainnetDefaultPort :: int
  nMasternodeMinimumConfirmations :: int
  format_d :: "int \<Rightarrow> string"
  initial_rest :: "('addr, 'ping, 'mn) CActiveMasternode \<Rightarrow> ('addr, 'ping, 'mn) CActiveMasternode"
  ManageStateRemote :: "('addr, 'ping, 'mn) CActiveMasternode \<Rightarrow> ('addr, 'ping, 'mn) CActiveMasternode"
  ManageStateLocal :: "('addr, 'ping, 'mn) CActiveMasternode \<Rightarrow> ('addr, 'ping, 'mn) CActiveMasternode"
  mn_Has :: "'mn \<Rightarrow> bool"
  sign_ping :: "'ping option"
  IsMasternodePingedWithin :: "'mn \<Rightarrow> 'ping \<Rightarrow> bool"
  SetMasternodeLastPing :: "'mn \<Rightarrow> 'ping \<Rightarrow> 'mn"

text \<open>A call of such code: it may change anything, but it does not write the journal.\<close>

definition elsewhere ::
    "(('addr, 'ping, 'mn) CActiveMasternode \<Rightarrow> ('addr, 'ping, 'mn) CActiveMasternode) \<Rightarrow>
     ('addr, 'ping, 'mn) CActiveMasternode \<Rightarrow> ('addr, 'ping, 'mn) CActiveMasternode" where
  "elsewhere f a = (f a)\<lparr>journal := journal a @ [Elsewhere (mnodeman a) (mnodeman (f a))]\<rparr>"

section \<open>Descriptions\<close>

fun GetStateString :: "masternode_state \<Rightarrow> string" where
  "GetStateString ACTIVE_MASTERNODE_INITIAL = ''INITIAL''"
| "GetStateString ACTIVE_MASTERNODE_SYNC_IN_PROCESS = ''SYNC_IN_PROCESS''"
| "GetStateString ACTIVE_MASTERNODE_INPUT_TOO_NEW = ''INPUT_TOO_NEW''"
| "GetStateString ACTIVE_MASTERNODE_NOT_CAPABLE = ''NOT_CAPABLE''"
| "GetStateString ACTIVE_MASTERNODE_STARTED = ''STARTED''"
| "GetStateString ACTIVE_MASTERNODE_OTHER_STATE = ''UNKNOWN''"

definition GetStatus ::
    "('addr, 'peer, 'ping, 'mn) mn_env \<Rightarrow> ('addr, 'ping, 'mn) CActiveMasternode \<Rightarrow> string" where
  "GetStatus E a = (case nState a of
     ACTIVE_MASTERNODE_INITIAL \<Rightarrow> ''Node just started, not yet activated''
   | ACTIVE_MASTERNODE_SYNC_IN_PROCESS \<Rightarrow> ''Sync in progress. Must wait until sync is complete to start Masternode''
   | ACTIVE_MASTERNODE_INPUT_TOO_NEW \<Rightarrow> ''Masternode input must have at least '' @
       format_d E (nMasternodeMinimumConfirmations E) @ '' confirmations''
   | ACTIVE_MASTERNODE_NOT_CAPABLE \<Rightarrow> ''Not capable masternode: '' @ strNotCapableReason a
   | ACTIVE_MASTERNODE_STARTED \<Rightarrow> ''Masternode successfully started''
   | ACTIVE_MASTERNODE_OTHER_STATE \<Rightarrow> ''Unknown'')"

fun GetTypeString :: "masternode_type \<Rightarrow> string" where
  "GetTypeString MASTERNODE_UNKNOWN = ''UNKNOWN''"
| "GetTypeString MASTERNODE_REMOTE = ''REMOTE''"
| "GetTypeString MASTERNODE_LOCAL = ''LOCAL''"
| "GetTypeString MASTERNODE_OTHER_TYPE = ''UNKNOWN''"

section \<open>Pings\<close>

definition not_capable ::
    "string \<Rightarrow> ('addr, 'ping, 'mn) CActiveMasternode \<Rightarrow> ('addr, 'ping, 'mn) CActiveMasternode" where
  "not_capable reason a = a\<lparr>nState := ACTIVE_MASTERNODE_NOT_CAPABLE, strNotCapableReason := reason\<rparr>"

definition SendMasternodePing ::
    "('addr, 'peer, 'ping, 'mn) mn_env \<Rightarrow> ('addr, 'ping, 'mn) CActiveMasternode \<Rightarrow>
     bool \<times> ('addr, 'ping, 'mn) CActiveMasternode" where
  "SendMasternodePing E a =
     (if \<not> fPingerEnabled a then (False, a)
      else if \<not> mn_Has E (mnodeman a) then (False, not_capable ''Masternode not in masternode list'' a)
      else case sign_ping E of
        None \<Rightarrow> (False, a)
      | Some mnp \<Rightarrow>
          if IsMasternodePingedWithin E (mnodeman a) mnp then (False, a)
          else (True, a\<lparr>mnodeman := SetMasternodeLastPing E (mnodeman a) mnp, journal := journal a @ [Relayed mnp]\<rparr>))"

section \<open>The initial state\<close>

text \<open>One attempt to find the local address, which may change \<open>service\<close> even if it fails.\<close>

definition try_local ::
    "('addr, 'peer, 'ping, 'mn) mn_env \<Rightarrow> 'addr \<Rightarrow> 'peer option \<Rightarrow> bool \<times> 'addr" where
  "try_local E svc p = (let (ok, svc) = GetLocal E svc p in (ok \<and> IsValidNetAddr E svc, svc))"

fun try_peers ::
    "('addr, 'peer, 'ping, 'mn) mn_env \<Rightarrow> 'peer CNode_info list \<Rightarrow> 'addr \<Rightarrow> bool \<times> 'addr" where
  "try_peers E [] svc = (False, svc)"
| "try_peers E (pnode # ps) svc =
     (if fSuccessfullyConnected pnode \<and> addr_IsIPv4 pnode then
        let (found, svc) = try_local E svc (Some (peer_addr pnode)) in
        if found then (True, svc) else try_peers E ps svc
      else try_peers E ps svc)"

text \<open>The reasons the code gives.\<close>

definition reason_listen :: string where
  "reason_listen = ''Masternode must accept connections from outside. Make sure listen configuration option is not overwritten by some another parameter.''"

definition reason_retry :: string where
  "reason_retry = ''Can't detect valid external address. Will retry when there are some connections available.''"

definition reason_address :: string where
  "reason_address = ''Can't detect valid external address. Please consider using the externalip configuration option if problem persists. Make sure to use IPv4 address only.''"

definition reason_port :: "('addr, 'peer, 'ping, 'mn) mn_env \<Rightarrow> 'addr \<Rightarrow> string" where
  "reason_port E svc = ''Invalid port: '' @ format_d E (GetPort E svc) @
     (if NetworkIDString E = MAIN E
      then '' - only '' @ format_d E (mainnetDefaultPort E) @ '' is supported on mainnet.''
      else '' - '' @ format_d E (mainnetDefaultPort E) @ '' is only supported on mainnet.'')"

definition ManageStateInitial ::
    "('addr, 'peer, 'ping, 'mn) mn_env \<Rightarrow> ('addr, 'ping, 'mn) CActiveMasternode \<Rightarrow>
     ('addr, 'ping, 'mn) CActiveMasternode" where
  "ManageStateInitial E a =
     (if \<not> fListen E then not_capable reason_listen a
      else
        let (found, svc) = try_local E (service a) None; a = a\<lparr>service := svc\<rparr> in
        if \<not> found \<and> vNodes E = [] then not_capable reason_retry a
        else
          let (found, svc) = (if found then (True, svc) else try_peers E (vNodes E) svc); a = a\<lparr>service := svc\<rparr> in
          if \<not> found then not_capable reason_address a
          else if NetworkIDString E = MAIN E then
            if GetPort E (service a) \<noteq> mainnetDefaultPort E then not_capable (reason_port E (service a)) a
            else elsewhere (initial_rest E) a
          else if GetPort E (service a) = mainnetDefaultPort E then not_capable (reason_port E (service a)) a
          else elsewhere (initial_rest E) a)"

section \<open>The periodic call\<close>

definition ManageState ::
    "('addr, 'peer, 'ping, 'mn) mn_env \<Rightarrow> ('addr, 'ping, 'mn) CActiveMasternode \<Rightarrow>
     ('addr, 'ping, 'mn) CActiveMasternode" where
  "ManageState E a =
     (if \<not> fMasterNode E then a
      else if NetworkIDString E \<noteq> REGTEST E \<and> \<not> IsBlockchainSynced E then
        a\<lparr>nState := ACTIVE_MASTERNODE_SYNC_IN_PROCESS\<rparr>
      else
        let a = (if nState a = ACTIVE_MASTERNODE_SYNC_IN_PROCESS then a\<lparr>nState := ACTIVE_MASTERNODE_INITIAL\<rparr> else a);
            a = (if eType a = MASTERNODE_UNKNOWN then ManageStateInitial E a else a);
            a = (if eType a = MASTERNODE_REMOTE then elsewhere (ManageStateRemote E) a
                 else if eType a = MASTERNODE_LOCAL then
                   (let a = elsewhere (ManageStateRemote E) a
                    in if nState a \<noteq> ACTIVE_MASTERNODE_STARTED then elsewhere (ManageStateLocal E) a else a)
                 else a)
        in snd (SendMasternodePing E a))"

section \<open>The checks of the initial state\<close>

lemma try_local_valid: "try_local E svc p = (True, s) \<Longrightarrow> IsValidNetAddr E s"
  by (auto simp: try_local_def split: prod.splits)

lemma try_peers_valid: "try_peers E ps svc = (True, s) \<Longrightarrow> IsValidNetAddr E s"
  by (induction E ps svc rule: try_peers.induct) (auto split: if_splits prod.splits dest: try_local_valid)

text \<open>An address the node can be reached at: valid, and on the main network's port there only.\<close>

definition good_service :: "('addr, 'peer, 'ping, 'mn) mn_env \<Rightarrow> 'addr \<Rightarrow> bool" where
  "good_service E svc \<longleftrightarrow> IsValidNetAddr E svc \<and>
     (NetworkIDString E = MAIN E \<longleftrightarrow> GetPort E svc = mainnetDefaultPort E)"

text \<open>The address the search ends with, and whether it is one.\<close>

definition local_search :: "('addr, 'peer, 'ping, 'mn) mn_env \<Rightarrow> 'addr \<Rightarrow> bool \<times> 'addr" where
  "local_search E svc =
     (let (found, svc) = try_local E svc None in if found then (True, svc) else try_peers E (vNodes E) svc)"

lemma local_search_valid: "local_search E svc = (True, s) \<Longrightarrow> IsValidNetAddr E s"
  by (auto simp: local_search_def split: prod.splits if_splits dest: try_local_valid try_peers_valid)

lemma reasons_given [simp]:
  "reason_listen \<noteq> []" "reason_retry \<noteq> []" "reason_address \<noteq> []" "reason_port E svc \<noteq> []"
  by (simp_all add: reason_listen_def reason_retry_def reason_address_def reason_port_def)

lemma ManageStateInitial_alt:
  assumes "local_search E (service a) = (found, svc)"
  shows "ManageStateInitial E a =
    (if \<not> fListen E then not_capable reason_listen a
     else if \<not> found then not_capable (if vNodes E = [] then reason_retry else reason_address) (a\<lparr>service := svc\<rparr>)
     else if good_service E svc then elsewhere (initial_rest E) (a\<lparr>service := svc\<rparr>)
     else not_capable (reason_port E svc) (a\<lparr>service := svc\<rparr>))"
proof -
  obtain f0 s0 where t: "try_local E (service a) None = (f0, s0)" by fastforce
  then have "found \<Longrightarrow> IsValidNetAddr E svc" using assms local_search_valid by metis
  then show ?thesis
    using assms t by (cases f0; cases "vNodes E = []")
      (auto simp: ManageStateInitial_def local_search_def good_service_def)
qed

lemma ManageStateInitial_cases:
  obtains (rest) svc where "fListen E" "good_service E svc"
      "ManageStateInitial E a = elsewhere (initial_rest E) (a\<lparr>service := svc\<rparr>)"
  | (fail) svc r where "r \<noteq> []" "ManageStateInitial E a = not_capable r (a\<lparr>service := svc\<rparr>)"
proof -
  obtain found svc where l: "local_search E (service a) = (found, svc)" by fastforce
  note alt = ManageStateInitial_alt [OF l]
  show ?thesis
  proof (cases "fListen E")
    case False
    then show ?thesis using alt fail [of reason_listen "service a"] by simp
  next
    case True
    then show ?thesis using alt rest [of svc] fail [of reason_retry svc] fail [of reason_address svc]
      fail [of "reason_port E svc" svc] by (simp split: if_splits)
  qed
qed

section \<open>Pings in the journal\<close>

text \<open>
  What the code relies on: the masternode list knows the time of the last ping, and says
  whether it is recent.
\<close>

definition list_keeps_time ::
    "('ping \<Rightarrow> int) \<Rightarrow> int \<Rightarrow> ('mn \<Rightarrow> int option) \<Rightarrow> ('addr, 'peer, 'ping, 'mn) mn_env \<Rightarrow> bool" where
  "list_keeps_time sigTime gap lastPing E \<longleftrightarrow>
     (\<forall>m p. IsMasternodePingedWithin E m p \<longleftrightarrow> (\<exists>t. lastPing m = Some t \<and> sigTime p - t < gap)) \<and>
     (\<forall>m p. lastPing (SetMasternodeLastPing E m p) = Some (sigTime p))"

text \<open>A change of the list that makes it forget a ping, or take it for an older one.\<close>

definition sets_back :: "('mn \<Rightarrow> int option) \<Rightarrow> 'mn \<Rightarrow> 'mn \<Rightarrow> bool" where
  "sets_back lastPing m m' \<longleftrightarrow>
     (\<exists>t. lastPing m = Some t \<and> (case lastPing m' of None \<Rightarrow> True | Some t' \<Rightarrow> t' < t))"

definition no_relay :: "('ping, 'mn) mn_event list \<Rightarrow> bool" where
  "no_relay ys \<longleftrightarrow> (\<forall>p. Relayed p \<notin> set ys)"

definition set_back_in :: "('mn \<Rightarrow> int option) \<Rightarrow> ('ping, 'mn) mn_event list \<Rightarrow> bool" where
  "set_back_in lastPing ys \<longleftrightarrow> (\<exists>m m'. Elsewhere m m' \<in> set ys \<and> sets_back lastPing m m')"

lemma no_relay_simps [simp]:
  "no_relay []" "no_relay (ys @ zs) \<longleftrightarrow> no_relay ys \<and> no_relay zs"
  "no_relay (e # ys) \<longleftrightarrow> (\<exists>m m'. e = Elsewhere m m') \<and> no_relay ys"
  by (auto simp: no_relay_def) (metis mn_event.exhaust)+

lemma set_back_in_simps [simp]:
  "\<not> set_back_in lp []" "set_back_in lp (ys @ zs) \<longleftrightarrow> set_back_in lp ys \<or> set_back_in lp zs"
  "set_back_in lp (Relayed p # ys) \<longleftrightarrow> set_back_in lp ys"
  "set_back_in lp (Elsewhere m m' # ys) \<longleftrightarrow> sets_back lp m m' \<or> set_back_in lp ys"
  by (auto simp: set_back_in_def)

text \<open>
  The invariant: the pings of the journal are spaced but where the list was set back between
  them, and since the last ping the list knows one at least as late, if it was not set back.
\<close>

definition spaced ::
    "('ping \<Rightarrow> int) \<Rightarrow> int \<Rightarrow> ('mn \<Rightarrow> int option) \<Rightarrow> ('ping, 'mn) mn_event list \<Rightarrow> bool" where
  "spaced st g lp j \<longleftrightarrow> (\<forall>xs p ys q zs. j = xs @ Relayed p # ys @ Relayed q # zs \<and> no_relay ys \<longrightarrow>
     st p + g \<le> st q \<or> set_back_in lp ys)"

definition pings_ok ::
    "('ping \<Rightarrow> int) \<Rightarrow> int \<Rightarrow> ('mn \<Rightarrow> int option) \<Rightarrow> ('addr, 'ping, 'mn) CActiveMasternode \<Rightarrow> bool" where
  "pings_ok st g lp a \<longleftrightarrow> spaced st g lp (journal a) \<and>
     (\<forall>xs p ys. journal a = xs @ Relayed p # ys \<and> no_relay ys \<and> \<not> set_back_in lp ys \<longrightarrow>
        (\<exists>t. lp (mnodeman a) = Some t \<and> st p \<le> t))"

lemma pings_ok_start: "journal a = [] \<Longrightarrow> pings_ok st g lp a"
  by (simp add: pings_ok_def spaced_def)

lemma pings_ok_same: "pings_ok st g lp a \<Longrightarrow> journal b = journal a \<Longrightarrow> mnodeman b = mnodeman a \<Longrightarrow> pings_ok st g lp b"
  by (simp add: pings_ok_def)

lemma spaced_snoc_elsewhere: "spaced st g lp j \<Longrightarrow> spaced st g lp (j @ [Elsewhere m m'])"
  unfolding spaced_def
proof (intro allI impI, elim conjE)
  fix xs p ys q zs
  assume s: "\<forall>xs p ys q zs. j = xs @ Relayed p # ys @ Relayed q # zs \<and> no_relay ys \<longrightarrow> st p + g \<le> st q \<or> set_back_in lp ys"
    and j: "j @ [Elsewhere m m'] = xs @ Relayed p # ys @ Relayed q # zs" and n: "no_relay ys"
  show "st p + g \<le> st q \<or> set_back_in lp ys"
  proof (cases zs rule: rev_exhaust)
    case Nil
    have "last (j @ [Elsewhere m m']) = last ((xs @ Relayed p # ys) @ [Relayed q])" unfolding j Nil by simp
    then show ?thesis unfolding last_snoc by simp
  next
    case (snoc zs' e)
    then have "j = xs @ Relayed p # ys @ Relayed q # zs'"
      using arg_cong [OF j, of butlast] by (simp add: butlast_append)
    then show ?thesis using s n by blast
  qed
qed

lemma spaced_snoc_relayed:
  assumes s: "spaced st g lp j"
    and q: "\<And>xs p ys. j = xs @ Relayed p # ys \<Longrightarrow> no_relay ys \<Longrightarrow> \<not> set_back_in lp ys \<Longrightarrow> st p + g \<le> st q"
  shows "spaced st g lp (j @ [Relayed q])"
  unfolding spaced_def
proof (intro allI impI, elim conjE)
  fix xs p ys q' zs
  assume j: "j @ [Relayed q] = xs @ Relayed p # ys @ Relayed q' # zs" and n: "no_relay ys"
  show "st p + g \<le> st q' \<or> set_back_in lp ys"
  proof (cases zs rule: rev_exhaust)
    case Nil
    have "j @ [Relayed q] = (xs @ Relayed p # ys) @ [Relayed q']" using j Nil by simp
    then have "j = xs @ Relayed p # ys" "q' = q" by (simp_all only: append1_eq_conv mn_event.inject)
    then show ?thesis using q n by blast
  next
    case (snoc zs' e)
    then have "j = xs @ Relayed p # ys @ Relayed q' # zs'"
      using arg_cong [OF j, of butlast] by (simp add: butlast_append)
    then show ?thesis using s n unfolding spaced_def by blast
  qed
qed

lemma snoc_relay_last:
  assumes "j @ [e] = xs @ Relayed p # ys" "no_relay ys"
  shows "(e = Relayed p \<and> xs = j \<and> ys = []) \<or> (\<exists>ys'. j = xs @ Relayed p # ys' \<and> ys = ys' @ [e])"
proof (cases ys rule: rev_exhaust)
  case Nil
  then show ?thesis using assms(1) by simp
next
  case (snoc ys' e')
  then have "j @ [e] = (xs @ Relayed p # ys') @ [e']" using assms(1) by simp
  then show ?thesis using snoc by (simp only: append1_eq_conv) simp
qed

lemma elsewhere_pings:
  assumes a: "pings_ok st g lp a"
    and b: "journal b = journal a @ [Elsewhere (mnodeman a) (mnodeman b)]"
  shows "pings_ok st g lp b"
  unfolding pings_ok_def
proof (intro conjI allI impI, unfold b)
  show "spaced st g lp (journal a @ [Elsewhere (mnodeman a) (mnodeman b)])"
    using a by (simp add: pings_ok_def spaced_snoc_elsewhere)
next
  fix xs p ys
  assume *: "journal a @ [Elsewhere (mnodeman a) (mnodeman b)] = xs @ Relayed p # ys \<and> no_relay ys \<and> \<not> set_back_in lp ys"
  then obtain ys' where y: "journal a = xs @ Relayed p # ys'" "ys = ys' @ [Elsewhere (mnodeman a) (mnodeman b)]"
    using snoc_relay_last by (metis mn_event.distinct(1))
  then obtain t where "lp (mnodeman a) = Some t" "st p \<le> t" using a * unfolding pings_ok_def by auto
  moreover have "\<not> sets_back lp (mnodeman a) (mnodeman b)" using * y by simp
  ultimately show "\<exists>t. lp (mnodeman b) = Some t \<and> st p \<le> t"
    by (auto simp: sets_back_def split: option.splits)
qed

lemma relayed_pings:
  assumes a: "pings_ok st g lp a"
    and b: "journal b = journal a @ [Relayed p]" "lp (mnodeman b) = Some (st p)"
    and gap: "\<And>t. lp (mnodeman a) = Some t \<Longrightarrow> t + g \<le> st p"
  shows "pings_ok st g lp b"
  unfolding pings_ok_def
proof (intro conjI allI impI, unfold b)
  show "spaced st g lp (journal a @ [Relayed p])"
    using a gap unfolding pings_ok_def by (intro spaced_snoc_relayed) force+
next
  fix xs q ys
  assume "journal a @ [Relayed p] = xs @ Relayed q # ys \<and> no_relay ys \<and> \<not> set_back_in lp ys"
  then have "p = q" using snoc_relay_last [of "journal a" "Relayed p" xs q ys] by auto
  then show "\<exists>t. Some (st p) = Some t \<and> st q \<le> t" by simp
qed

lemma pings_ok_elsewhere: "pings_ok st g lp a \<Longrightarrow> pings_ok st g lp (elsewhere f a)"
  by (erule elsewhere_pings) (simp add: elsewhere_def)

lemma ManageStateInitial_pings: "pings_ok st g lp a \<Longrightarrow> pings_ok st g lp (ManageStateInitial E a)"
proof (cases rule: ManageStateInitial_cases [of E a])
  case (rest svc)
  assume "pings_ok st g lp a"
  then have "pings_ok st g lp (a\<lparr>service := svc\<rparr>)" by (rule pings_ok_same) simp_all
  then show ?thesis unfolding rest(3) by (rule pings_ok_elsewhere)
next
  case (fail svc r)
  assume "pings_ok st g lp a"
  then show ?thesis unfolding fail(2) by (rule pings_ok_same) (simp_all add: not_capable_def)
qed

lemma SendMasternodePing_pings:
  assumes E: "list_keeps_time st g lp E" and a: "pings_ok st g lp a"
  shows "pings_ok st g lp (snd (SendMasternodePing E a))"
proof (cases "fst (SendMasternodePing E a)")
  case False
  then show ?thesis
    by (intro pings_ok_same [OF a])
      (auto simp: SendMasternodePing_def not_capable_def split: option.splits if_splits)
next
  case True
  then obtain p where p: "\<not> IsMasternodePingedWithin E (mnodeman a) p"
    "snd (SendMasternodePing E a) = a\<lparr>mnodeman := SetMasternodeLastPing E (mnodeman a) p, journal := journal a @ [Relayed p]\<rparr>"
    by (auto simp: SendMasternodePing_def split: option.splits if_splits)
  have "lp (mnodeman a) = Some t \<Longrightarrow> t + g \<le> st p" for t
    using E p(1) unfolding list_keeps_time_def by fastforce
  moreover have "lp (SetMasternodeLastPing E (mnodeman a) p) = Some (st p)" using E by (simp add: list_keeps_time_def)
  ultimately show ?thesis unfolding p(2) by (intro relayed_pings [OF a]) simp_all
qed

lemma ManageState_pings:
  assumes E: "list_keeps_time st g lp E" and a: "pings_ok st g lp a"
  shows "pings_ok st g lp (ManageState E a)"
proof -
  have s: "pings_ok st g lp (b\<lparr>nState := x\<rparr>)" if "pings_ok st g lp b" for b x
    using that by (rule pings_ok_same) simp_all
  have 1: "pings_ok st g lp (if c then b\<lparr>nState := x\<rparr> else b)" if "pings_ok st g lp b" for b c x
    using s [OF that] that by simp
  have 2: "pings_ok st g lp (if c then ManageStateInitial E b else b)" if "pings_ok st g lp b" for b c
    using ManageStateInitial_pings [OF that, of E] that by simp
  have 3: "pings_ok st g lp (if c then elsewhere f b else if d then
      if nState (elsewhere f b) \<noteq> x then elsewhere h (elsewhere f b) else elsewhere f b
      else b)" if "pings_ok st g lp b" for b c d x f h
    using pings_ok_elsewhere [OF that] pings_ok_elsewhere [OF pings_ok_elsewhere [OF that]] that by simp
  show ?thesis
  proof (cases "fMasterNode E \<and> (NetworkIDString E = REGTEST E \<or> IsBlockchainSynced E)")
    case True
    then have n: "\<not> \<not> fMasterNode E" "\<not> (NetworkIDString E \<noteq> REGTEST E \<and> \<not> IsBlockchainSynced E)" by auto
    show ?thesis unfolding ManageState_def Let_def if_not_P [OF n(1)] if_not_P [OF n(2)]
      by (rule SendMasternodePing_pings [OF E 3 [OF 2 [OF 1 [OF a]]]])
  next
    case False
    then show ?thesis using a s [OF a] by (auto simp: ManageState_def)
  qed
qed

section \<open>Properties\<close>

text \<open>
  A masternode with no usable address does not start. \<open>ManageStateInitial\<close> goes on to the
  start of the masternode only if the node listens, with a valid address whose port is the
  main network's port on the main network and another one elsewhere; otherwise the state is
  \<open>NOT_CAPABLE\<close> with a reason, and nothing else but the address changes.
\<close>

theorem initial_address_checked:
  "(\<exists>svc. fListen E \<and> good_service E svc \<and> ManageStateInitial E a = elsewhere (initial_rest E) (a\<lparr>service := svc\<rparr>)) \<or>
   (\<exists>svc r. r \<noteq> [] \<and> ManageStateInitial E a =
      a\<lparr>service := svc, nState := ACTIVE_MASTERNODE_NOT_CAPABLE, strNotCapableReason := r\<rparr>)"
  by (rule ManageStateInitial_cases [of E a]) (auto simp: not_capable_def)

text \<open>A node on the main network at a fixed address, pinging at a given time.\<close>

definition demo_mn_env :: "int \<Rightarrow> (nat, unit, int, int option) mn_env" where
  "demo_mn_env t = \<lparr>fMasterNode = True, NetworkIDString = ''main'', REGTEST = ''regtest'', MAIN = ''main'',
     IsBlockchainSynced = True, fListen = True, vNodes = [], GetLocal = (\<lambda>s p. (True, 9999)),
     IsValidNetAddr = (\<lambda>s. True), GetPort = int, mainnetDefaultPort = 9999, nMasternodeMinimumConfirmations = 15,
     format_d = (\<lambda>i. []), initial_rest = (\<lambda>a. a\<lparr>eType := MASTERNODE_REMOTE\<rparr>),
     ManageStateRemote = (\<lambda>a. a\<lparr>nState := ACTIVE_MASTERNODE_STARTED, fPingerEnabled := True\<rparr>),
     ManageStateLocal = (\<lambda>a. a), mn_Has = (\<lambda>m. True), sign_ping = Some t,
     IsMasternodePingedWithin = (\<lambda>m p. case m of None \<Rightarrow> False | Some l \<Rightarrow> p - l < 600),
     SetMasternodeLastPing = (\<lambda>m p. Some p)\<rparr>"

definition demo_masternode :: "(nat, int, int option) CActiveMasternode" where
  "demo_masternode = \<lparr>eType = MASTERNODE_UNKNOWN, nState = ACTIVE_MASTERNODE_SYNC_IN_PROCESS,
     fPingerEnabled = False, strNotCapableReason = [], service = 0, mnodeman = None, journal = []\<rparr>"

lemma demo_list_keeps_time: "list_keeps_time (\<lambda>p. p) 600 (\<lambda>m. m) (demo_mn_env t)"
  by (auto simp: list_keeps_time_def demo_mn_env_def split: option.splits)

end
