(* ===== verification/MasternodeRpc.thy ===== *)
theory MasternodeRpc
  imports Rpc Mixing ActiveMasternode
begin

text \<open>
  The commands that drive the local masternode and the mixing of coins,
  \<open>ChainX-MN/rpcmasternode.cpp\<close>, over \<open>ActiveMasternode\<close> and the pool of \<open>Mixing\<close>, and the
  helpers of \<open>ChainX-MN/rpcwallet.cpp\<close>. \<open>rpcmasternode.cpp\<close> ends after \<open>masternode start\<close>: the
  other subcommands of \<open>masternode\<close> are the argument \<open>rest\<close>, of which nothing is assumed: the
  journal of \<open>ActiveMasternode\<close> says what they did to the masternode list. The pool's methods,
  the masternode list and the wallet are fields of \<open>mnrpc_env\<close>.
\<close>

section \<open>Environment and state\<close>

record wallet_view =
  wallet_IsCrypted :: bool
  wallet_IsLocked :: bool
  nKeysLeftSinceAutoBackup :: int
  HasMasternodeVinAndKeys :: bool

record winner_view =
  winner_addr :: string
  winner_nProtocolVersion :: int
  winner_vin :: string
  winner_payee :: string
  lastPing_is_default :: bool
  winner_sigTime :: i64
  lastPing_sigTime :: i64

record ('d, 'p, 'mn, 'addr, 'peer, 'ping, 'mnl) mnrpc_env = "'d uni_reader" +
  pwalletMain :: "wallet_view option"
  mn :: "('addr, 'peer, 'ping, 'mnl) mn_env"
  DoAutomaticDenominating :: "'p \<Rightarrow> bool \<times> 'p"
  pool_GetStatus :: "'p \<Rightarrow> string \<times> 'p"
  pool_GetStateString :: "'p \<Rightarrow> string"
  ResetPool :: "'p \<Rightarrow> 'p"
  fPrivateSendMultiSession :: bool
  mn_outpoint :: "'mn \<Rightarrow> string"
  mn_addr_ToString :: "'mn \<Rightarrow> string"
  masternodelist :: "'d univalue list \<Rightarrow> bool \<Rightarrow> 'd univalue rpc"
  ConnectNode :: "string \<Rightarrow> bool"
  mnodeman_size :: "'mnl \<Rightarrow> int"
  CountEnabled :: "'mnl \<Rightarrow> int option \<Rightarrow> int"
  QueueCount :: "'mnl \<Rightarrow> int"
  chain_Height :: int
  UpdateLastPaid :: "'mnl \<Rightarrow> 'mnl"
  NextInQueueForPayment :: "'mnl \<Rightarrow> int \<Rightarrow> winner_view option"

record ('p, 'addr, 'ping, 'mnl) node_state =
  fEnablePrivateSend :: bool
  darkSendPool :: 'p
  active :: "('addr, 'ping, 'mnl) CActiveMasternode"

section \<open>Helpers of the wallet's commands\<close>

definition HelpRequiringPassphrase :: "wallet_view option \<Rightarrow> string" where
  "HelpRequiringPassphrase w = (case w of
     Some v \<Rightarrow> if wallet_IsCrypted v then CHR 0x0A # ''Requires wallet passphrase to be set with walletpassphrase call.'' else []
   | None \<Rightarrow> [])"

definition EnsureWalletIsAvailable :: "wallet_view option \<Rightarrow> bool \<Rightarrow> bool rpc" where
  "EnsureWalletIsAvailable w avoidException =
     (if w = None then
        if \<not> avoidException then Inl (JSONRPCError RPC_METHOD_NOT_FOUND ''Method not found (disabled)'')
        else Inr False
      else Inr True)"

definition EnsureWalletIsUnlocked :: "wallet_view option \<Rightarrow> unit rpc" where
  "EnsureWalletIsUnlocked w = (case w of
     None \<Rightarrow> Inl (Undefined NullDeref)
   | Some v \<Rightarrow>
       if wallet_IsLocked v then Inl (JSONRPCError RPC_WALLET_UNLOCK_NEEDED
         ''Error: Please enter the wallet passphrase with walletpassphrase first.'')
       else Inr ())"

definition AccountFromValue :: "('d univalue \<Rightarrow> string rpc) \<Rightarrow> 'd univalue \<Rightarrow> string rpc" where
  "AccountFromValue get v = rbind (get v) (\<lambda>strAccount.
     if strAccount = ''*'' then Inl (JSONRPCError RPC_WALLET_INVALID_ACCOUNT_NAME ''Invalid account name'')
     else Inr strAccount)"

text \<open>
  What \<open>WalletTxToJSON\<close> asks of a transaction and of the node. \<open>block_time\<close> is that of the block
  that \<open>mapBlockIndex\<close> has for the transaction; for an unknown hash it has a null pointer.
\<close>

record wallet_tx_view =
  GetDepthInMainChain :: int
  GetIXConfirmations :: int
  IsCoinBase :: bool
  hashBlock_hex :: string
  wtx_nIndex :: int
  block_time :: "int option"
  IsTrusted :: bool
  wtx_hash_hex :: string
  GetConflicts :: "string list"
  GetTxTime :: int
  nTimeReceived :: nat
  in_mempool :: bool
  SignalsOptInRBF :: bool
  IsRBFOptIn :: bool
  wtx_mapValue :: "(string, string) stdmap"

definition rbf_status :: "wallet_tx_view \<Rightarrow> string" where
  "rbf_status t =
     (if GetDepthInMainChain t \<le> 0 then
        if \<not> in_mempool t then (if SignalsOptInRBF t then ''yes'' else ''unknown'')
        else if IsRBFOptIn t then ''yes'' else ''no''
      else ''no'')"

definition block_pairs :: "wallet_tx_view \<Rightarrow> (string \<times> 'd univalue) list rpc" where
  "block_pairs t =
     (if GetDepthInMainChain t > 0 then (case block_time t of
        None \<Rightarrow> Inl (Undefined NullDeref)
      | Some bt \<Rightarrow> Inr [(''blockhash'', VSTR (hashBlock_hex t)), (''blockindex'', VNUM (wtx_nIndex t)), (''blocktime'', VNUM bt)])
      else Inr [(''trusted'', VBOOL (IsTrusted t))])"

definition WalletTxToJSON ::
    "wallet_tx_view \<Rightarrow> (string \<times> 'd univalue) list \<Rightarrow> (string \<times> 'd univalue) list rpc" where
  "WalletTxToJSON t entry = rbind (block_pairs t) (\<lambda>block. Inr (entry @
     [(''confirmations'', VNUM (GetIXConfirmations t + GetDepthInMainChain t)),
      (''bcconfirmations'', VNUM (GetDepthInMainChain t))] @
     (if IsCoinBase t then [(''generated'', VBOOL True)] else []) @ block @
     [(''txid'', VSTR (wtx_hash_hex t)),
      (''walletconflicts'', VARR (map VSTR (GetConflicts t))),
      (''time'', VNUM (GetTxTime t)),
      (''timereceived'', VNUM (int (nTimeReceived t))),
      (''bip125-replaceable'', VSTR (rbf_status t))] @
     map (\<lambda>(k, v). (k, VSTR v)) (wtx_mapValue t)))"

section \<open>Mixing\<close>

definition privatesend_start where
  "privatesend_start (E :: ('d, 'p, 'mn, 'addr, 'peer, 'ping, 'mnl) mnrpc_env) st = (case EnsureWalletIsUnlocked (pwalletMain E) of
     Inl e \<Rightarrow> (Inl e, st)
   | Inr _ \<Rightarrow>
       if fMasterNode (mn E) then (Inr (VSTR ''Mixing is not supported from masternodes'' :: 'd univalue), st)
       else let (result, p) = DoAutomaticDenominating E (darkSendPool st);
                st = st\<lparr>fEnablePrivateSend := True, darkSendPool := p\<rparr>
            in if result then (Inr (VSTR ''Mixing started successfully''), st)
               else let (status, p) = pool_GetStatus E p
                    in (Inr (VSTR (''Mixing start failed: '' @ status @ '', will retry'')), st\<lparr>darkSendPool := p\<rparr>))"

definition privatesend where
  "privatesend E st params fHelp =
     (if fHelp \<or> length params \<noteq> 1 then (Inl (HelpText ''privatesend''), st)
      else case get_str E (params ! 0) of
        Inl e \<Rightarrow> (Inl e, st)
      | Inr cmd \<Rightarrow>
          if cmd = ''start'' then privatesend_start E st
          else if cmd = ''stop'' then (Inr (VSTR ''Mixing was stopped''), st\<lparr>fEnablePrivateSend := False\<rparr>)
          else if cmd = ''reset'' then
            (Inr (VSTR ''Mixing was reset''), st\<lparr>darkSendPool := ResetPool E (darkSendPool st)\<rparr>)
          else (Inr (VSTR ''Unknown command, please see \"help privatesend\"''), st))"

definition submitted_pairs where
  "submitted_pairs E p = (case pSubmittedToMasternode p of
     None \<Rightarrow> []
   | Some m \<Rightarrow> [(''outpoint'', VSTR (mn_outpoint E m)), (''addr'', VSTR (mn_addr_ToString E m))])"

definition wallet_pairs where
  "wallet_pairs (E :: ('d, 'p, 'mn, 'addr, 'peer, 'ping, 'mnl) mnrpc_env) = (case pwalletMain E of
     None \<Rightarrow> [] :: (string \<times> 'd univalue) list
   | Some w \<Rightarrow> [(''keys_left'', VNUM (nKeysLeftSinceAutoBackup w)),
       (''warnings'', VSTR (if nKeysLeftSinceAutoBackup w < PRIVATESEND_KEYS_THRESHOLD_WARNING
                         then ''WARNING: keypool is almost depleted!'' else []))])"

definition getpoolinfo where
  "getpoolinfo (E :: ('d, _, _, _, _, _, _) mnrpc_env) st (params :: 'd univalue list) fHelp =
     (if fHelp \<or> length params \<noteq> 0 then (Inl (HelpText ''getpoolinfo''), st)
      else
        let p = darkSendPool st;
            head = [(''state'', VSTR (pool_GetStateString E p)),
                    (''mixing_mode'', VSTR (if fPrivateSendMultiSession E then ''multi-session'' else ''normal'')),
                    (''queue'', VNUM (GetQueueSize p)),
                    (''entries'', VNUM (GetEntriesCount p))];
            (status, p) = pool_GetStatus E p
        in (Inr (VOBJ (head @ [(''status'', VSTR status)] @ submitted_pairs E p @ wallet_pairs E)),
            st\<lparr>darkSendPool := ResetPool E p\<rparr>))"

section \<open>The masternode\<close>

definition masternode_connect where
  "masternode_connect E params =
     (if length params < 2 then Inl (JSONRPCError RPC_INVALID_PARAMETER ''Masternode address required'')
      else rbind (get_str E (params ! 1)) (\<lambda>strAddress.
        if \<not> ConnectNode E strAddress then
          Inl (JSONRPCError RPC_INTERNAL_ERROR (''Couldn't connect to masternode '' @ strAddress))
        else Inr (VSTR ''successfully connected'')))"

text \<open>\<open>None\<close> when no mode matches and the code goes on.\<close>

definition count_mode where
  "count_mode E mnl strMode =
     (let fmt = format_d (mn E); ps = CountEnabled E mnl (Some MIN_PRIVATESEND_PEER_PROTO_VERSION) in
      if strMode = ''ps'' then Some (VNUM ps)
      else if strMode = ''enabled'' then Some (VNUM (CountEnabled E mnl None))
      else if strMode = ''qualify'' then Some (VNUM (QueueCount E mnl))
      else if strMode = ''all'' then
        Some (VSTR (''Total: '' @ fmt (mnodeman_size E mnl) @ '' (PS Compatible: '' @ fmt ps @ '' / Enabled: '' @
          fmt (CountEnabled E mnl None) @ '' / Qualify: '' @ fmt (QueueCount E mnl) @ '')''))
      else None)"

text \<open>A subcommand that is not in the repository; it does not write the journal.\<close>

definition rest_command where
  "rest_command rest st params = (case rest st params of (r, st') \<Rightarrow>
     (r, st'\<lparr>active := elsewhere (\<lambda>a. active st') (active st)\<rparr>))"

definition masternode_count where
  "masternode_count E st rest params =
     (if length params > 2 then (Inl (JSONRPCError RPC_INVALID_PARAMETER ''Too many parameters''), st)
      else if length params = 1 then (Inr (VNUM (mnodeman_size E (mnodeman (active st)))), st)
      else case get_str E (params ! 1) of
        Inl e \<Rightarrow> (Inl e, st)
      | Inr strMode \<Rightarrow> (case count_mode E (mnodeman (active st)) strMode of
          Some v \<Rightarrow> (Inr v, st)
        | None \<Rightarrow> rest_command rest st params))"

definition winner_times :: "winner_view \<Rightarrow> (i64 \<times> i64) rpc" where
  "winner_times w =
     (if lastPing_is_default w then Inr (winner_sigTime w, 0)
      else if fits_i64 (sint (lastPing_sigTime w) - sint (winner_sigTime w))
        then Inr (lastPing_sigTime w, lastPing_sigTime w - winner_sigTime w)
      else Inl (Undefined SignedOverflow))"

definition masternode_winner where
  "masternode_winner (E :: ('d, 'p, 'mn, 'addr, 'peer, 'ping, 'mnl) mnrpc_env) st strCommand =
     (let nHeight = chain_Height E + (if strCommand = ''current'' then 1 else 10);
          mnl = UpdateLastPaid E (mnodeman (active st));
          st = st\<lparr>active := elsewhere (\<lambda>a. a\<lparr>mnodeman := mnl\<rparr>) (active st)\<rparr>
      in (case NextInQueueForPayment E mnl nHeight of
            None \<Rightarrow> Inr (VSTR ''unknown'' :: 'd univalue)
          | Some w \<Rightarrow> rbind (winner_times w) (\<lambda>(seen, activeseconds). Inr (VOBJ
              [(''height'', VNUM nHeight), (''IP:port'', VSTR (winner_addr w)),
               (''protocol'', VNUM (winner_nProtocolVersion w)), (''vin'', VSTR (winner_vin w)),
               (''payee'', VSTR (winner_payee w)), (''lastseen'', VNUM (sint seen)),
               (''activeseconds'', VNUM (sint activeseconds))])), st))"

definition masternode_debug where
  "masternode_debug E st =
     (if nState (active st) \<noteq> ACTIVE_MASTERNODE_INITIAL \<or> \<not> IsBlockchainSynced (mn E) then
        Inr (VSTR (GetStatus (mn E) (active st)))
      else if pwalletMain E = None \<or> \<not> HasMasternodeVinAndKeys (the (pwalletMain E)) then
        Inl (JSONRPCError RPC_INVALID_PARAMETER
          ''Missing masternode input, please look at the documentation for instructions on masternode creation'')
      else Inr (VSTR (GetStatus (mn E) (active st))))"

definition masternode_start where
  "masternode_start (E :: ('d, 'p, 'mn, 'addr, 'peer, 'ping, 'mnl) mnrpc_env) st =
     (if \<not> fMasterNode (mn E) then
        (Inl (JSONRPCError RPC_INTERNAL_ERROR ''You must set masternode=1 in the configuration''), st)
      else case EnsureWalletIsUnlocked (pwalletMain E) of
        Inl e \<Rightarrow> (Inl e, st)
      | Inr _ \<Rightarrow>
          let st = (if nState (active st) \<noteq> ACTIVE_MASTERNODE_STARTED
                    then st\<lparr>active := ManageState (mn E) ((active st)\<lparr>nState := ACTIVE_MASTERNODE_INITIAL\<rparr>)\<rparr>
                    else st)
          in (Inr (VSTR (GetStatus (mn E) (active st)) :: 'd univalue), st))"

definition masternode_commands :: "string list" where
  "masternode_commands = [''start'', ''start-alias'', ''start-all'', ''start-missing'', ''start-disabled'',
     ''list'', ''list-conf'', ''count'', ''debug'', ''current'', ''winner'', ''winners'', ''genkey'',
     ''connect'', ''outputs'', ''status'']"

definition masternode_run where
  "masternode_run E rest st strCommand params fHelp =
     (if strCommand = ''list'' then (masternodelist E (tl params) fHelp, st)
      else if strCommand = ''connect'' then (masternode_connect E params, st)
      else if strCommand = ''count'' then masternode_count E st rest params
      else if strCommand = ''current'' \<or> strCommand = ''winner'' then masternode_winner E st strCommand
      else if strCommand = ''debug'' then (masternode_debug E st, st)
      else if strCommand = ''start'' then masternode_start E st
      else rest_command rest st params)"

definition masternode where
  "masternode E rest st params fHelp = (case opt_arg (get_str E) params 0 [] of
     Inl e \<Rightarrow> (Inl e, st)
   | Inr strCommand \<Rightarrow>
       if strCommand = ''start-many'' then
         (Inl (JSONRPCError RPC_INVALID_PARAMETER ''DEPRECATED, please use start-all instead''), st)
       else if fHelp \<or> strCommand \<notin> set masternode_commands then (Inl (HelpText ''masternode''), st)
       else masternode_run E rest st strCommand params fHelp)"

section \<open>Lemmas\<close>

lemma EnsureWalletIsUnlocked_iff:
  "EnsureWalletIsUnlocked w = Inr u \<longleftrightarrow> (\<exists>v. w = Some v \<and> \<not> wallet_IsLocked v)"
  by (auto simp: EnsureWalletIsUnlocked_def split: option.splits)

lemma ManageState_unsynced:
  "fMasterNode E \<Longrightarrow> NetworkIDString E \<noteq> REGTEST E \<Longrightarrow> \<not> IsBlockchainSynced E \<Longrightarrow>
   ManageState E a = a\<lparr>nState := ACTIVE_MASTERNODE_SYNC_IN_PROCESS\<rparr>"
  by (simp add: ManageState_def)

section \<open>Properties\<close>

text \<open>
  \<open>masternode start\<close> answers with the state it leaves. If it fails (not configured as a
  masternode, no wallet, a locked one) nothing has changed; otherwise the answer describes the
  state of the masternode after the command, a started masternode is left alone, and one that
  is not started is managed from the initial state.
\<close>

theorem start_reports_state:
  "case masternode_start E st of
     (Inl e, st') \<Rightarrow> st' = st
   | (Inr v, st') \<Rightarrow> fMasterNode (mn E) \<and> (\<exists>w. pwalletMain E = Some w \<and> \<not> wallet_IsLocked w) \<and>
       v = VSTR (GetStatus (mn E) (active st')) \<and>
       active st' = (if nState (active st) = ACTIVE_MASTERNODE_STARTED then active st
         else ManageState (mn E) ((active st)\<lparr>nState := ACTIVE_MASTERNODE_INITIAL\<rparr>)) \<and>
       darkSendPool st' = darkSendPool st \<and> fEnablePrivateSend st' = fEnablePrivateSend st"
proof (cases "fMasterNode (mn E) \<and> (\<exists>w. pwalletMain E = Some w \<and> \<not> wallet_IsLocked w)")
  case True
  then have "EnsureWalletIsUnlocked (pwalletMain E) = Inr ()" by (auto simp: EnsureWalletIsUnlocked_def)
  then show ?thesis using True by (auto simp: masternode_start_def Let_def)
next
  case False
  then show ?thesis
    by (auto simp: masternode_start_def EnsureWalletIsUnlocked_def split: option.splits)
qed

text \<open>What \<open>ResetPool\<close> does to the session: it is idle, without queues and entries.\<close>

definition resets where
  "resets reset \<longleftrightarrow> (\<forall>p. vecDarksendQueue (reset p) = [] \<and> vecEntries (reset p) = [] \<and>
     pool_nState (reset p) = POOL_STATE_IDLE \<and> pSubmittedToMasternode (reset p) = None)"

lemma as_int_0 [simp]: "as_int 0 = 0"
  by (simp add: as_int_def)

text \<open>
  Asking for the pool ends the session. \<open>getpoolinfo\<close>, a query, resets the pool: whatever
  was queued or mixed before, afterwards the pool is idle, and the query repeated reports no
  queue, no entries and no masternode.
\<close>

theorem getpoolinfo_resets:
  assumes "resets (ResetPool E)" "\<forall>p. snd (pool_GetStatus E p) = p"
  shows "\<exists>obj st'. getpoolinfo E st [] False = (Inr (VOBJ obj), st') \<and> pool_nState (darkSendPool st') = POOL_STATE_IDLE \<and>
    fst (getpoolinfo E st' [] False) = Inr (VOBJ ([(''state'', VSTR (pool_GetStateString E (darkSendPool st'))),
      (''mixing_mode'', VSTR (if fPrivateSendMultiSession E then ''multi-session'' else ''normal'')),
      (''queue'', VNUM 0), (''entries'', VNUM 0), (''status'', VSTR (fst (pool_GetStatus E (darkSendPool st'))))] @
      wallet_pairs E))"
proof -
  let ?st = "st\<lparr>darkSendPool := ResetPool E (darkSendPool st)\<rparr>"
  define f where "f = (\<lambda>q. fst (pool_GetStatus E q))"
  have p: "pool_GetStatus E q = (f q, q)" for q
    using assms(2) by (cases "pool_GetStatus E q") (metis f_def fst_conv snd_conv)
  have g: "snd (getpoolinfo E s [] False) = s\<lparr>darkSendPool := ResetPool E (darkSendPool s)\<rparr>"
    "\<exists>obj. fst (getpoolinfo E s [] False) = Inr (VOBJ obj)" for s
    by (simp_all add: getpoolinfo_def Let_def p)
  have "fst (getpoolinfo E ?st [] False) = Inr (VOBJ ([(''state'', VSTR (pool_GetStateString E (darkSendPool ?st))),
      (''mixing_mode'', VSTR (if fPrivateSendMultiSession E then ''multi-session'' else ''normal'')),
      (''queue'', VNUM 0), (''entries'', VNUM 0), (''status'', VSTR (fst (pool_GetStatus E (darkSendPool ?st))))] @
      wallet_pairs E))"
    using assms(1) by (simp add: getpoolinfo_def Let_def p GetQueueSize_def GetEntriesCount_def
        submitted_pairs_def resets_def)
  moreover have "pool_nState (darkSendPool ?st) = POOL_STATE_IDLE" using assms(1) by (simp add: resets_def)
  moreover obtain obj where "getpoolinfo E st [] False = (Inr (VOBJ obj), ?st)"
    using g [of st] by (metis prod.collapse)
  ultimately show ?thesis by (intro exI [of _ obj] exI [of _ ?st] conjI)
qed

section \<open>The node in operation\<close>

text \<open>
  The steps of a node: the periodic call, the commands, with any other subcommands, and what
  the rest of the node does to the masternode list between them, such as on a message from the
  network. Calls are taken one at a time.
\<close>

inductive node_step for Es where
  periodic: "E \<in> Es \<Longrightarrow> node_step Es st (st\<lparr>active := ManageState (mn E) (active st)\<rparr>)"
| masternode_command: "E \<in> Es \<Longrightarrow> masternode E rest st params fHelp = (r, st') \<Longrightarrow> node_step Es st st'"
| privatesend_command: "E \<in> Es \<Longrightarrow> privatesend E st params fHelp = (r, st') \<Longrightarrow> node_step Es st st'"
| getpoolinfo_command: "E \<in> Es \<Longrightarrow> getpoolinfo E st params fHelp = (r, st') \<Longrightarrow> node_step Es st st'"
| list_changed: "node_step Es st (st\<lparr>active := elsewhere (\<lambda>a. a\<lparr>mnodeman := m\<rparr>) (active st)\<rparr>)"

lemma privatesend_active: "active (snd (privatesend E st params fHelp)) = active st"
proof (cases "get_str E (params ! 0)")
  case (Inr cmd)
  have "active (snd (privatesend_start E st)) = active st"
    by (cases "EnsureWalletIsUnlocked (pwalletMain E)") (simp_all add: privatesend_start_def Let_def split: prod.splits)
  then show ?thesis using Inr by (simp add: privatesend_def)
qed (simp add: privatesend_def)

lemma getpoolinfo_active: "active (snd (getpoolinfo E st params fHelp)) = active st"
  by (simp add: getpoolinfo_def Let_def split: prod.splits)

lemma rest_pings:
  "pings_ok sig g lp (active st) \<Longrightarrow> pings_ok sig g lp (active (snd (rest_command rest st params)))"
  by (simp add: rest_command_def pings_ok_elsewhere split: prod.split)

lemma count_pings:
  "pings_ok sig g lp (active st) \<Longrightarrow> pings_ok sig g lp (active (snd (masternode_count E st rest params)))"
  by (cases "get_str E (params ! 1)") (simp_all add: masternode_count_def rest_pings split: option.split)

lemma winner_pings:
  "pings_ok sig g lp (active st) \<Longrightarrow> pings_ok sig g lp (active (snd (masternode_winner E st c)))"
  by (simp add: masternode_winner_def Let_def pings_ok_elsewhere)

lemma start_pings:
  assumes "list_keeps_time sig g lp (mn E)" "pings_ok sig g lp (active st)"
  shows "pings_ok sig g lp (active (snd (masternode_start E st)))"
proof -
  have "pings_ok sig g lp ((active st)\<lparr>nState := ACTIVE_MASTERNODE_INITIAL\<rparr>)"
    by (rule pings_ok_same [OF assms(2)]) simp_all
  from ManageState_pings [OF assms(1) this] assms(2) show ?thesis
    by (cases "EnsureWalletIsUnlocked (pwalletMain E)") (simp_all add: masternode_start_def Let_def)
qed

lemma masternode_pings:
  assumes "list_keeps_time sig g lp (mn E)" "pings_ok sig g lp (active st)"
  shows "pings_ok sig g lp (active (snd (masternode E rest st params fHelp)))"
proof (cases "opt_arg (get_str E) params 0 []")
  case (Inl e)
  then show ?thesis using assms(2) by (simp add: masternode_def)
next
  case (Inr c)
  have "pings_ok sig g lp (active (snd (masternode_run E rest st c params h)))" for h
    unfolding masternode_run_def
    using assms(2) winner_pings [OF assms(2), of E] start_pings [OF assms] count_pings [OF assms(2), of E rest params]
      rest_pings [OF assms(2), of rest params] by simp
  then show ?thesis using assms(2) Inr by (simp add: masternode_def)
qed

lemma node_step_pings:
  assumes "node_step Es st st'" "\<forall>E \<in> Es. list_keeps_time sig g lp (mn E)" "pings_ok sig g lp (active st)"
  shows "pings_ok sig g lp (active st')"
  using assms
proof (cases rule: node_step.cases)
  case (periodic E)
  then show ?thesis using assms(2,3) by (auto intro: ManageState_pings)
next
  case (masternode_command E rest params fHelp r)
  then show ?thesis using masternode_pings [of sig g lp E st rest params fHelp] assms(2,3) by simp
next
  case (privatesend_command E params fHelp r)
  then show ?thesis using privatesend_active [of E st params fHelp] assms(3) by simp
next
  case (getpoolinfo_command E params fHelp r)
  then show ?thesis using getpoolinfo_active [of E st params fHelp] assms(3) by simp
next
  case (list_changed m)
  then show ?thesis using pings_ok_elsewhere [OF assms(3)] by simp
qed

text \<open>
  C34: this code does not make the masternode ping too often. However the periodic call, the
  commands \<open>masternode\<close>, with any subcommand, \<open>privatesend\<close> and \<open>getpoolinfo\<close>, and changes of the
  masternode list by the rest of the node are interleaved, and whatever the parts of
  \<open>ManageState\<close> and the subcommands do that are not in the repository: of two pings relayed
  one after the other by \<open>SendMasternodePing\<close> the second is at least the minimum gap later,
  unless code outside the repository made the list forget the last ping, or take an earlier
  one for it, in between. The list is assumed to say which ping it was given last, and
  whether that was within the gap.
\<close>

theorem commands_keep_pings_spaced:
  assumes "(node_step Es)\<^sup>*\<^sup>* st st'" "\<forall>E \<in> Es. list_keeps_time sigTime gap lastPing (mn E)"
    and "journal (active st) = []"
    and "journal (active st') = xs @ Relayed p # ys @ Relayed q # zs" "no_relay ys"
  shows "sigTime p + gap \<le> sigTime q \<or> (\<exists>m m'. Elsewhere m m' \<in> set ys \<and> sets_back lastPing m m')"
proof -
  from assms(1) have "pings_ok sigTime gap lastPing (active st')"
    by (induction rule: rtranclp_induct) (auto intro: node_step_pings [OF _ assms(2)] pings_ok_start assms(3))
  then have "spaced sigTime gap lastPing (journal (active st'))" by (simp add: pings_ok_def)
  then show ?thesis using assms(4,5) unfolding spaced_def set_back_in_def by blast
qed

section \<open>Examples\<close>

type_synonym demo_pool = "(unit, unit, unit, unit, unit) CDarksendPool"

definition idle_pool :: demo_pool where
  "idle_pool = \<lparr>vecDarksendQueue = [], vecMasternodesUsed = [], vecDenominationsSkipped = [],
     vecOutPointLocked = [], vecSessionCollaterals = [], vecEntries = [], pool_nState = POOL_STATE_IDLE,
     nTimeLastSuccessfulStep = 0, nCachedLastSuccessBlock = 0, nMinBlockSpacing = 0,
     pool_pCurrentBlockIndex = None, nSessionID = 0,
     nEntriesCount = 0, fLastEntryAccepted = False, strLastMessage = [], strAutoDenomResult = [],
     fUnitTest = False, pSubmittedToMasternode = None, nSessionDenom = 0, nCachedNumBlocks = 0,
     fCreateAutoBackups = True\<rparr>"

definition demo_rpc :: "int \<Rightarrow> (unit, demo_pool, unit, nat, unit, int, int option) mnrpc_env" where
  "demo_rpc t = uni_reader.extend plain_reader (mnrpc_env.fields
     (Some \<lparr>wallet_IsCrypted = False, wallet_IsLocked = False, nKeysLeftSinceAutoBackup = 1000, HasMasternodeVinAndKeys = True\<rparr>)
     (demo_mn_env t) (\<lambda>p. (True, p)) (\<lambda>p. (''idle'', p)) (\<lambda>p. ''IDLE'') (\<lambda>p. idle_pool) False (\<lambda>m. []) (\<lambda>m. [])
     (\<lambda>params h. Inr VNULL) (\<lambda>s. True) (\<lambda>m. 1) (\<lambda>m v. 1) (\<lambda>m. 1) 0 id (\<lambda>m h. None))"

lemma demo_rpc_simps [simp]:
  "pwalletMain (demo_rpc t) = Some \<lparr>wallet_IsCrypted = False, wallet_IsLocked = False,
     nKeysLeftSinceAutoBackup = 1000, HasMasternodeVinAndKeys = True\<rparr>"
  "mn (demo_rpc t) = demo_mn_env t" "ResetPool (demo_rpc t) p = idle_pool" "pool_GetStatus (demo_rpc t) p = (''idle'', p)"
  "UpdateLastPaid (demo_rpc t) = id" "get_str (demo_rpc t) = get_str plain_reader"
  "pool_GetStateString (demo_rpc t) p = ''IDLE''" "fPrivateSendMultiSession (demo_rpc t) = False"
  by (simp_all add: demo_rpc_def uni_reader.defs mnrpc_env.defs)

definition demo_node :: "(demo_pool, nat, int, int option) node_state" where
  "demo_node = \<lparr>fEnablePrivateSend = False, darkSendPool = idle_pool\<lparr>vecEntries := [CDarkSendEntry_default ()]\<rparr>,
     active = demo_masternode\<rparr>"

theorem getpoolinfo_resets_witness:
  "\<exists>obj st'. getpoolinfo (demo_rpc 0) demo_node [] False = (Inr (VOBJ obj), st') \<and>
     pool_nState (darkSendPool st') = POOL_STATE_IDLE"
proof -
  have r: "resets (ResetPool (demo_rpc 0))" by (simp add: resets_def idle_pool_def)
  have "\<forall>p. snd (pool_GetStatus (demo_rpc 0) p) = p" by simp
  from getpoolinfo_resets [OF r this, of demo_node] show ?thesis by blast
qed

definition demo_start where
  "demo_start = masternode (demo_rpc 0) (\<lambda>st p. (Inr VNULL, st)) (demo_node\<lparr>active := ManageState (demo_mn_env 0) demo_masternode\<rparr>)
     [VSTR ''start''] False"

text \<open>A ping at 0, \<open>masternode start\<close>, and a ping at 700.\<close>

theorem commands_keep_pings_spaced_witness:
  "\<exists>st'. (node_step {demo_rpc 0, demo_rpc 700})\<^sup>*\<^sup>* demo_node st' \<and>
     journal (active st') = [Elsewhere None None, Elsewhere None None] @ Relayed 0 # [Elsewhere (Some 0) (Some 0)] @ Relayed 700 # [] \<and>
     (0 :: int) + 600 \<le> 700"
proof -
  let ?Es = "{demo_rpc 0, demo_rpc 700}"
  define s1 where "s1 = demo_node\<lparr>active := ManageState (demo_mn_env 0) demo_masternode\<rparr>"
  define s2 where "s2 = snd demo_start"
  define s3 where "s3 = s2\<lparr>active := ManageState (demo_mn_env 700) (active s2)\<rparr>"
  have a1: "ManageState (demo_mn_env 0) demo_masternode =
      \<lparr>eType = MASTERNODE_REMOTE, nState = ACTIVE_MASTERNODE_STARTED, fPingerEnabled = True, strNotCapableReason = [],
       service = 9999, mnodeman = Some 0, journal = [Elsewhere None None, Elsewhere None None, Relayed 0]\<rparr>"
    by (simp add: ManageState_def ManageStateInitial_def try_local_def SendMasternodePing_def demo_mn_env_def
        demo_masternode_def elsewhere_def)
  have f: "fMasterNode (demo_mn_env 0)" by (simp add: demo_mn_env_def)
  have s2: "s2 = s1"
    using f a1 by (simp add: s2_def demo_start_def s1_def masternode_def opt_arg_def plain_reader_def
        masternode_commands_def masternode_run_def masternode_start_def EnsureWalletIsUnlocked_def)
  have j: "journal (active s3) = [Elsewhere None None, Elsewhere None None] @ Relayed 0 # [Elsewhere (Some 0) (Some 0)] @ Relayed 700 # []"
    by (simp add: s3_def s2 s1_def a1)
      (simp add: ManageState_def SendMasternodePing_def demo_mn_env_def elsewhere_def)
  have "node_step ?Es demo_node s1"
    using node_step.periodic [of "demo_rpc 0" ?Es demo_node] by (simp add: s1_def demo_node_def)
  moreover have "node_step ?Es s1 s2"
    unfolding s2_def demo_start_def s1_def by (rule node_step.masternode_command [of "demo_rpc 0"]) (simp, rule prod.collapse [symmetric])
  moreover have "node_step ?Es s2 s3"
    using node_step.periodic [of "demo_rpc 700" ?Es s2] by (simp add: s3_def)
  ultimately have steps: "(node_step ?Es)\<^sup>*\<^sup>* demo_node s3" by (meson rtranclp.intros)
  have ok: "\<forall>E \<in> ?Es. list_keeps_time (\<lambda>p. p) 600 (\<lambda>m. m) (mn E)" by (simp add: demo_list_keeps_time)
  have e: "journal (active demo_node) = []" by (simp add: demo_node_def demo_masternode_def)
  have "(0 :: int) + 600 \<le> 700" using commands_keep_pings_spaced [OF steps ok e j] by (simp add: sets_back_def)
  then show ?thesis using steps j by blast
qed

end
