(* ===== verification/HelpTexts.thy ===== *)
theory HelpTexts
  imports RpcDocs Gobject MasternodeRpc
begin

text \<open>
  The help texts of the RPC commands (\<open>rpcclient.cpp\<close>, \<open>rpcgovernance.cpp\<close>,
  \<open>rpcmasternode.cpp\<close>, \<open>rpcwallet.cpp\<close> under \<open>Maternodes/ChainX-MN\<close>), what \<open>HelpText\<close> stands
  for. The part of a text before its examples is a list of lines; the examples are made by
  functions outside the repository. The members that a text documents are compared with the
  shapes of \<open>RpcDocs\<close> and so with the answers themselves.
\<close>

section \<open>Texts\<close>

record help_env =
  HelpExampleCli :: "string \<Rightarrow> string \<Rightarrow> string"
  HelpExampleRpc :: "string \<Rightarrow> string \<Rightarrow> string"
  CURRENCY_UNIT :: string
  fmt_num :: "int \<Rightarrow> string"
  max_headers :: int
  checklevel :: int
  checkblocks :: int

definition unlines :: "string list \<Rightarrow> string" where
  "unlines ls = concat (map (\<lambda>l. l @ [CHR 0x0A]) ls)"

section \<open>Block chain commands\<close>

definition getblockcount_lines :: "help_env \<Rightarrow> string list" where
  "getblockcount_lines H =
     [''getblockcount'',
      [],
      ''Returns the number of blocks in the longest block chain.'',
      [],
      ''Result:'',
      ''n    (numeric) The current block count'',
      [],
      ''Examples:'']"

definition help_getblockcount :: "help_env \<Rightarrow> string" where
  "help_getblockcount H =
     unlines (getblockcount_lines H) @
     HelpExampleCli H ''getblockcount'' [] @
     HelpExampleRpc H ''getblockcount'' []"

definition getbestblockhash_lines :: "help_env \<Rightarrow> string list" where
  "getbestblockhash_lines H =
     [''getbestblockhash'',
      [],
      ''Returns the hash of the best (tip) block in the longest block chain.'',
      [],
      ''Result'',
      ''\"hex\"      (string) the block hash hex encoded'',
      [],
      ''Examples'']"

definition help_getbestblockhash :: "help_env \<Rightarrow> string" where
  "help_getbestblockhash H =
     unlines (getbestblockhash_lines H) @
     HelpExampleCli H ''getbestblockhash'' [] @
     HelpExampleRpc H ''getbestblockhash'' []"

definition getdifficulty_lines :: "help_env \<Rightarrow> string list" where
  "getdifficulty_lines H =
     [''getdifficulty'',
      [],
      ''Returns the proof-of-work difficulty as a multiple of the minimum difficulty.'',
      [],
      ''Result:'',
      ''n.nnn       (numeric) the proof-of-work difficulty as a multiple of the minimum difficulty.'',
      [],
      ''Examples:'']"

definition help_getdifficulty :: "help_env \<Rightarrow> string" where
  "help_getdifficulty H =
     unlines (getdifficulty_lines H) @
     HelpExampleCli H ''getdifficulty'' [] @
     HelpExampleRpc H ''getdifficulty'' []"

definition getrawmempool_lines :: "help_env \<Rightarrow> string list" where
  "getrawmempool_lines H =
     [''getrawmempool ( verbose )'',
      [],
      ''Returns all transaction ids in memory pool as a json array of string transaction ids.'',
      [],
      ''Arguments:'',
      ''1. verbose           (boolean, optional, default=false) true for a json object, false for array of transaction ids'',
      [],
      ''Result: (for verbose = false):'',
      ''[                     (json array of string)'',
      ''  \"transactionid\"     (string) The transaction id'',
      ''  ,...'',
      '']'',
      [],
      ''Result: (for verbose = true):'',
      ''{                           (json object)'',
      ''  \"transactionid\" : {       (json object)'',
      ''    \"size\" : n,             (numeric) transaction size in bytes'',
      ''    \"fee\" : n,              (numeric) transaction fee in '' @ CURRENCY_UNIT H,
      ''    \"modifiedfee\" : n,      (numeric) transaction fee with fee deltas used for mining priority'',
      ''    \"time\" : n,             (numeric) local time transaction entered pool in seconds since 1 Jan 1970 GMT'',
      ''    \"height\" : n,           (numeric) block height when transaction entered pool'',
      ''    \"startingpriority\" : n, (numeric) priority when transaction entered pool'',
      ''    \"currentpriority\" : n,  (numeric) transaction priority now'',
      ''    \"descendantcount\" : n,  (numeric) number of in-mempool descendant transactions (including this one)'',
      ''    \"descendantsize\" : n,   (numeric) size of in-mempool descendants (including this one)'',
      ''    \"descendantfees\" : n,   (numeric) modified fees (see above) of in-mempool descendants (including this one)'',
      ''    \"depends\" : [           (array) unconfirmed transactions used as inputs for this transaction'',
      ''        \"transactionid\",    (string) parent transaction id'',
      ''       ... ]'',
      ''  }, ...'',
      ''}'',
      [],
      ''Examples'']"

definition help_getrawmempool :: "help_env \<Rightarrow> string" where
  "help_getrawmempool H =
     unlines (getrawmempool_lines H) @
     HelpExampleCli H ''getrawmempool'' ''true'' @
     HelpExampleRpc H ''getrawmempool'' ''true''"

definition getblockhashes_lines :: "help_env \<Rightarrow> string list" where
  "getblockhashes_lines H =
     [''getblockhashes timestamp'',
      [],
      ''Returns array of hashes of blocks within the timestamp range provided.'',
      [],
      ''Arguments:'',
      ''1. high         (numeric, required) The newer block timestamp'',
      ''2. low          (numeric, required) The older block timestamp'',
      [],
      ''Result:'',
      ''['',
      ''  \"hash\"         (string) The block hash'',
      '']'',
      [],
      ''Examples:'']"

definition help_getblockhashes :: "help_env \<Rightarrow> string" where
  "help_getblockhashes H =
     unlines (getblockhashes_lines H) @
     HelpExampleCli H ''getblockhashes'' ''1231614698 1231024505'' @
     HelpExampleRpc H ''getblockhashes'' ''1231614698, 1231024505''"

definition getblockhash_lines :: "help_env \<Rightarrow> string list" where
  "getblockhash_lines H =
     [''getblockhash index'',
      [],
      ''Returns hash of block in best-block-chain at index provided.'',
      [],
      ''Arguments:'',
      ''1. index         (numeric, required) The block index'',
      [],
      ''Result:'',
      ''\"hash\"         (string) The block hash'',
      [],
      ''Examples:'']"

definition help_getblockhash :: "help_env \<Rightarrow> string" where
  "help_getblockhash H =
     unlines (getblockhash_lines H) @
     HelpExampleCli H ''getblockhash'' ''1000'' @
     HelpExampleRpc H ''getblockhash'' ''1000''"

definition getblockheader_lines :: "help_env \<Rightarrow> string list" where
  "getblockheader_lines H =
     [''getblockheader \"hash\" ( verbose )'',
      [],
      ''If verbose is false, returns a string that is serialized, hex-encoded data for blockheader 'hash'.'',
      ''If verbose is true, returns an Object with information about blockheader <hash>.'',
      [],
      ''Arguments:'',
      ''1. \"hash\"          (string, required) The block hash'',
      ''2. verbose           (boolean, optional, default=true) true for a json object, false for the hex encoded data'',
      [],
      ''Result (for verbose = true):'',
      ''{'',
      ''  \"hash\" : \"hash\",     (string) the block hash (same as provided)'',
      ''  \"confirmations\" : n,   (numeric) The number of confirmations, or -1 if the block is not on the main chain'',
      ''  \"height\" : n,          (numeric) The block height or index'',
      ''  \"version\" : n,         (numeric) The block version'',
      ''  \"merkleroot\" : \"xxxx\", (string) The merkle root'',
      ''  \"time\" : ttt,          (numeric) The block time in seconds since epoch (Jan 1 1970 GMT)'',
      ''  \"mediantime\" : ttt,    (numeric) The median block time in seconds since epoch (Jan 1 1970 GMT)'',
      ''  \"nonce\" : n,           (numeric) The nonce'',
      ''  \"bits\" : \"1d00ffff\", (string) The bits'',
      ''  \"difficulty\" : x.xxx,  (numeric) The difficulty'',
      ''  \"previousblockhash\" : \"hash\",  (string) The hash of the previous block'',
      ''  \"nextblockhash\" : \"hash\",      (string) The hash of the next block'',
      ''  \"chainwork\" : \"0000...1f3\"     (string) Expected number of hashes required to produce the current chain (in hex)'',
      ''}'',
      [],
      ''Result (for verbose=false):'',
      ''\"data\"             (string) A string that is serialized, hex-encoded data for block 'hash'.'',
      [],
      ''Examples:'']"

definition help_getblockheader :: "help_env \<Rightarrow> string" where
  "help_getblockheader H =
     unlines (getblockheader_lines H) @
     HelpExampleCli H ''getblockheader'' ''\"00000000c937983704a73af28acdec37b049d214adbda81d7e2a3dd146f6ed09\"'' @
     HelpExampleRpc H ''getblockheader'' ''\"00000000c937983704a73af28acdec37b049d214adbda81d7e2a3dd146f6ed09\"''"

definition getblockheaders_lines :: "help_env \<Rightarrow> string list" where
  "getblockheaders_lines H =
     [''getblockheaders \"hash\" ( count verbose )'',
      [],
      ''Returns an array of items with information about <count> blockheaders starting from <hash>.'',
      [],
      ''If verbose is false, each item is a string that is serialized, hex-encoded data for a single blockheader.'',
      ''If verbose is true, each item is an Object with information about a single blockheader.'',
      [],
      ''Arguments:'',
      ''1. \"hash\"          (string, required) The block hash'',
      ''2. count           (numeric, optional, default/max='' @ fmt_num H (max_headers H) @ '')'',
      ''3. verbose         (boolean, optional, default=true) true for a json object, false for the hex encoded data'',
      [],
      ''Result (for verbose = true):'',
      ''[ {'',
      ''  \"hash\" : \"hash\",               (string)  The block hash'',
      ''  \"confirmations\" : n,           (numeric) The number of confirmations, or -1 if the block is not on the main chain'',
      ''  \"height\" : n,                  (numeric) The block height or index'',
      ''  \"version\" : n,                 (numeric) The block version'',
      ''  \"merkleroot\" : \"xxxx\",         (string)  The merkle root'',
      ''  \"time\" : ttt,                  (numeric) The block time in seconds since epoch (Jan 1 1970 GMT)'',
      ''  \"mediantime\" : ttt,            (numeric) The median block time in seconds since epoch (Jan 1 1970 GMT)'',
      ''  \"nonce\" : n,                   (numeric) The nonce'',
      ''  \"bits\" : \"1d00ffff\",           (string)  The bits'',
      ''  \"difficulty\" : x.xxx,          (numeric) The difficulty'',
      ''  \"previousblockhash\" : \"hash\",  (string)  The hash of the previous block'',
      ''  \"nextblockhash\" : \"hash\",      (string)  The hash of the next block'',
      ''  \"chainwork\" : \"0000...1f3\"     (string)  Expected number of hashes required to produce the current chain (in hex)'',
      ''}, {'',
      ''       ...'',
      ''   },'',
      ''...'',
      '']'',
      [],
      ''Result (for verbose=false):'',
      ''['',
      ''  \"data\",                        (string)  A string that is serialized, hex-encoded data for block header.'',
      ''  ...'',
      '']'',
      [],
      ''Examples:'']"

definition help_getblockheaders :: "help_env \<Rightarrow> string" where
  "help_getblockheaders H =
     unlines (getblockheaders_lines H) @
     HelpExampleCli H ''getblockheaders'' ''\"00000000c937983704a73af28acdec37b049d214adbda81d7e2a3dd146f6ed09\" 2000'' @
     HelpExampleRpc H ''getblockheaders'' ''\"00000000c937983704a73af28acdec37b049d214adbda81d7e2a3dd146f6ed09\" 2000''"

definition getblock_lines :: "help_env \<Rightarrow> string list" where
  "getblock_lines H =
     [''getblock \"hash\" ( verbose )'',
      [],
      ''If verbose is false, returns a string that is serialized, hex-encoded data for block 'hash'.'',
      ''If verbose is true, returns an Object with information about block <hash>.'',
      [],
      ''Arguments:'',
      ''1. \"hash\"          (string, required) The block hash'',
      ''2. verbose           (boolean, optional, default=true) true for a json object, false for the hex encoded data'',
      [],
      ''Result (for verbose = true):'',
      ''{'',
      ''  \"hash\" : \"hash\",     (string) the block hash (same as provided)'',
      ''  \"confirmations\" : n,   (numeric) The number of confirmations, or -1 if the block is not on the main chain'',
      ''  \"size\" : n,            (numeric) The block size'',
      ''  \"height\" : n,          (numeric) The block height or index'',
      ''  \"version\" : n,         (numeric) The block version'',
      ''  \"merkleroot\" : \"xxxx\", (string) The merkle root'',
      ''  \"tx\" : [               (array of string) The transaction ids'',
      ''     \"transactionid\"     (string) The transaction id'',
      ''     ,...'',
      ''  ],'',
      ''  \"time\" : ttt,          (numeric) The block time in seconds since epoch (Jan 1 1970 GMT)'',
      ''  \"mediantime\" : ttt,    (numeric) The median block time in seconds since epoch (Jan 1 1970 GMT)'',
      ''  \"nonce\" : n,           (numeric) The nonce'',
      ''  \"bits\" : \"1d00ffff\", (string) The bits'',
      ''  \"difficulty\" : x.xxx,  (numeric) The difficulty'',
      ''  \"chainwork\" : \"xxxx\",  (string) Expected number of hashes required to produce the chain up to this block (in hex)'',
      ''  \"previousblockhash\" : \"hash\",  (string) The hash of the previous block'',
      ''  \"nextblockhash\" : \"hash\"       (string) The hash of the next block'',
      ''}'',
      [],
      ''Result (for verbose=false):'',
      ''\"data\"             (string) A string that is serialized, hex-encoded data for block 'hash'.'',
      [],
      ''Examples:'']"

definition help_getblock :: "help_env \<Rightarrow> string" where
  "help_getblock H =
     unlines (getblock_lines H) @
     HelpExampleCli H ''getblock'' ''\"00000000000fd08c2fb661d2fcb0d49abb3a91e5f27082ce64feed3b4dede2e2\"'' @
     HelpExampleRpc H ''getblock'' ''\"00000000000fd08c2fb661d2fcb0d49abb3a91e5f27082ce64feed3b4dede2e2\"''"

definition gettxoutsetinfo_lines :: "help_env \<Rightarrow> string list" where
  "gettxoutsetinfo_lines H =
     [''gettxoutsetinfo'',
      [],
      ''Returns statistics about the unspent transaction output set.'',
      ''Note this call may take some time.'',
      [],
      ''Result:'',
      ''{'',
      ''  \"height\":n,     (numeric) The current block height (index)'',
      ''  \"bestblock\": \"hex\",   (string) the best block hash hex'',
      ''  \"transactions\": n,      (numeric) The number of transactions'',
      ''  \"txouts\": n,            (numeric) The number of output transactions'',
      ''  \"bytes_serialized\": n,  (numeric) The serialized size'',
      ''  \"hash_serialized\": \"hash\",   (string) The serialized hash'',
      ''  \"total_amount\": x.xxx          (numeric) The total amount'',
      ''}'',
      [],
      ''Examples:'']"

definition help_gettxoutsetinfo :: "help_env \<Rightarrow> string" where
  "help_gettxoutsetinfo H =
     unlines (gettxoutsetinfo_lines H) @
     HelpExampleCli H ''gettxoutsetinfo'' [] @
     HelpExampleRpc H ''gettxoutsetinfo'' []"

definition gettxout_lines :: "help_env \<Rightarrow> string list" where
  "gettxout_lines H =
     [''gettxout \"txid\" n ( includemempool )'',
      [],
      ''Returns details about an unspent transaction output.'',
      [],
      ''Arguments:'',
      ''1. \"txid\"       (string, required) The transaction id'',
      ''2. n              (numeric, required) vout value'',
      ''3. includemempool  (boolean, optional) Whether to included the mem pool'',
      [],
      ''Result:'',
      ''{'',
      ''  \"bestblock\" : \"hash\",    (string) the block hash'',
      ''  \"confirmations\" : n,       (numeric) The number of confirmations'',
      ''  \"value\" : x.xxx,           (numeric) The transaction value in '' @ CURRENCY_UNIT H,
      ''  \"scriptPubKey\" : {         (json object)'',
      ''     \"asm\" : \"code\",       (string) '',
      ''     \"hex\" : \"hex\",        (string) '',
      ''     \"reqSigs\" : n,          (numeric) Number of required signatures'',
      ''     \"type\" : \"pubkeyhash\", (string) The type, eg pubkeyhash'',
      ''     \"addresses\" : [          (array of string) array of chainx addresses'',
      ''        \"chainxaddress\"     (string) chainx address'',
      ''        ,...'',
      ''     ]'',
      ''  },'',
      ''  \"version\" : n,            (numeric) The version'',
      ''  \"coinbase\" : true|false   (boolean) Coinbase or not'',
      ''}'',
      [],
      ''Examples:'',
      [],
      ''Get unspent transactions'']"

definition help_gettxout :: "help_env \<Rightarrow> string" where
  "help_gettxout H =
     unlines (gettxout_lines H) @
     HelpExampleCli H ''listunspent'' [] @
     unlines [[], ''View the details''] @
     HelpExampleCli H ''gettxout'' ''\"txid\" 1'' @
     unlines [[], ''As a json rpc call''] @
     HelpExampleRpc H ''gettxout'' ''\"txid\", 1''"

definition verifychain_lines :: "help_env \<Rightarrow> string list" where
  "verifychain_lines H =
     [''verifychain ( checklevel numblocks )'',
      [],
      ''Verifies blockchain database.'',
      [],
      ''Arguments:'',
      ''1. checklevel   (numeric, optional, 0-4, default='' @ fmt_num H (checklevel H) @ '') How thorough the block verification is.'',
      ''2. numblocks    (numeric, optional, default='' @ fmt_num H (checkblocks H) @ '', 0=all) The number of blocks to check.'',
      [],
      ''Result:'',
      ''true|false       (boolean) Verified or not'',
      [],
      ''Examples:'']"

definition help_verifychain :: "help_env \<Rightarrow> string" where
  "help_verifychain H =
     unlines (verifychain_lines H) @
     HelpExampleCli H ''verifychain'' [] @
     HelpExampleRpc H ''verifychain'' []"

definition getblockchaininfo_lines :: "help_env \<Rightarrow> string list" where
  "getblockchaininfo_lines H =
     [''getblockchaininfo'',
      ''Returns an object containing various state info regarding block chain processing.'',
      [],
      ''Result:'',
      ''{'',
      ''  \"chain\": \"xxxx\",        (string) current network name as defined in BIP70 (main, test, regtest)'',
      ''  \"blocks\": xxxxxx,         (numeric) the current number of blocks processed in the server'',
      ''  \"headers\": xxxxxx,        (numeric) the current number of headers we have validated'',
      ''  \"bestblockhash\": \"...\", (string) the hash of the currently best block'',
      ''  \"difficulty\": xxxxxx,     (numeric) the current difficulty'',
      ''  \"mediantime\": xxxxxx,     (numeric) median time for the current best block'',
      ''  \"verificationprogress\": xxxx, (numeric) estimate of verification progress [0..1]'',
      ''  \"chainwork\": \"xxxx\"     (string) total amount of work in active chain, in hexadecimal'',
      ''  \"pruned\": xx,             (boolean) if the blocks are subject to pruning'',
      ''  \"pruneheight\": xxxxxx,    (numeric) heighest block available'',
      ''  \"softforks\": [            (array) status of softforks in progress'',
      ''     {'',
      ''        \"id\": \"xxxx\",        (string) name of softfork'',
      ''        \"version\": xx,         (numeric) block version'',
      ''        \"enforce\": {           (object) progress toward enforcing the softfork rules for new-version blocks'',
      ''           \"status\": xx,       (boolean) true if threshold reached'',
      ''           \"found\": xx,        (numeric) number of blocks with the new version found'',
      ''           \"required\": xx,     (numeric) number of blocks required to trigger'',
      ''           \"window\": xx,       (numeric) maximum size of examined window of recent blocks'',
      ''        },'',
      ''        \"reject\": { ... }      (object) progress toward rejecting pre-softfork blocks (same fields as \"enforce\")'',
      ''     }, ...'',
      ''  ],'',
      ''  \"bip9_softforks\": [       (array) status of BIP9 softforks in progress'',
      ''     {'',
      ''        \"id\": \"xxxx\",        (string) name of the softfork'',
      ''        \"status\": \"xxxx\",    (string) one of \"defined\", \"started\", \"lockedin\", \"active\", \"failed\"'',
      ''     }'',
      ''  ]'',
      ''}'',
      [],
      ''Examples:'']"

definition help_getblockchaininfo :: "help_env \<Rightarrow> string" where
  "help_getblockchaininfo H =
     unlines (getblockchaininfo_lines H) @
     HelpExampleCli H ''getblockchaininfo'' [] @
     HelpExampleRpc H ''getblockchaininfo'' []"

definition getchaintips_lines :: "help_env \<Rightarrow> string list" where
  "getchaintips_lines H =
     [''getchaintips ( count branchlen )'',
      ''Return information about all known tips in the block tree, including the main chain as well as orphaned branches.'',
      [],
      ''Arguments:'',
      ''1. count       (numeric, optional) only show this much of latest tips'',
      ''2. branchlen   (numeric, optional) only show tips that have equal or greater length of branch'',
      [],
      ''Result:'',
      ''['',
      ''  {'',
      ''    \"height\": xxxx,             (numeric) height of the chain tip'',
      ''    \"hash\": \"xxxx\",             (string) block hash of the tip'',
      ''    \"difficulty\" : x.xxx,       (numeric) The difficulty'',
      ''    \"chainwork\" : \"0000...1f3\"  (string) Expected number of hashes required to produce the current chain (in hex)'',
      ''    \"branchlen\": 0              (numeric) zero for main chain'',
      ''    \"status\": \"active\"          (string) \"active\" for the main chain'',
      ''  },'',
      ''  {'',
      ''    \"height\": xxxx,'',
      ''    \"hash\": \"xxxx\",'',
      ''    \"difficulty\" : x.xxx,'',
      ''    \"chainwork\" : \"0000...1f3\"'',
      ''    \"branchlen\": 1              (numeric) length of branch connecting the tip to the main chain'',
      ''    \"status\": \"xxxx\"            (string) status of the chain (active, valid-fork, valid-headers, headers-only, invalid)'',
      ''  }'',
      '']'',
      ''Possible values for status:'',
      ''1.  \"invalid\"               This branch contains at least one invalid block'',
      ''2.  \"headers-only\"          Not all blocks for this branch are available, but the headers are valid'',
      ''3.  \"valid-headers\"         All blocks are available for this branch, but they were never fully validated'',
      ''4.  \"valid-fork\"            This branch is not part of the active chain, but is fully validated'',
      ''5.  \"active\"                This is the tip of the active main chain, which is certainly valid'',
      [],
      ''Examples:'']"

definition help_getchaintips :: "help_env \<Rightarrow> string" where
  "help_getchaintips H =
     unlines (getchaintips_lines H) @
     HelpExampleCli H ''getchaintips'' [] @
     HelpExampleRpc H ''getchaintips'' []"

definition getmempoolinfo_lines :: "help_env \<Rightarrow> string list" where
  "getmempoolinfo_lines H =
     [''getmempoolinfo'',
      [],
      ''Returns details on the active state of the TX memory pool.'',
      [],
      ''Result:'',
      ''{'',
      ''  \"size\": xxxxx,               (numeric) Current tx count'',
      ''  \"bytes\": xxxxx,              (numeric) Sum of all tx sizes'',
      ''  \"usage\": xxxxx,              (numeric) Total memory usage for the mempool'',
      ''  \"maxmempool\": xxxxx,         (numeric) Maximum memory usage for the mempool'',
      ''  \"mempoolminfee\": xxxxx       (numeric) Minimum fee for tx to be accepted'',
      ''}'',
      [],
      ''Examples:'']"

definition help_getmempoolinfo :: "help_env \<Rightarrow> string" where
  "help_getmempoolinfo H =
     unlines (getmempoolinfo_lines H) @
     HelpExampleCli H ''getmempoolinfo'' [] @
     HelpExampleRpc H ''getmempoolinfo'' []"

definition invalidateblock_lines :: "help_env \<Rightarrow> string list" where
  "invalidateblock_lines H =
     [''invalidateblock \"hash\"'',
      [],
      ''Permanently marks a block as invalid, as if it violated a consensus rule.'',
      [],
      ''Arguments:'',
      ''1. hash   (string, required) the hash of the block to mark as invalid'',
      [],
      ''Result:'',
      [],
      ''Examples:'']"

definition help_invalidateblock :: "help_env \<Rightarrow> string" where
  "help_invalidateblock H =
     unlines (invalidateblock_lines H) @
     HelpExampleCli H ''invalidateblock'' ''\"blockhash\"'' @
     HelpExampleRpc H ''invalidateblock'' ''\"blockhash\"''"

definition reconsiderblock_lines :: "help_env \<Rightarrow> string list" where
  "reconsiderblock_lines H =
     [''reconsiderblock \"hash\"'',
      [],
      ''Removes invalidity status of a block and its descendants, reconsider them for activation.'',
      ''This can be used to undo the effects of invalidateblock.'',
      [],
      ''Arguments:'',
      ''1. hash   (string, required) the hash of the block to reconsider'',
      [],
      ''Result:'',
      [],
      ''Examples:'']"

definition help_reconsiderblock :: "help_env \<Rightarrow> string" where
  "help_reconsiderblock H =
     unlines (reconsiderblock_lines H) @
     HelpExampleCli H ''reconsiderblock'' ''\"blockhash\"'' @
     HelpExampleRpc H ''reconsiderblock'' ''\"blockhash\"''"

section \<open>Governance, masternodes and the wallet\<close>

definition gobject_lines :: "help_env \<Rightarrow> string list" where
  "gobject_lines H =
     [''gobject \"command\"...'',
      ''Manage governance objects'',
      [],
      ''Available commands:'',
      ''  prepare            - Prepare governance object by signing and creating tx'',
      ''  submit             - Submit governance object to network'',
      ''  deserialize        - Deserialize governance object from hex string to JSON'',
      ''  count              - Count governance objects and votes'',
      ''  get                - Get governance object by hash'',
      ''  getvotes           - Get all votes for a governance object hash (including old votes)'',
      ''  getcurrentvotes    - Get only current (tallying) votes for a governance object hash (does not include old votes)'',
      ''  list               - List governance objects (can be filtered by validity and/or object type)'',
      ''  diff               - List differences since last diff'',
      ''  vote-alias         - Vote on a governance object by masternode alias (using masternode.conf setup)'',
      ''  vote-conf          - Vote on a governance object by masternode configured in chainx.conf'',
      ''  vote-many          - Vote on a governance object by all masternodes (using masternode.conf setup)'']"

definition help_gobject :: "help_env \<Rightarrow> string" where
  "help_gobject H =
     unlines (gobject_lines H)"

definition privatesend_lines :: "help_env \<Rightarrow> string list" where
  "privatesend_lines H =
     [''privatesend \"command\"'',
      [],
      ''Arguments:'',
      ''1. \"command\"        (string or set of strings, required) The command to execute'',
      [],
      ''Available commands:'',
      ''  start       - Start mixing'',
      ''  stop        - Stop mixing'',
      ''  reset       - Reset mixing'']"

definition help_privatesend :: "help_env \<Rightarrow> string" where
  "help_privatesend H =
     unlines (privatesend_lines H)"

definition getpoolinfo_lines :: "help_env \<Rightarrow> string list" where
  "getpoolinfo_lines H =
     [''getpoolinfo'',
      ''Returns an object containing mixing pool related information.'']"

definition help_getpoolinfo :: "help_env \<Rightarrow> string" where
  "help_getpoolinfo H =
     unlines (getpoolinfo_lines H)"

definition masternode_lines :: "help_env \<Rightarrow> string list" where
  "masternode_lines H =
     [''masternode \"command\"...'',
      ''Set of commands to execute masternode related actions'',
      [],
      ''Arguments:'',
      ''1. \"command\"        (string or set of strings, required) The command to execute'',
      [],
      ''Available commands:'',
      ''  count        - Print number of all known masternodes (optional: 'ps', 'enabled', 'all', 'qualify')'',
      ''  current      - Print info on current masternode winner to be paid the next block (calculated locally)'',
      ''  debug        - Print masternode status'',
      ''  genkey       - Generate new masternodeprivkey'',
      ''  outputs      - Print masternode compatible outputs'',
      ''  start        - Start local Hot masternode configured in chainx.conf'',
      ''  start-alias  - Start single remote masternode by assigned alias configured in masternode.conf'',
      ''  start-<mode> - Start remote masternodes configured in masternode.conf (<mode>: 'all', 'missing', 'disabled')'',
      ''  status       - Print masternode status information'',
      ''  list         - Print list of all known masternodes (see masternodelist for more info)'',
      ''  list-conf    - Print masternode.conf in JSON format'',
      ''  winner       - Print info on next masternode winner to vote for'',
      ''  winners      - Print list of masternode winners'']"

definition help_masternode :: "help_env \<Rightarrow> string" where
  "help_masternode H =
     unlines (masternode_lines H)"

definition getnewaddress_lines :: "help_env \<Rightarrow> string list" where
  "getnewaddress_lines H =
     [''getnewaddress ( \"account\" )'',
      [],
      ''Returns a new chainx address for receiving payments.'',
      ''If 'account' is specified (DEPRECATED), it is added to the address book '',
      ''so payments received with the address will be credited to 'account'.'',
      [],
      ''Arguments:'',
      ''1. \"account\"        (string, optional) DEPRECATED. The account name for the address to be linked to. If not provided, the default account \"\" is used. It can also be set to the empty string \"\" to represent the default account. The account does not need to exist, it will be created if there is no account by the given name.'',
      [],
      ''Result:'',
      ''\"chainxaddress\"    (string) The new chainx address'',
      [],
      ''Examples:'']"

definition help_getnewaddress :: "help_env \<Rightarrow> string" where
  "help_getnewaddress H =
     unlines (getnewaddress_lines H) @
     HelpExampleCli H ''getnewaddress'' [] @
     HelpExampleRpc H ''getnewaddress'' []"

text \<open>The text of a command, by its name.\<close>

definition help_texts :: "help_env \<Rightarrow> (string \<times> string) list" where
  "help_texts H =
     [(''getblockcount'', help_getblockcount H), (''getbestblockhash'', help_getbestblockhash H),
      (''getdifficulty'', help_getdifficulty H), (''getrawmempool'', help_getrawmempool H),
      (''getblockhashes'', help_getblockhashes H), (''getblockhash'', help_getblockhash H),
      (''getblockheader'', help_getblockheader H), (''getblockheaders'', help_getblockheaders H),
      (''getblock'', help_getblock H), (''gettxoutsetinfo'', help_gettxoutsetinfo H),
      (''gettxout'', help_gettxout H), (''verifychain'', help_verifychain H),
      (''getblockchaininfo'', help_getblockchaininfo H), (''getchaintips'', help_getchaintips H),
      (''getmempoolinfo'', help_getmempoolinfo H), (''invalidateblock'', help_invalidateblock H),
      (''reconsiderblock'', help_reconsiderblock H), (''gobject'', help_gobject H),
      (''privatesend'', help_privatesend H), (''getpoolinfo'', help_getpoolinfo H),
      (''masternode'', help_masternode H), (''getnewaddress'', help_getnewaddress H)]"

text \<open>What the user is told of an error.\<close>

definition rpc_what :: "help_env \<Rightarrow> rpc_error \<Rightarrow> string option" where
  "rpc_what H e = (case e of
     HelpText c \<Rightarrow> map_of (help_texts H) c
   | RuntimeError msg \<Rightarrow> Some msg
   | JSONRPCError code msg \<Rightarrow> Some msg
   | Undefined u \<Rightarrow> None)"

text \<open>\<open>getnewaddress\<close> up to the end of the file; \<open>new_address\<close> is what follows.\<close>

definition getnewaddress ::
    "wallet_view option \<Rightarrow> ('d univalue list \<Rightarrow> 'd univalue rpc) \<Rightarrow> 'd univalue list \<Rightarrow> bool \<Rightarrow> 'd univalue rpc" where
  "getnewaddress w new_address params fHelp =
     rbind (EnsureWalletIsAvailable w fHelp) (\<lambda>ok.
       if \<not> ok then Inr VNULL
       else help_if (fHelp \<or> length params > 1) ''getnewaddress'' (new_address params))"

section \<open>Documented members\<close>

text \<open>A line that documents a member is indented and has a quoted name and a colon.\<close>

definition member_of_line :: "string \<Rightarrow> string option" where
  "member_of_line l = (case dropWhile (\<lambda>c. c = CHR 0x20) l of
     [] \<Rightarrow> None
   | c # r \<Rightarrow>
       if take 1 l = [CHR 0x20] \<and> c = CHR 0x22 then
         (let name = takeWhile (\<lambda>c. c \<noteq> CHR 0x22) r;
              after = dropWhile (\<lambda>c. c = CHR 0x20) (drop (length name + 1) r)
          in if take 1 after = [CHR 0x3A] then Some name else None)
       else None)"

definition documented_members :: "string list \<Rightarrow> string list" where
  "documented_members ls = List.map_filter member_of_line ls"

text \<open>The names of the members of a shape, and of a value.\<close>

fun members :: "shape \<Rightarrow> string list" where
  "members (Object req opt) =
     map fst req @ map fst opt @ concat (map (\<lambda>m. members (snd m)) req) @ concat (map (\<lambda>m. members (snd m)) opt)"
| "members (ArrayOf sh) = members sh"
| "members (ObjectOf sh) = members sh"
| "members sh = []"

fun named_members :: "'d univalue \<Rightarrow> string list" where
  "named_members (VOBJ kvs) = map fst kvs @ concat (map (\<lambda>m. named_members (snd m)) kvs)"
| "named_members (VARR vs) = concat (map named_members vs)"
| "named_members v = []"

text \<open>A shape in which every object has its own members.\<close>

fun fixed_members :: "shape \<Rightarrow> bool" where
  "fixed_members (Object req opt) \<longleftrightarrow>
     list_all (\<lambda>m. fixed_members (snd m)) req \<and> list_all (\<lambda>m. fixed_members (snd m)) opt"
| "fixed_members (ArrayOf sh) = fixed_members sh"
| "fixed_members (ObjectOf sh) = False"
| "fixed_members sh = True"

section \<open>Lemmas\<close>

lemma unlines_simps [simp]: "unlines [] = []" "unlines (l # ls) = l @ CHR 0x0A # unlines ls"
  by (simp_all add: unlines_def)

lemma documented_simps [simp]:
  "documented_members [] = []"
  "documented_members (l # ls) =
     (case member_of_line l of None \<Rightarrow> documented_members ls | Some n \<Rightarrow> n # documented_members ls)"
  by (simp_all add: documented_members_def List.map_filter_def split: option.split)

lemmas member_lines = member_of_line_def Let_def

lemma getblockheader_members: "set (documented_members (getblockheader_lines H)) = set (members (doc_getblockheader True))"
  by (rule equalityI; simp add: getblockheader_lines_def doc_getblockheader_def member_lines)

lemma getblockheaders_members: "set (documented_members (getblockheaders_lines H)) = set (members (doc_getblockheaders True))"
  by (rule equalityI; simp add: getblockheaders_lines_def doc_getblockheaders_def member_lines)

lemma getblock_members: "set (documented_members (getblock_lines H)) = set (members (doc_getblock True))"
  by (rule equalityI; simp add: getblock_lines_def doc_getblock_def member_lines)

lemma gettxoutsetinfo_members: "set (documented_members (gettxoutsetinfo_lines H)) = set (members doc_gettxoutsetinfo)"
  by (rule equalityI; simp add: gettxoutsetinfo_lines_def doc_gettxoutsetinfo_def member_lines)

lemma gettxout_members: "set (documented_members (gettxout_lines H)) = set (members doc_gettxout)"
  by (rule equalityI; simp add: gettxout_lines_def doc_gettxout_def doc_scriptPubKey_def member_lines)

lemma getblockchaininfo_members: "set (documented_members (getblockchaininfo_lines H)) = set (members doc_getblockchaininfo)"
  by (rule equalityI; simp add: getblockchaininfo_lines_def doc_getblockchaininfo_def doc_softfork_def doc_majority_def
      doc_bip9_softfork_def member_lines)

lemma getchaintips_members: "set (documented_members (getchaintips_lines H)) = set (members doc_getchaintips)"
  by (rule equalityI; simp add: getchaintips_lines_def doc_getchaintips_def member_lines)

lemma getmempoolinfo_members: "set (documented_members (getmempoolinfo_lines H)) = set (members doc_getmempoolinfo)"
  by (rule equalityI; simp add: getmempoolinfo_lines_def doc_getmempoolinfo_def member_lines)

lemma members_Object:
  "m \<in> set req \<union> set opt \<Longrightarrow> fst m \<in> set (members (Object req opt)) \<and> set (members (snd m)) \<subseteq> set (members (Object req opt))"
  by auto

lemma object_conforms:
  assumes "conforms (Object req opt) (VOBJ kvs)"
  shows "distinct (map fst kvs)" "set (map fst kvs) \<subseteq> fst ` (set req \<union> set opt)"
    "m \<in> set req \<union> set opt \<Longrightarrow> map_of kvs (fst m) = Some u \<Longrightarrow> conforms (snd m) u"
  subgoal using assms by simp
  subgoal using assms by (simp add: image_Un)
  subgoal using assms by (auto simp del: fst_conv snd_conv split: option.splits dest: bspec)
  done

lemma object_member:
  assumes "conforms (Object req opt) (VOBJ kvs)" "(k, u) \<in> set kvs"
  shows "\<exists>m \<in> set req \<union> set opt. fst m = k \<and> conforms (snd m) u"
proof -
  have "k \<in> set (map fst kvs)" using assms(2) by force
  then have "k \<in> fst ` (set req \<union> set opt)" using object_conforms(2) [OF assms(1)] by blast
  then obtain m where m: "m \<in> set req \<union> set opt" "fst m = k" by blast
  moreover have "map_of kvs (fst m) = Some u" using object_conforms(1) [OF assms(1)] assms(2) m(2) by simp
  ultimately show ?thesis using object_conforms(3) [OF assms(1)] by blast
qed

text \<open>A value of a shape has no other members than the shape, at any depth.\<close>

lemma named_members_VOBJ:
  "set (named_members (VOBJ kvs)) = fst ` set kvs \<union> (\<Union>x \<in> set kvs. set (named_members (snd x)))"
  by simp

lemma named_members_conform:
  "conforms sh v \<Longrightarrow> fixed_members sh \<Longrightarrow> set (named_members v) \<subseteq> set (members sh)"
proof (induction sh arbitrary: v)
  case (Object req opt)
  obtain kvs where v: "v = VOBJ kvs" using Object.prems(1) by (cases v) simp_all
  have "fst x \<in> set (members (Object req opt)) \<and> set (named_members (snd x)) \<subseteq> set (members (Object req opt))"
    if x: "x \<in> set kvs" for x
  proof -
    obtain m where m: "m \<in> set req \<union> set opt" "fst m = fst x" "conforms (snd m) (snd x)"
      using object_member [OF Object.prems(1) [unfolded v], of "fst x" "snd x"] x by (simp only: prod.collapse) blast
    have f: "fixed_members (snd m)" using Object.prems(2) m(1) by (auto simp: list_all_iff)
    have "set (named_members (snd x)) \<subseteq> set (members (snd m))"
      using Object.IH(1) [OF _ snds.intros m(3) f] Object.IH(2) [OF _ snds.intros m(3) f] m(1) by blast
    moreover have "fst x \<in> set (members (Object req opt))"
      using members_Object [OF m(1), THEN conjunct1] unfolding m(2) .
    ultimately show ?thesis using members_Object [OF m(1)] by blast
  qed
  then show ?case unfolding v named_members_VOBJ by blast
next
  case (ArrayOf sh)
  obtain vs where v: "v = VARR vs" using ArrayOf.prems(1) by (cases v) simp_all
  have "set (named_members x) \<subseteq> set (members sh)" if "x \<in> set vs" for x
    by (rule ArrayOf.IH) (use ArrayOf.prems that v in simp_all)
  then show ?case unfolding v by (simp add: UN_subset_iff)
next
  case (ObjectOf sh)
  then show ?case by simp
next
  case (OneOf words)
  then show ?case by (cases v) simp_all
next
  case Numeric
  then show ?case by (cases v) simp_all
next
  case Text
  then show ?case by (cases v) simp_all
next
  case Boolean
  then show ?case by (cases v) simp_all
qed

text \<open>A successful answer has only members that these lines document.\<close>

definition documented_by :: "string list \<Rightarrow> 'd univalue rpc \<Rightarrow> bool" where
  "documented_by ls r = (case r of Inl e \<Rightarrow> True | Inr v \<Rightarrow> set (named_members v) \<subseteq> set (documented_members ls))"

lemma documented_byI:
  assumes "answers sh r" "fixed_members sh" "set (documented_members ls) = set (members sh)"
  shows "documented_by ls r"
  using named_members_conform assms by (auto simp: documented_by_def answers_def split: sum.splits)

lemma documented_text: "answers Text r \<Longrightarrow> documented_by ls r" "answers (ArrayOf Text) r \<Longrightarrow> documented_by ls r"
  using named_members_conform [of Text] named_members_conform [of "ArrayOf Text"]
  by (fastforce simp: documented_by_def answers_def split: sum.splits)+

lemma fixed_shapes [simp]:
  "fixed_members (doc_getblockheader verbose)" "fixed_members (doc_getblockheaders verbose)"
  "fixed_members (doc_getblock verbose)" "fixed_members doc_gettxoutsetinfo" "fixed_members doc_gettxout"
  "fixed_members doc_getblockchaininfo" "fixed_members doc_getchaintips" "fixed_members doc_getmempoolinfo"
  by (simp_all add: doc_getblockheader_def doc_getblockheaders_def doc_getblock_def doc_gettxoutsetinfo_def
      doc_gettxout_def doc_scriptPubKey_def doc_getblockchaininfo_def doc_softfork_def doc_majority_def
      doc_bip9_softfork_def doc_getchaintips_def doc_getmempoolinfo_def)

section \<open>Properties\<close>

lemma verbose_documentedI:
  assumes "\<And>v. r = Inr v \<Longrightarrow> \<exists>b. a = Inr b" "\<And>b. a = Inr b \<Longrightarrow> answers (sh b) r"
    and "fixed_members (sh True)" "set (documented_members ls) = set (members (sh True))"
    and "sh False = Text \<or> sh False = ArrayOf Text"
  shows "documented_by ls r"
proof (cases r)
  case (Inl e)
  then show ?thesis by (simp add: documented_by_def)
next
  case (Inr v)
  then obtain b where b: "a = Inr b" using assms(1) by blast
  show ?thesis
  proof (cases b)
    case True
    then show ?thesis using documented_byI [OF assms(2) [OF b]] assms(3,4) by simp
  next
    case False
    then show ?thesis using assms(2) [OF b] assms(5) documented_text by fastforce
  qed
qed

lemma verbose_documented:
  "documented_by (getblockheader_lines H) (getblockheader E params h)"
  "documented_by (getblockheaders_lines H) (getblockheaders E params h)"
  "documented_by (getblock_lines H) (getblock E pruned disk hex js txh params h)"
  subgoal
    by (rule verbose_documentedI [where a = "opt_arg (get_bool E) params 1 True" and sh = doc_getblockheader,
        OF _ verbose_answers(1) _ getblockheader_members])
      (auto simp: getblockheader_def help_if_Inr rbind_Inr_iff, simp add: doc_getblockheader_def)
  subgoal
    by (rule verbose_documentedI [where a = "opt_arg (get_bool E) params 2 True" and sh = doc_getblockheaders,
        OF _ verbose_answers(3) _ getblockheaders_members])
      (auto simp: getblockheaders_def help_if_Inr rbind_Inr_iff split: if_splits, simp add: doc_getblockheaders_def)
  subgoal
    by (rule verbose_documentedI [where a = "opt_arg (get_bool E) params 1 True" and sh = doc_getblock,
        OF _ verbose_answers(2) _ getblock_members])
      (auto simp: getblock_def help_if_Inr rbind_Inr_iff, simp add: doc_getblock_def)
  done

text \<open>An undocumented status word is no member name; the wider form of \<open>gettxout\<close> has the same members.\<close>

lemma members_widen [simp]: "members (widen w sh) = members sh"
proof (induction sh)
  case (Object req opt)
  have "map (\<lambda>m. members (widen w (snd m))) req = map (\<lambda>m. members (snd m)) req"
    by (rule map_cong [OF refl], rule Object.IH(1), assumption, rule snds.intros)
  moreover have "map (\<lambda>m. members (widen w (snd m))) opt = map (\<lambda>m. members (snd m)) opt"
    by (rule map_cong [OF refl], rule Object.IH(2), assumption, rule snds.intros)
  ultimately show ?case by (simp add: comp_def del: map_eq_conv)
qed simp_all

lemma fixed_members_widen [simp]: "fixed_members (widen w sh) = fixed_members sh"
  by (induction sh) (auto simp: list_all_iff snds.intros)

lemma any_gettxout_members [simp]:
  "fixed_members any_gettxout" "set (members any_gettxout) = set (members doc_gettxout)"
  by (simp_all add: any_gettxout_def any_scriptPubKey_def doc_gettxout_def doc_scriptPubKey_def insert_commute)

lemma tips_documented: "documented_by (getchaintips_lines H) (getchaintips E params h)"
  by (rule documented_byI [OF tips_answers(1)]) (simp_all add: getchaintips_members)

lemma memberless_documented: "(\<And>v. r = Inr v \<Longrightarrow> named_members v = []) \<Longrightarrow> documented_by ls r"
  by (simp add: documented_by_def split: sum.split)

lemma pool_documented:
  assumes "amounts_numeric E"
  shows "documented_by (getmempoolinfo_lines H) (getmempoolinfo E M params h)"
    "documented_by (gettxoutsetinfo_lines H) (gettxoutsetinfo E T params h)"
    "scripts_conform any_scriptPubKey V \<Longrightarrow> documented_by (gettxout_lines H) (gettxout E V params h)"
  subgoal by (rule documented_byI [OF pool_answers(1) [OF assms] _ getmempoolinfo_members]) simp
  subgoal
  proof (cases T)
    case None
    show ?thesis unfolding None by (rule memberless_documented) (drule no_stats, simp)
  next
    case (Some st)
    then show ?thesis using documented_byI [OF pool_answers(2) [OF assms] _ gettxoutsetinfo_members] by simp
  qed
  subgoal premises prems
  proof (cases "gettxout E V params h = Inr VNULL")
    case True
    show ?thesis unfolding True by (rule memberless_documented) simp
  next
    case False
    then show ?thesis
      using documented_byI [OF pool_answers(5) [OF assms prems False]] by (simp add: gettxout_members)
  qed
  done

lemma info_documented:
  "getblockchaininfo E I params h = Some r \<Longrightarrow> documented_by (getblockchaininfo_lines H) r"
  by (rule documented_byI [OF info_answers(1)]) (simp_all add: getblockchaininfo_members)

text \<open>
  C23: the help texts name what is answered. At any depth, a successful answer of
  \<open>getblockheader\<close>, \<open>getblockheaders\<close>, \<open>getblock\<close>, \<open>getchaintips\<close>, \<open>getmempoolinfo\<close>,
  \<open>gettxoutsetinfo\<close>, \<open>gettxout\<close> or \<open>getblockchaininfo\<close> has no member whose name the help text of
  that very command does not list, whatever the chain, the state of the soft forks, the tips,
  the statistics and the arguments: where an answer departs from its documented type (C22) it
  lacks members or has another word for a status, never another member. The functions outside
  the repository give amounts as numbers, and scripts with no other members than the ones of
  \<open>any_scriptPubKey\<close>.
\<close>

theorem help_lists_answers:
  assumes "amounts_numeric E" "scripts_conform any_scriptPubKey V"
  shows "documented_by (getblockheader_lines H) (getblockheader E params h) \<and>
    documented_by (getblockheaders_lines H) (getblockheaders E params h) \<and>
    documented_by (getblock_lines H) (getblock E pruned disk hex js txh params h) \<and>
    documented_by (getchaintips_lines H) (getchaintips E params h) \<and>
    documented_by (getmempoolinfo_lines H) (getmempoolinfo E M params h) \<and>
    documented_by (gettxoutsetinfo_lines H) (gettxoutsetinfo E T params h) \<and>
    documented_by (gettxout_lines H) (gettxout E V params h) \<and>
    (\<forall>r. getblockchaininfo E I params h = Some r \<longrightarrow> documented_by (getblockchaininfo_lines H) r)"
  by (intro conjI allI impI verbose_documented tips_documented assms pool_documented) (erule info_documented)

definition demo_help :: help_env where
  "demo_help = \<lparr>HelpExampleCli = (\<lambda>c a. c @ a), HelpExampleRpc = (\<lambda>c a. c @ a), CURRENCY_UNIT = ''CHX'',
     fmt_num = (\<lambda>n. []), max_headers = 2000, checklevel = 3, checkblocks = 6\<rparr>"

theorem help_lists_answers_witness:
  "getblockheader demo_chain [VSTR ''b''] False = Inr (blockheaderToJSON demo_chain 11) \<and>
   set (named_members (blockheaderToJSON demo_chain 11)) \<subseteq> set (documented_members (getblockheader_lines demo_help))"
proof -
  have g: "getblockheader demo_chain [VSTR ''b''] False = Inr (blockheaderToJSON demo_chain 11)"
    by (simp add: getblockheader_def plain_reader_def find_block_def demo_unhex_def header_json_def)
  have "documented_by (getblockheader_lines demo_help) (getblockheader demo_chain [VSTR ''b''] False)"
    using help_lists_answers [OF demo_chain_documented, of demo_help "[VSTR ''b'']" False] by blast
  then show ?thesis unfolding g documented_by_def by simp
qed

lemmas help_defs =
  help_getblockcount_def help_getbestblockhash_def help_getdifficulty_def help_getrawmempool_def
  help_getblockhashes_def help_getblockhash_def help_getblockheader_def help_getblockheaders_def
  help_getblock_def help_gettxoutsetinfo_def help_gettxout_def help_verifychain_def
  help_getblockchaininfo_def help_getchaintips_def help_getmempoolinfo_def help_invalidateblock_def
  help_reconsiderblock_def help_gobject_def help_privatesend_def help_getpoolinfo_def help_masternode_def
  help_getnewaddress_def

lemmas line_defs =
  getblockcount_lines_def getbestblockhash_lines_def getdifficulty_lines_def getrawmempool_lines_def
  getblockhashes_lines_def getblockhash_lines_def getblockheader_lines_def getblockheaders_lines_def
  getblock_lines_def gettxoutsetinfo_lines_def gettxout_lines_def verifychain_lines_def
  getblockchaininfo_lines_def getchaintips_lines_def getmempoolinfo_lines_def invalidateblock_lines_def
  reconsiderblock_lines_def gobject_lines_def privatesend_lines_def getpoolinfo_lines_def
  masternode_lines_def getnewaddress_lines_def

text \<open>Every text begins with the name of its command.\<close>

lemma help_begins_with_command: "list_all (\<lambda>(c, t). \<exists>rest. t = c @ rest) (help_texts H)"
  unfolding help_texts_def list.pred_inject prod.case
  by (intro conjI) (simp_all add: help_defs line_defs)

end
