(* ===== verification/AccountManager.thy ===== *)
theory AccountManager
  imports Prelude
begin

text \<open>
  The account commands of the client, class \<open>AccountManager\<close> of \<open>chainx/AccountManager.cpp\<close>.
  The key manager and its store, addresses in text form and the terminal are not part of the
  repository, and the bodies of \<open>makeKey\<close> and \<open>openWallet\<close> are cut off in the file: they are the
  fields of \<open>am_env\<close>. What the user types is a sequence of answers, consumed by the prompts;
  the prompts and the lines written are part of the state.
\<close>

section \<open>State and effects\<close>

type_synonym Address = "160 word"
type_synonym h128 = "128 word"

record 'k am_state =
  m_keyManager :: "'k option"
  prompts :: "string list"
  cout :: "string list"
  cerr :: "string list"

text \<open>An exception with its comment, if it has one, or undefined behaviour.\<close>

datatype am_error = Exception "string option" | Undef cxx_error

text \<open>A command need not return, which is \<open>None\<close>; when it throws, its effects stay.\<close>

type_synonym ('k, 'a) am = "'k am_state \<Rightarrow> ((am_error + 'a) \<times> 'k am_state) option"

definition am_return :: "'a \<Rightarrow> ('k, 'a) am" where
  "am_return x s = Some (Inr x, s)"

definition am_bind :: "('k, 'a) am \<Rightarrow> ('a \<Rightarrow> ('k, 'b) am) \<Rightarrow> ('k, 'b) am" where
  "am_bind m f s = (case m s of
     None \<Rightarrow> None | Some (Inl e, s') \<Rightarrow> Some (Inl e, s') | Some (Inr x, s') \<Rightarrow> f x s')"

definition am_then :: "('k, unit) am \<Rightarrow> ('k, 'b) am \<Rightarrow> ('k, 'b) am" where
  "am_then m n = am_bind m (\<lambda>u. n)"

definition am_throw :: "am_error \<Rightarrow> ('k, 'a) am" where
  "am_throw e s = Some (Inl e, s)"

definition am_catch :: "('k, 'a) am \<Rightarrow> (string option \<Rightarrow> ('k, 'a) am) \<Rightarrow> ('k, 'a) am" where
  "am_catch m h s = (case m s of Some (Inl (Exception c), s') \<Rightarrow> h c s' | r \<Rightarrow> r)"

definition out :: "string \<Rightarrow> ('k, unit) am" where
  "out line s = Some (Inr (), s\<lparr>cout := cout s @ [line]\<rparr>)"

definition err :: "string \<Rightarrow> ('k, unit) am" where
  "err line s = Some (Inr (), s\<lparr>cerr := cerr s @ [line]\<rparr>)"

text \<open>The access \<open>*m_keyManager\<close>, and a change of the object it points to.\<close>

definition with_km :: "('k \<Rightarrow> ('k, 'a) am) \<Rightarrow> ('k, 'a) am" where
  "with_km f s = (case m_keyManager s of None \<Rightarrow> Some (Inl (Undef NullDeref), s) | Some k \<Rightarrow> f k s)"

definition set_km :: "'k \<Rightarrow> ('k, unit) am" where
  "set_km k s = Some (Inr (), s\<lparr>m_keyManager := Some k\<rparr>)"

text \<open>
  The key manager is given a function that asks for a password. What it does with it is a
  tree: it returns, throws, or asks and goes on with the answer.
\<close>

datatype 'a asking = Answer 'a | Fail "string option" | Ask "string \<Rightarrow> 'a asking"

record ('k, 'pair) am_env =
  typed :: "nat \<Rightarrow> string"
  openWallet :: "('k, bool) am"
  makeKey :: "('k, 'pair) am"
  pair_secret :: "'pair \<Rightarrow> byte list"
  pair_address :: "'pair \<Rightarrow> Address"
  contentsString :: "string \<Rightarrow> string"
  presaleSecret :: "'k \<Rightarrow> string \<Rightarrow> 'pair asking"
  km_import :: "'k \<Rightarrow> byte list \<Rightarrow> string \<Rightarrow> string \<Rightarrow> string \<Rightarrow> (string option + h128) \<times> 'k"
  importExisting :: "'k \<Rightarrow> h128 \<Rightarrow> string \<Rightarrow> string \<Rightarrow> string \<Rightarrow> 'k"
  km_address :: "'k \<Rightarrow> h128 \<Rightarrow> Address"
  km_accounts :: "'k \<Rightarrow> Address list"
  store_keys :: "'k \<Rightarrow> h128 list"
  store_importKey :: "'k \<Rightarrow> string \<Rightarrow> h128 \<times> 'k"
  store_secret :: "'k \<Rightarrow> h128 \<Rightarrow> (byte list \<times> 'k) asking"
  recode_address :: "'k \<Rightarrow> Address \<Rightarrow> string \<Rightarrow> (bool \<times> 'k) asking"
  recode_uuid :: "'k \<Rightarrow> h128 \<Rightarrow> string \<Rightarrow> (bool \<times> 'k) asking"
  isHex :: "string \<Rightarrow> bool"
  fromUUID :: "string \<Rightarrow> h128"
  toUUID :: "h128 \<Rightarrow> string"
  address_of_hex :: "string \<Rightarrow> string option + Address"
  address_hex :: "Address \<Rightarrow> string"
  icap_encoded :: "Address \<Rightarrow> string"
  dec :: "nat \<Rightarrow> string"

definition getPassword :: "('k, 'pair) am_env \<Rightarrow> string \<Rightarrow> 'k am_state \<Rightarrow> string \<times> 'k am_state" where
  "getPassword E prompt s = (typed E (length (prompts s)), s\<lparr>prompts := prompts s @ [prompt]\<rparr>)"

text \<open>The second result is the last answer, which the functions passed keep in \<open>pw\<close>.\<close>

primrec run_callback ::
    "('k, 'pair) am_env \<Rightarrow> string \<Rightarrow> 'a asking \<Rightarrow> string \<Rightarrow> ('k, 'a \<times> string) am" where
  "run_callback E prompt (Answer x) pw s = Some (Inr (x, pw), s)"
| "run_callback E prompt (Fail c) pw s = Some (Inl (Exception c), s)"
| "run_callback E prompt (Ask k) pw s =
     run_callback E prompt (k (fst (getPassword E prompt s))) (fst (getPassword E prompt s)) (snd (getPassword E prompt s))"

section \<open>Passwords\<close>

definition confirm_prompt :: string where
  "confirm_prompt = ''Please confirm the passphrase by entering it again: ''"

definition different_line :: string where
  "different_line = ''Passwords were different. Try again.''"

partial_function (option) createPassword :: "('k, 'pair) am_env \<Rightarrow> string \<Rightarrow> ('k, string) am" where
  "createPassword E prompt s =
     (let (ret, s) = getPassword E prompt s; (confirm, s) = getPassword E confirm_prompt s in
      if ret = confirm then Some (Inr ret, s)
      else createPassword E prompt (s\<lparr>cout := cout s @ [different_line]\<rparr>))"

section \<open>The wallet command\<close>

definition streamAccountHelp :: "('k, unit) am" where
  "streamAccountHelp =
     am_then (out ''    account list  List all keys available in wallet.'')
     (am_then (out (''    account new'' @ [CHR 0x09] @ ''Create a new key and add it to the wallet.''))
     (am_then (out ''    account update [<uuid>|<address> , ... ]  Decrypt and re-encrypt given keys.'')
       (out (''    account import [<uuid>|<file>|<secret-hex>]'' @ [CHR 0x09] @ ''Import keys from given source and place in wallet.''))))"

definition streamWalletHelp :: "('k, unit) am" where
  "streamWalletHelp = out (''    wallet import <file>'' @ [CHR 0x09] @ ''Import a presale wallet.'')"

definition import_secret ::
    "('k, 'pair) am_env \<Rightarrow> byte list \<Rightarrow> string \<Rightarrow> string \<Rightarrow> string \<Rightarrow> ('k, h128) am" where
  "import_secret E secret name pw hint = with_km (\<lambda>k.
     case km_import E k secret name pw hint of (r, k') \<Rightarrow>
       am_then (set_km k') (case r of Inl c \<Rightarrow> am_throw (Exception c) | Inr u \<Rightarrow> am_return u))"

definition address_line :: "('k, 'pair) am_env \<Rightarrow> Address \<Rightarrow> string" where
  "address_line E a = ''  Address: {'' @ address_hex E a @ ''}''"

definition failed_line :: "string option \<Rightarrow> string" where
  "failed_line c = ''  Decryption failed: '' @ (case c of Some e \<Rightarrow> e | None \<Rightarrow> ''Unknown reason.'')"

definition presale_hint :: string where
  "presale_hint = ''Same passphrase as used for presale key''"

definition wallet_import :: "('k, 'pair) am_env \<Rightarrow> string \<Rightarrow> ('k, bool) am" where
  "wallet_import E file =
     am_bind (openWallet E) (\<lambda>opened.
       if \<not> opened then am_return False
       else am_catch
         (am_bind (with_km (\<lambda>k. run_callback E ''Enter the passphrase for the presale key: ''
              (presaleSecret E k (contentsString E file)) [])) (\<lambda>(p, pw).
          am_bind (import_secret E (pair_secret E p) ''presale wallet'' pw presale_hint) (\<lambda>u.
          am_then (out (address_line E (pair_address E p))) (am_return True))))
         (\<lambda>c. am_then (out (failed_line c)) (am_return False)))"

section \<open>The account commands\<close>

definition account_line :: "('k, 'pair) am_env \<Rightarrow> nat \<Rightarrow> string \<Rightarrow> string" where
  "account_line E k rest = ''Account #'' @ dec E k @ '': '' @ rest"

definition braced :: "('k, 'pair) am_env \<Rightarrow> Address \<Rightarrow> string" where
  "braced E a = ''{'' @ address_hex E a @ ''}''"

text \<open>The three loops; each returns the next number. The first also collects \<open>got\<close> and \<open>bare\<close>.\<close>

fun list_keys ::
    "('k, 'pair) am_env \<Rightarrow> 'k \<Rightarrow> h128 list \<Rightarrow> nat \<Rightarrow> Address set \<Rightarrow> h128 list \<Rightarrow>
     ('k, nat \<times> Address set \<times> h128 list) am" where
  "list_keys E km [] k got bare = am_return (k, got, bare)"
| "list_keys E km (u # us) k got bare =
     (let a = km_address E km u in
      if a \<noteq> 0 then
        am_then (out (account_line E k (braced E a))) (list_keys E km us (k + 1) (insert a got) bare)
      else list_keys E km us k got (bare @ [u]))"

fun list_accounts :: "('k, 'pair) am_env \<Rightarrow> Address list \<Rightarrow> nat \<Rightarrow> Address set \<Rightarrow> ('k, nat) am" where
  "list_accounts E [] k got = am_return k"
| "list_accounts E (a # as) k got =
     (if a \<notin> got then
        am_then (out (account_line E k (braced E a @ '' (Brain)''))) (list_accounts E as (k + 1) got)
      else list_accounts E as k got)"

fun list_bare :: "('k, 'pair) am_env \<Rightarrow> h128 list \<Rightarrow> nat \<Rightarrow> ('k, unit) am" where
  "list_bare E [] k = am_return ()"
| "list_bare E (u # us) k =
     am_then (out (account_line E k (toUUID E u @ '' (Bare)''))) (list_bare E us (k + 1))"

definition account_list :: "('k, 'pair) am_env \<Rightarrow> ('k, unit) am" where
  "account_list E =
     am_bind (openWallet E) (\<lambda>opened. with_km (\<lambda>km.
       if store_keys E km = [] then out ''No keys found.''
       else
         am_bind (list_keys E km (store_keys E km) 0 {} []) (\<lambda>(k, got, bare).
         am_bind (list_accounts E (km_accounts E km) k got) (\<lambda>k.
         list_bare E bare k))))"

definition icap_line :: "('k, 'pair) am_env \<Rightarrow> Address \<Rightarrow> string" where
  "icap_line E a = ''  ICAP: '' @ icap_encoded E a"

definition account_new :: "('k, 'pair) am_env \<Rightarrow> ('k, unit) am" where
  "account_new E =
     am_bind (openWallet E) (\<lambda>opened.
     am_bind (createPassword E ''Enter a passphrase with which to secure this account:'') (\<lambda>lock.
     am_bind (makeKey E) (\<lambda>k.
     am_bind (import_secret E (pair_secret E k) [] lock []) (\<lambda>u.
     am_then (out (''Created key '' @ toUUID E u))
     (am_then (out (icap_line E (pair_address E k)))
       (out (address_line E (pair_address E k))))))))"

definition account_import :: "('k, 'pair) am_env \<Rightarrow> string \<Rightarrow> ('k, bool) am" where
  "account_import E file =
     am_bind (openWallet E) (\<lambda>opened. with_km (\<lambda>km.
       case store_importKey E km file of (u, km) \<Rightarrow>
       am_then (set_km km)
       (if u = 0 then am_then (err ''Error: reading key file failed'') (am_return False)
        else
          am_bind (run_callback E ''Enter the passphrase for the key: '' (store_secret E km u) []) (\<lambda>((s, km), pw).
          am_then (set_km km)
          (if s = [] then
             am_then (err ''Error: couldn't decode key or invalid secret size.'') (am_return False)
           else
             let km = importExisting E km u [] pw []; a = km_address E km u in
             am_then (set_km km)
             (am_then (out (''Imported key '' @ toUUID E u))
             (am_then (out (icap_line E a))
             (am_then (out (address_line E a)) (am_return True)))))))))"

definition recoded_line :: "string \<Rightarrow> bool \<Rightarrow> string" where
  "recoded_line i recoded =
     (if recoded then ''Re-encoded '' @ i
      else ''Couldn't re-encode '' @ i @ ''; key does not exist, corrupt or incorrect passphrase supplied.'')"

definition no_key_line :: "string \<Rightarrow> string" where
  "no_key_line i = ''Couldn't re-encode '' @ i @ ''; does not represent an address or uuid.''"

definition new_prompt :: "string \<Rightarrow> string" where
  "new_prompt i = ''Enter the new passphrase for the account '' @ i"

definition current_prompt :: "string \<Rightarrow> string" where
  "current_prompt i = ''Enter the current passphrase for the account '' @ i @ '': ''"

text \<open>\<open>Address(i)\<close> throws when the text has not the size of an address.\<close>

definition recode_one :: "('k, 'pair) am_env \<Rightarrow> string \<Rightarrow> string \<Rightarrow> ('k, (bool \<times> 'k) \<times> string) am" where
  "recode_one E i newP = with_km (\<lambda>km.
     if isHex E i then
       (case address_of_hex E i of
          Inl c \<Rightarrow> am_throw (Exception c)
        | Inr a \<Rightarrow> run_callback E (current_prompt i) (recode_address E km a newP) [])
     else run_callback E (current_prompt i) (recode_uuid E km (fromUUID E i) newP) [])"

text \<open>One argument of \<open>update\<close>.\<close>

definition update_one :: "('k, 'pair) am_env \<Rightarrow> string \<Rightarrow> ('k, unit) am" where
  "update_one E i =
     (if isHex E i \<or> fromUUID E i \<noteq> 0 then
        am_bind (createPassword E (new_prompt i)) (\<lambda>newP.
        am_bind (recode_one E i newP) (\<lambda>((recoded, km), pw).
        am_then (set_km km) (err (recoded_line i recoded))))
      else err (no_key_line i))"

fun update_all :: "('k, 'pair) am_env \<Rightarrow> string list \<Rightarrow> ('k, unit) am" where
  "update_all E [] = am_return ()"
| "update_all E (i # is) = am_then (update_one E i) (update_all E is)"

definition account_update :: "('k, 'pair) am_env \<Rightarrow> string list \<Rightarrow> ('k, unit) am" where
  "account_update E args = am_bind (openWallet E) (\<lambda>opened. update_all E args)"

section \<open>The dispatcher\<close>

definition and_true :: "('k, unit) am \<Rightarrow> ('k, bool) am" where
  "and_true m = am_then m (am_return True)"

text \<open>
  \<open>argc\<close> is the length of \<open>argv\<close>. Without a command \<open>argv[1]\<close> is the null pointer that ends the
  array.
\<close>

definition execute :: "('k, 'pair) am_env \<Rightarrow> string list \<Rightarrow> ('k, bool) am" where
  "execute E argv =
     (if length argv < 2 then am_throw (Undef NullDeref)
      else if argv ! 1 = ''wallet'' then
        (if 3 < length argv \<and> argv ! 2 = ''import'' then wallet_import E (argv ! 3)
         else and_true streamWalletHelp)
      else if argv ! 1 = ''account'' then
        (if length argv < 3 \<or> argv ! 2 = ''list'' then and_true (account_list E)
         else if argv ! 2 = ''new'' then and_true (account_new E)
         else if 3 < length argv \<and> argv ! 2 = ''import'' then account_import E (argv ! 3)
         else if 3 < length argv \<and> argv ! 2 = ''update'' then and_true (account_update E (drop 3 argv))
         else and_true streamAccountHelp)
      else am_return False)"

section \<open>Evaluation\<close>

lemma am_simps [simp]:
  "am_bind (am_return x) f s = f x s" "am_return x s = Some (Inr x, s)" "am_throw e s = Some (Inl e, s)"
  "out l s = Some (Inr (), s\<lparr>cout := cout s @ [l]\<rparr>)" "err l s = Some (Inr (), s\<lparr>cerr := cerr s @ [l]\<rparr>)"
  "set_km k s = Some (Inr (), s\<lparr>m_keyManager := Some k\<rparr>)"
  "m_keyManager s = Some k \<Longrightarrow> with_km g s = g k s"
  by (simp_all add: am_bind_def am_return_def am_throw_def out_def err_def set_km_def with_km_def)

lemma am_bind_run: "m s = Some (Inr x, s') \<Longrightarrow> am_bind m f s = f x s'"
  by (simp add: am_bind_def)

lemma am_then_run: "m s = Some (Inr (), s') \<Longrightarrow> am_then m n s = n s'"
  by (simp add: am_then_def am_bind_def)

lemma am_then_simps [simp]:
  "am_then (out l) n s = n (s\<lparr>cout := cout s @ [l]\<rparr>)" "am_then (err l) n s = n (s\<lparr>cerr := cerr s @ [l]\<rparr>)"
  "am_then (set_km k) n s = n (s\<lparr>m_keyManager := Some k\<rparr>)"
  by (simp_all add: am_then_run)

lemma am_bind_InrE:
  assumes "am_bind m f s = Some (Inr y, s')"
  obtains x s1 where "m s = Some (Inr x, s1)" "f x s1 = Some (Inr y, s')"
  using assms by (auto simp: am_bind_def split: option.splits sum.splits)

lemma am_then_InrE:
  assumes "am_then m n s = Some (Inr y, s')"
  obtains s1 where "m s = Some (Inr (), s1)" "n s1 = Some (Inr y, s')"
  using assms unfolding am_then_def by (elim am_bind_InrE) simp

section \<open>The password that is chosen\<close>

text \<open>The \<open>i\<close>-th try: whether the two answers agree, and the state after \<open>i\<close> tries that do not.\<close>

definition agree :: "('k, 'pair) am_env \<Rightarrow> 'k am_state \<Rightarrow> nat \<Rightarrow> bool" where
  "agree E s i \<longleftrightarrow> typed E (length (prompts s) + 2 * i) = typed E (length (prompts s) + 2 * i + 1)"

definition after_tries :: "string \<Rightarrow> nat \<Rightarrow> 'k am_state \<Rightarrow> 'k am_state" where
  "after_tries prompt i s =
     s\<lparr>prompts := prompts s @ concat (replicate i [prompt, confirm_prompt]), cout := cout s @ replicate i different_line\<rparr>"

definition asked_twice :: "string \<Rightarrow> 'k am_state \<Rightarrow> 'k am_state" where
  "asked_twice prompt s = s\<lparr>prompts := prompts s @ [prompt, confirm_prompt]\<rparr>"

lemma createPassword_try:
  "createPassword E prompt s =
    (if agree E s 0 then Some (Inr (typed E (length (prompts s))), asked_twice prompt s)
     else createPassword E prompt (after_tries prompt 1 s))"
  by (subst createPassword.simps) (simp add: getPassword_def agree_def after_tries_def asked_twice_def)

lemma length_tries: "length (concat (replicate i [a, b])) = 2 * i"
  by (induction i) simp_all

lemma agree_after: "agree E (after_tries prompt i s) j = agree E s (i + j)"
  by (simp add: agree_def after_tries_def length_tries algebra_simps)

lemma replicate_snoc: "replicate i x @ [x] = x # replicate i x"
  by (induction i) simp_all

lemma after_tries_Suc: "after_tries prompt i (after_tries prompt 1 s) = after_tries prompt (Suc i) s"
  by (simp add: after_tries_def)

lemma createPassword_agree:
  "agree E s i \<Longrightarrow> \<forall>j < i. \<not> agree E s j \<Longrightarrow>
   createPassword E prompt s =
     Some (Inr (typed E (length (prompts s) + 2 * i)), asked_twice prompt (after_tries prompt i s))"
proof (induction i arbitrary: s)
  case 0
  then show ?case by (subst createPassword_try) (simp add: after_tries_def)
next
  case (Suc i)
  have n: "length (prompts (after_tries prompt 1 s)) = length (prompts s) + 2" by (simp add: after_tries_def)
  have "createPassword E prompt s = createPassword E prompt (after_tries prompt 1 s)"
    using Suc.prems(2) by (subst createPassword_try) simp
  also have "\<dots> = Some (Inr (typed E (length (prompts (after_tries prompt 1 s)) + 2 * i)),
      asked_twice prompt (after_tries prompt i (after_tries prompt 1 s)))"
    using Suc.prems by (intro Suc.IH) (auto simp: agree_after)
  finally show ?case unfolding n after_tries_Suc by simp
qed

lemma createPassword_agrees:
  assumes "createPassword E prompt s = Some r"
  shows "\<exists>i. agree E s i"
proof (rule createPassword.raw_induct [where P = "\<lambda>E prompt s r. \<exists>i. agree E s i", OF _ assms])
  fix f :: "('k, 'pair) am_env \<Rightarrow> string \<Rightarrow> ('k, string) am" and E :: "('k, 'pair) am_env" and prompt s r
  assume ih: "\<And>E prompt s r. f E prompt s = Some r \<Longrightarrow> \<exists>i. agree E s i"
    and run: "(let (ret, s) = getPassword E prompt s; (confirm, s) = getPassword E confirm_prompt s in
      if ret = confirm then Some (Inr ret, s)
      else f E prompt (s\<lparr>cout := cout s @ [different_line]\<rparr>)) = Some r"
  show "\<exists>i. agree E s i"
  proof (cases "agree E s 0")
    case False
    then have "f E prompt (after_tries prompt 1 s) = Some r"
      using run by (simp add: getPassword_def agree_def after_tries_def)
    then have "\<exists>i. agree E (after_tries prompt 1 s) i" by (rule ih)
    then show ?thesis by (auto simp: agree_after)
  qed blast
qed

text \<open>
  C31: choosing a password. \<open>createPassword\<close> returns exactly when at some try the user enters
  the same text twice, and then with the text of the first such try: each try asks twice, and
  each one before the last writes that the passwords differ.
\<close>

theorem createPassword_returns:
  "createPassword E prompt s =
    (if \<exists>i. agree E s i then
       Some (Inr (typed E (length (prompts s) + 2 * (LEAST i. agree E s i))),
         asked_twice prompt (after_tries prompt (LEAST i. agree E s i) s))
     else None)"
proof (cases "\<exists>i. agree E s i")
  case True
  define i where "i = (LEAST i. agree E s i)"
  have "agree E s i" unfolding i_def using True by (rule LeastI_ex)
  moreover have "\<forall>j < i. \<not> agree E s j" unfolding i_def using not_less_Least by blast
  ultimately show ?thesis unfolding i_def [symmetric] if_P [OF True] by (rule createPassword_agree)
next
  case False
  then have "createPassword E prompt s = None" using createPassword_agrees by (metis option.exhaust)
  then show ?thesis using False by simp
qed

section \<open>Listing the accounts\<close>

definition numbered :: "('k, 'pair) am_env \<Rightarrow> nat \<Rightarrow> string list \<Rightarrow> string list" where
  "numbered E k ts = map (\<lambda>(n, t). account_line E n t) (enumerate k ts)"

lemma numbered_simps [simp]:
  "numbered E k [] = []" "numbered E k (t # ts) = account_line E k t # numbered E (Suc k) ts"
  by (simp_all add: numbered_def)

lemma numbered_append: "numbered E k (ts @ us) = numbered E k ts @ numbered E (k + length ts) us"
  by (induction ts arbitrary: k) simp_all

definition key_addresses :: "('k, 'pair) am_env \<Rightarrow> 'k \<Rightarrow> h128 list \<Rightarrow> Address list" where
  "key_addresses E km us = filter (\<lambda>a. a \<noteq> 0) (map (km_address E km) us)"

definition bare_keys :: "('k, 'pair) am_env \<Rightarrow> 'k \<Rightarrow> h128 list \<Rightarrow> h128 list" where
  "bare_keys E km us = filter (\<lambda>u. km_address E km u = 0) us"

lemma list_keys_run:
  "list_keys E km us k got bare s =
     Some (Inr (k + length (key_addresses E km us), got \<union> set (key_addresses E km us), bare @ bare_keys E km us),
       s\<lparr>cout := cout s @ numbered E k (map (braced E) (key_addresses E km us))\<rparr>)"
  by (induction us arbitrary: k got bare s) (simp_all add: key_addresses_def bare_keys_def Let_def)

lemma list_accounts_run:
  "list_accounts E as k got s =
     Some (Inr (k + length (filter (\<lambda>a. a \<notin> got) as)),
       s\<lparr>cout := cout s @ numbered E k (map (\<lambda>a. braced E a @ '' (Brain)'') (filter (\<lambda>a. a \<notin> got) as))\<rparr>)"
  by (induction as arbitrary: k s) simp_all

lemma list_bare_run:
  "list_bare E us k s = Some (Inr (), s\<lparr>cout := cout s @ numbered E k (map (\<lambda>u. toUUID E u @ '' (Bare)'') us)\<rparr>)"
  by (induction us arbitrary: k s) simp_all

text \<open>What the listing should be: keys with an address, then the other accounts, then bare keys.\<close>

definition account_entries :: "('k, 'pair) am_env \<Rightarrow> 'k \<Rightarrow> string list" where
  "account_entries E km =
     map (braced E) (key_addresses E km (store_keys E km)) @
     map (\<lambda>a. braced E a @ '' (Brain)'')
       (filter (\<lambda>a. a \<notin> set (key_addresses E km (store_keys E km))) (km_accounts E km)) @
     map (\<lambda>u. toUUID E u @ '' (Bare)'') (bare_keys E km (store_keys E km))"

lemma account_list_run:
  assumes "openWallet E s = Some (Inr opened, s1)" "m_keyManager s1 = Some km"
  shows "account_list E s = Some (Inr (), s1\<lparr>cout := cout s1 @
     (if store_keys E km = [] then [''No keys found.''] else numbered E 0 (account_entries E km))\<rparr>)"
  using assms
  by (simp add: account_list_def am_bind_run list_keys_run list_accounts_run list_bare_run
      account_entries_def numbered_append)

text \<open>
  C32: what is listed. When opening the wallet leaves a key manager, \<open>account list\<close> returns
  true and changes nothing after that opening but the output. For a store with keys it writes
  each key that has an address, then each account without a key, then each key without an
  address, once per entry, numbered from 0 without gaps. For a store without keys it writes
  only that there are none: the accounts without a key are then not listed.
\<close>

theorem account_list_complete:
  assumes "2 \<le> length argv" "argv ! 1 = ''account''" "length argv = 2 \<or> argv ! 2 = ''list''"
    and "openWallet E s = Some (Inr opened, s1)" "m_keyManager s1 = Some km"
  shows "execute E argv s = Some (Inr True, s1\<lparr>cout := cout s1 @
     (if store_keys E km = [] then [''No keys found.''] else numbered E 0 (account_entries E km))\<rparr>)"
proof -
  have "execute E argv = and_true (account_list E)"
    using assms(1-3) by (auto simp: execute_def)
  then show ?thesis using account_list_run [OF assms(4,5)]
    by (simp add: and_true_def am_then_run)
qed

section \<open>Updating keys\<close>

lemma createPassword_frame:
  assumes "createPassword E prompt s = Some (r, s')"
  shows "cerr s' = cerr s \<and> m_keyManager s' = m_keyManager s"
proof -
  obtain i where "agree E s i" "\<forall>j < i. \<not> agree E s j"
    using createPassword_agrees [OF assms] exists_least_iff [of "agree E s"] by blast
  from createPassword_agree [OF this, of prompt] assms show ?thesis
    by (auto simp: asked_twice_def after_tries_def)
qed

lemma run_callback_frame:
  "run_callback E prompt t pw s = Some (r, s') \<Longrightarrow> cerr s' = cerr s \<and> m_keyManager s' = m_keyManager s"
proof (induction t arbitrary: pw s)
  case (Ask k)
  let ?s = "snd (getPassword E prompt s)"
  have "run_callback E prompt (k (fst (getPassword E prompt s))) (fst (getPassword E prompt s)) ?s = Some (r, s')"
    using Ask.prems by simp
  then have "cerr s' = cerr ?s \<and> m_keyManager s' = m_keyManager ?s" by (rule Ask.IH [rotated]) simp
  then show ?case by (simp add: getPassword_def)
qed auto

text \<open>An argument that names a key: an address in hexadecimal, or a UUID.\<close>

definition names_key :: "('k, 'pair) am_env \<Rightarrow> string \<Rightarrow> bool" where
  "names_key E i \<longleftrightarrow> isHex E i \<or> fromUUID E i \<noteq> 0"

text \<open>
  What the command promises, apart from how it is written. \<open>heard E n t m x\<close>: the function \<open>t\<close>
  returns \<open>x\<close> after \<open>m\<close> of the user's answers, from the \<open>n\<close>-th on.
\<close>

inductive heard :: "('k, 'pair) am_env \<Rightarrow> nat \<Rightarrow> 'a asking \<Rightarrow> nat \<Rightarrow> 'a \<Rightarrow> bool" for E where
  heard_Answer: "heard E n (Answer x) 0 x"
| heard_Ask: "heard E (Suc n) (k (typed E n)) m x \<Longrightarrow> heard E n (Ask k) (Suc m) x"

inductive_simps heard_simps [simp]:
  "heard E n (Answer y) m x" "heard E n (Fail c) m x" "heard E n (Ask k) m x"

definition recode_call :: "('k, 'pair) am_env \<Rightarrow> 'k \<Rightarrow> string \<Rightarrow> string \<Rightarrow> (bool \<times> 'k) asking" where
  "recode_call E km i newP =
     (if isHex E i then (case address_of_hex E i of Inl c \<Rightarrow> Fail c | Inr a \<Rightarrow> recode_address E km a newP)
      else recode_uuid E km (fromUUID E i) newP)"

text \<open>The line for an argument: the store re-encoded it or not, or it names no key.\<close>

fun result_line :: "string \<Rightarrow> bool option \<Rightarrow> string" where
  "result_line i (Some True) = ''Re-encoded '' @ i"
| "result_line i (Some False) =
     ''Couldn't re-encode '' @ i @ ''; key does not exist, corrupt or incorrect passphrase supplied.''"
| "result_line i None = ''Couldn't re-encode '' @ i @ ''; does not represent an address or uuid.''"

inductive updated :: "('k, 'pair) am_env \<Rightarrow> string \<Rightarrow> 'k am_state \<Rightarrow> bool option \<Rightarrow> 'k am_state \<Rightarrow> bool" for E where
  updated_other: "\<not> names_key E i \<Longrightarrow> updated E i s None (s\<lparr>cerr := cerr s @ [result_line i None]\<rparr>)"
| updated_key: "names_key E i \<Longrightarrow> agree E s j \<Longrightarrow> \<forall>l < j. \<not> agree E s l \<Longrightarrow>
    s1 = asked_twice (new_prompt i) (after_tries (new_prompt i) j s) \<Longrightarrow> m_keyManager s = Some km \<Longrightarrow>
    heard E (length (prompts s1)) (recode_call E km i (typed E (length (prompts s) + 2 * j))) m (recoded, km') \<Longrightarrow>
    s' = s1\<lparr>m_keyManager := Some km', prompts := prompts s1 @ replicate m (current_prompt i),
      cerr := cerr s1 @ [result_line i (Some recoded)]\<rparr> \<Longrightarrow>
    updated E i s (Some recoded) s'"

inductive_cases updatedE: "updated E i s r s'"

inductive updates ::
    "('k, 'pair) am_env \<Rightarrow> string list \<Rightarrow> 'k am_state \<Rightarrow> bool option list \<Rightarrow> 'k am_state \<Rightarrow> bool" for E where
  updates_Nil: "updates E [] s [] s"
| updates_Cons: "updated E i s r s1 \<Longrightarrow> updates E is s1 rs s' \<Longrightarrow> updates E (i # is) s (r # rs) s'"

inductive_simps updates_simps: "updates E [] s rs s'" "updates E (i # is) s rs s'"

lemma run_callback_heard:
  "(\<exists>pw'. run_callback E prompt t pw s = Some (Inr (x, pw'), s')) \<longleftrightarrow>
   (\<exists>m. heard E (length (prompts s)) t m x \<and> s' = s\<lparr>prompts := prompts s @ replicate m prompt\<rparr>)"
proof (induction t arbitrary: pw s)
  case (Ask k)
  let ?a = "typed E (length (prompts s))" and ?s = "s\<lparr>prompts := prompts s @ [prompt]\<rparr>"
  have "(\<exists>pw'. run_callback E prompt (Ask k) pw s = Some (Inr (x, pw'), s')) \<longleftrightarrow>
      (\<exists>m. heard E (Suc (length (prompts s))) (k ?a) m x \<and> s' = ?s\<lparr>prompts := prompts ?s @ replicate m prompt\<rparr>)"
    using Ask [of "k ?a" ?a ?s] by (simp add: getPassword_def)
  then show ?case by (auto intro: exI [of _ "Suc m" for m])
qed auto

lemma recode_one_heard:
  "m_keyManager s = Some km \<Longrightarrow>
   recode_one E i newP s = run_callback E (current_prompt i) (recode_call E km i newP) [] s"
  by (simp add: recode_one_def with_km_def recode_call_def split: sum.split)

lemma recoded_line_result: "recoded_line i b = result_line i (Some b)"
  by (cases b) (simp_all add: recoded_line_def)

lemma recode_one_InrE:
  assumes "recode_one E i newP s = Some (Inr x, s')"
  obtains km where "m_keyManager s = Some km"
  using assms by (auto simp: recode_one_def with_km_def split: option.splits)

lemma first_agree: "createPassword E q s = Some r \<Longrightarrow> \<exists>j. agree E s j \<and> (\<forall>l < j. \<not> agree E s l)"
  using createPassword_agrees [of E q s r] exists_least_iff [of "agree E s"] by blast

lemma update_one_updated:
  assumes "update_one E i s = Some (Inr (), s')"
  shows "\<exists>r. updated E i s r s'"
proof (cases "names_key E i")
  case False
  then have "s' = s\<lparr>cerr := cerr s @ [result_line i None]\<rparr>"
    using assms by (auto simp: update_one_def names_key_def no_key_line_def)
  then show ?thesis using updated_other [OF False] by blast
next
  case True
  then have "am_bind (createPassword E (new_prompt i)) (\<lambda>newP.
      am_bind (recode_one E i newP) (\<lambda>((recoded, km), pw). am_then (set_km km) (err (recoded_line i recoded)))) s = Some (Inr (), s')"
    using assms by (simp add: update_one_def names_key_def)
  then obtain newP s1 x s2 where c: "createPassword E (new_prompt i) s = Some (Inr newP, s1)"
    and r: "recode_one E i newP s1 = Some (Inr x, s2)"
    and f: "(case x of ((recoded, km), pw) \<Rightarrow> am_then (set_km km) (err (recoded_line i recoded))) s2 = Some (Inr (), s')"
    by (auto elim!: am_bind_InrE)
  obtain recoded km' pw where x: "x = ((recoded, km'), pw)" by (metis prod.exhaust)
  obtain j where j: "agree E s j" "\<forall>l < j. \<not> agree E s l" using first_agree [OF c] by blast
  have n: "newP = typed E (length (prompts s) + 2 * j)" "s1 = asked_twice (new_prompt i) (after_tries (new_prompt i) j s)"
    using createPassword_agree [OF j, of "new_prompt i"] c by simp_all
  obtain km where km: "m_keyManager s1 = Some km" using recode_one_InrE [OF r] .
  obtain m where m: "heard E (length (prompts s1)) (recode_call E km i newP) m (recoded, km')"
    "s2 = s1\<lparr>prompts := prompts s1 @ replicate m (current_prompt i)\<rparr>"
    using r run_callback_heard [of E "current_prompt i" "recode_call E km i newP" "[]" s1 "(recoded, km')" s2]
    unfolding recode_one_heard [OF km] x by blast
  have "m_keyManager s = Some km" using createPassword_frame [OF c] km by simp
  moreover have "s' = s1\<lparr>m_keyManager := Some km', prompts := prompts s1 @ replicate m (current_prompt i),
      cerr := cerr s1 @ [result_line i (Some recoded)]\<rparr>"
    using f m(2) by (auto simp: x recoded_line_result)
  ultimately show ?thesis using updated_key [OF True j n(2) _ m(1) [unfolded n(1)]] by blast
qed

lemma updated_update_one:
  assumes "updated E i s r s'"
  shows "update_one E i s = Some (Inr (), s')"
  using assms
proof cases
  case updated_other
  then show ?thesis by (simp add: update_one_def names_key_def no_key_line_def)
next
  case (updated_key j s1 km m recoded km')
  note n = updated_key(2-4) and s1 = updated_key(5) and km = updated_key(6) and h = updated_key(7) and s' = updated_key(8)
  let ?p = "typed E (length (prompts s) + 2 * j)"
  have c: "createPassword E (new_prompt i) s = Some (Inr ?p, s1)"
    using createPassword_agree [OF n(2,3)] s1 by blast
  have k: "m_keyManager s1 = Some km" using createPassword_frame [OF c] km by simp
  obtain pw where "recode_one E i ?p s1 = Some (Inr ((recoded, km'), pw), s1\<lparr>prompts := prompts s1 @ replicate m (current_prompt i)\<rparr>)"
    unfolding recode_one_heard [OF k] using h run_callback_heard [of E "current_prompt i" "recode_call E km i ?p"] by blast
  then show ?thesis
    using n(1) s' by (simp add: update_one_def names_key_def am_bind_run [where m = "createPassword E (new_prompt i)", OF c]
        am_bind_run [where m = "recode_one E i ?p"] recoded_line_result)
qed

lemma update_all_updates: "update_all E is s = Some (Inr (), s') \<longleftrightarrow> (\<exists>rs. updates E is s rs s')"
proof (induction "is" arbitrary: s)
  case Nil
  then show ?case by (auto simp: updates_simps)
next
  case (Cons i js)
  have "update_all E (i # js) s = Some (Inr (), s') \<longleftrightarrow>
      (\<exists>s1. update_one E i s = Some (Inr (), s1) \<and> update_all E js s1 = Some (Inr (), s'))"
    by (auto elim: am_then_InrE simp: am_then_run)
  also have "\<dots> \<longleftrightarrow> (\<exists>rs. updates E (i # js) s rs s')"
    using Cons.IH update_one_updated updated_update_one by (fastforce simp: updates_simps)
  finally show ?case .
qed

lemma updated_lines:
  "updated E i s r s' \<Longrightarrow> cerr s' = cerr s @ [result_line i r] \<and> (r \<noteq> None \<longleftrightarrow> names_key E i) \<and>
    (r = None \<longrightarrow> s' = s\<lparr>cerr := cerr s'\<rparr>)"
  by (erule updatedE) (simp_all add: asked_twice_def after_tries_def)

lemma updates_lines:
  "updates E is s rs s' \<Longrightarrow> length rs = length is \<and> cerr s' = cerr s @ map2 result_line is rs \<and>
    ((\<forall>i \<in> set is. \<not> names_key E i) \<longrightarrow> s' = s\<lparr>cerr := cerr s'\<rparr>)"
proof (induction rule: updates.induct)
  case (updates_Cons i s r s1 js rs s')
  have "s' = s\<lparr>cerr := cerr s'\<rparr>" if "\<forall>i \<in> set (i # js). \<not> names_key E i"
    using that updated_lines [OF updates_Cons.hyps(1)] updates_Cons.IH
    by (metis am_state.surjective am_state.update_convs(4) list.set_intros)
  then show ?case using updated_lines [OF updates_Cons.hyps(1)] updates_Cons.IH by simp
qed simp

text \<open>
  C33: every argument of \<open>account update\<close> is accounted for. The command returns, with true and
  in a certain state, exactly if its arguments can be treated one after the other to that
  state (\<open>updates\<close>): for an argument that names a key the user twice enters the same new
  passphrase, the store is called with it and the user's answers about the old one, and the
  key manager becomes what the store makes of it; any other argument leaves everything as it
  is. There is one line per argument, in their order, which says that the key was re-encoded
  exactly if the store did so, that it could not be exactly if the store failed, and that the
  argument names no key otherwise. If no argument names a key nothing else is changed and
  nothing is asked.
\<close>

theorem update_reports_each:
  assumes "3 < length argv" "argv ! 1 = ''account''" "argv ! 2 = ''update''"
    and "openWallet E s = Some (Inr opened, s1)"
  shows "(execute E argv s = Some (Inr b, s') \<longleftrightarrow> b \<and> (\<exists>rs. updates E (drop 3 argv) s1 rs s' \<and>
      length rs = length (drop 3 argv) \<and> cerr s' = cerr s1 @ map2 result_line (drop 3 argv) rs)) \<and>
    (execute E argv s = Some (Inr b, s') \<and> (\<forall>i \<in> set (drop 3 argv). \<not> names_key E i) \<longrightarrow> s' = s1\<lparr>cerr := cerr s'\<rparr>)"
proof -
  have "execute E argv = and_true (account_update E (drop 3 argv))"
    using assms(1-3) by (simp add: execute_def)
  moreover have "account_update E (drop 3 argv) s = update_all E (drop 3 argv) s1"
    using assms(4) by (simp add: account_update_def am_bind_run)
  ultimately have "execute E argv s = Some (Inr b, s') \<longleftrightarrow> b \<and> update_all E (drop 3 argv) s1 = Some (Inr (), s')"
    by (auto simp: and_true_def am_then_run elim!: am_then_InrE)
  then show ?thesis unfolding update_all_updates using updates_lines by blast
qed

section \<open>Importing a presale wallet\<close>

text \<open>
  The functions passed to the key manager always return, or throw an exception of it. What
  they leave in \<open>pw\<close> is the last answer.
\<close>

definition last_answer :: "('k, 'pair) am_env \<Rightarrow> 'k am_state \<Rightarrow> 'k am_state \<Rightarrow> string \<Rightarrow> string" where
  "last_answer E s s' pw = (if prompts s' = prompts s then pw else typed E (length (prompts s') - 1))"

definition only_asked :: "'k am_state \<Rightarrow> 'k am_state \<Rightarrow> bool" where
  "only_asked s s' \<longleftrightarrow> cout s' = cout s \<and> m_keyManager s' = m_keyManager s \<and> (\<exists>ps. prompts s' = prompts s @ ps)"

lemma run_callback_total:
  "\<exists>r s'. run_callback E prompt t pw s = Some (r, s') \<and> only_asked s s' \<and>
     (case r of Inl e \<Rightarrow> \<exists>c. e = Exception c | Inr (x, pw') \<Rightarrow> pw' = last_answer E s s' pw)"
proof (induction t arbitrary: pw s)
  case (Ask k)
  let ?a = "fst (getPassword E prompt s)" and ?s = "snd (getPassword E prompt s)"
  obtain r s' where r: "run_callback E prompt (k ?a) ?a ?s = Some (r, s')" and o: "only_asked ?s s'"
    and c: "case r of Inl e \<Rightarrow> \<exists>c. e = Exception c | Inr (x, pw') \<Rightarrow> pw' = last_answer E ?s s' ?a"
    using Ask [of "k ?a" ?a ?s] by auto
  have s: "prompts ?s = prompts s @ [prompt]" "?a = typed E (length (prompts s))" "only_asked s ?s"
    by (simp_all add: getPassword_def only_asked_def)
  then have l: "last_answer E ?s s' ?a = last_answer E s s' pw" and "only_asked s s'"
    using o by (auto simp: last_answer_def only_asked_def)
  then show ?case using r c unfolding l run_callback.simps by blast
qed (simp_all add: only_asked_def last_answer_def)

lemma run_callback_cases:
  obtains c s' where "run_callback E prompt t pw s = Some (Inl (Exception c), s')" "only_asked s s'"
  | x s' where "run_callback E prompt t pw s = Some (Inr (x, last_answer E s s' pw), s')" "only_asked s s'"
proof -
  obtain r s' where r: "run_callback E prompt t pw s = Some (r, s')" "only_asked s s'"
    and c: "case r of Inl e \<Rightarrow> \<exists>c. e = Exception c | Inr (x, pw') \<Rightarrow> pw' = last_answer E s s' pw"
    using run_callback_total [of E prompt t pw s] by blast
  show ?thesis
  proof (cases r)
    case (Inl e)
    then show ?thesis using c r that(1) by auto
  next
    case (Inr y)
    then show ?thesis using c r that(2) by (cases y) auto
  qed
qed

text \<open>
  Importing a presale wallet fails cleanly. With an opened wallet the command always
  returns, whatever the key manager throws, and writes exactly one line: when it returns true
  the address of the key, which was given to the key manager with the passphrase that was
  entered last; when it returns false the reason.
\<close>

theorem wallet_import_reports:
  assumes "3 < length argv" "argv ! 1 = ''wallet''" "argv ! 2 = ''import''"
    and open': "openWallet E s = Some (Inr True, s1)" "m_keyManager s1 = Some km"
  shows "\<exists>b s' line. execute E argv s = Some (Inr b, s') \<and> cout s' = cout s1 @ [line] \<and>
    (if b then \<exists>p u km'. line = address_line E (pair_address E p) \<and> m_keyManager s' = Some km' \<and>
        km_import E km (pair_secret E p) ''presale wallet'' (last_answer E s1 s' []) presale_hint = (Inr u, km')
     else \<exists>c. line = failed_line c)"
proof -
  let ?t = "presaleSecret E km (contentsString E (argv ! 3))"
  let ?q = "''Enter the passphrase for the presale key: ''"
  have e: "execute E argv = wallet_import E (argv ! 3)" using assms(1-3) by (simp add: execute_def)
  show ?thesis
  proof (cases rule: run_callback_cases [of E ?q ?t "[]" s1])
    case (1 c s2)
    then have "wallet_import E (argv ! 3) s = Some (Inr False, s2\<lparr>cout := cout s2 @ [failed_line c]\<rparr>)"
      using open' by (simp add: wallet_import_def am_bind_run am_catch_def) (simp add: am_bind_def)
    moreover have "cout s2 = cout s1" using 1(2) by (simp add: only_asked_def)
    ultimately show ?thesis unfolding e
      by (intro exI [of _ False] exI [of _ "s2\<lparr>cout := cout s2 @ [failed_line c]\<rparr>"] exI [of _ "failed_line c"]) auto
  next
    case (2 p s2)
    obtain r km' where i: "km_import E km (pair_secret E p) ''presale wallet'' (last_answer E s1 s2 []) presale_hint = (r, km')"
      by fastforce
    have s2: "m_keyManager s2 = Some km" "cout s2 = cout s1" using 2(2) open'(2) by (simp_all add: only_asked_def)
    let ?line = "case r of Inl c \<Rightarrow> failed_line c | Inr u \<Rightarrow> address_line E (pair_address E p)"
    let ?s = "s2\<lparr>m_keyManager := Some km', cout := cout s2 @ [?line]\<rparr>"
    have "wallet_import E (argv ! 3) s = Some (Inr (case r of Inl c \<Rightarrow> False | Inr u \<Rightarrow> True), ?s)"
      using open' 2(1) i s2(1)
      by (cases r) (simp_all add: wallet_import_def am_bind_run am_catch_def import_secret_def, simp_all add: am_bind_def)
    moreover have "last_answer E s1 ?s [] = last_answer E s1 s2 []" by (simp add: last_answer_def)
    ultimately show ?thesis unfolding e using s2(2) i
      by (intro exI [of _ "case r of Inl c \<Rightarrow> False | Inr u \<Rightarrow> True"] exI [of _ ?s] exI [of _ ?line]) (cases r; auto)
  qed
qed

section \<open>An example\<close>

text \<open>
  A manager is the list of its keys, with zero standing for an address that is not known; the
  account 9 has no key. The user mistypes once, then enters \<open>p\<close>.
\<close>

definition demo_am :: "(h128 list, nat) am_env" where
  "demo_am = \<lparr>typed = (\<lambda>n. if n = 0 then ''q'' else ''p''), openWallet = am_return True, makeKey = am_return 0,
     pair_secret = (\<lambda>p. []), pair_address = of_nat, contentsString = (\<lambda>f. f),
     presaleSecret = (\<lambda>k f. Ask (\<lambda>a. if a = ''q'' then Answer 5 else Fail None)),
     km_import = (\<lambda>k s n p h. (Inr 5, k @ [5])), importExisting = (\<lambda>k u n p h. k),
     km_address = (\<lambda>k u. ucast (u AND 7)), km_accounts = (\<lambda>k. [1, 9]), store_keys = (\<lambda>k. k),
     store_importKey = (\<lambda>k f. (0, k)), store_secret = (\<lambda>k u. Answer ([], k)),
     recode_address = (\<lambda>k a p. Answer (False, k)), recode_uuid = (\<lambda>k u p. Answer (True, k)),
     isHex = (\<lambda>i. False), fromUUID = (\<lambda>i. if i = ''u'' then 1 else 0), toUUID = (\<lambda>u. (if u = 8 then ''u8'' else ''u'')),
     address_of_hex = (\<lambda>i. Inl None), address_hex = (\<lambda>a. (if a = 1 then ''a1'' else if a = 5 then ''a5'' else ''a9'')),
     icap_encoded = (\<lambda>a. []), dec = (\<lambda>n. (if n = 0 then ''0'' else if n = 1 then ''1'' else ''2''))\<rparr>"

definition demo_am_state :: "h128 list \<Rightarrow> h128 list am_state" where
  "demo_am_state k = \<lparr>m_keyManager = Some k, prompts = [], cout = [], cerr = []\<rparr>"

lemma demo_am_simps [simp]:
  "openWallet demo_am = am_return True" "store_keys demo_am k = k" "km_accounts demo_am k = [1, 9]"
  "km_address demo_am k u = ucast (u AND 7)" "toUUID demo_am u = (if u = 8 then ''u8'' else ''u'')"
  "address_hex demo_am a = (if a = 1 then ''a1'' else if a = 5 then ''a5'' else ''a9'')" "dec demo_am n = (if n = 0 then ''0'' else if n = 1 then ''1'' else ''2'')"
  "isHex demo_am i = False" "fromUUID demo_am i = (if i = ''u'' then 1 else 0)"
  "typed demo_am n = (if n = 0 then ''q'' else ''p'')" "recode_uuid demo_am k u p = Answer (True, k)"
  "presaleSecret demo_am k f = Ask (\<lambda>a. if a = ''q'' then Answer 5 else Fail None)"
  "km_import demo_am k b nm p h = (Inr 5, k @ [5])" "pair_address demo_am n = of_nat n" "pair_secret demo_am n = []"
  by (simp_all add: demo_am_def)

theorem account_list_complete_witness:
  "execute demo_am [[], ''account''] (demo_am_state [1, 8]) = Some (Inr True, (demo_am_state [1, 8])\<lparr>cout :=
     [''Account #0: {a1}'', ''Account #1: {a9} (Brain)'', ''Account #2: u8 (Bare)'']\<rparr>)"
proof -
  have o: "openWallet demo_am (demo_am_state [1, 8]) = Some (Inr True, demo_am_state [1, 8])"
    and k: "m_keyManager (demo_am_state [1, 8]) = Some [1, 8]" "cout (demo_am_state [1, 8]) = []"
    by (simp_all add: demo_am_state_def)
  have "execute demo_am [[], ''account''] (demo_am_state [1, 8]) = Some (Inr True, (demo_am_state [1, 8])\<lparr>cout :=
      cout (demo_am_state [1, 8]) @ (if store_keys demo_am [1, 8] = [] then [''No keys found.'']
        else numbered demo_am 0 (account_entries demo_am [1, 8]))\<rparr>)"
    by (rule account_list_complete [OF _ _ _ o k(1)]) simp_all
  then show ?thesis
    by (simp add: k account_entries_def key_addresses_def bare_keys_def braced_def account_line_def)
qed

definition demo_updated :: "h128 list am_state" where
  "demo_updated = \<lparr>m_keyManager = Some [], prompts = concat (replicate 2 [new_prompt ''u'', confirm_prompt]),
     cout = [different_line],
     cerr = [''Re-encoded u'', ''Couldn't re-encode v; does not represent an address or uuid.'']\<rparr>"

lemma demo_createPassword:
  "createPassword demo_am q (demo_am_state k) = Some (Inr ''p'', asked_twice q (after_tries q 1 (demo_am_state k)))"
  by (subst createPassword_agree [of demo_am "demo_am_state k" 1])
    (simp_all add: agree_def demo_am_state_def)

theorem update_reports_each_witness:
  "execute demo_am [[], ''account'', ''update'', ''u'', ''v''] (demo_am_state []) = Some (Inr True, demo_updated) \<and>
   (\<exists>rs. updates demo_am [''u'', ''v''] (demo_am_state []) rs demo_updated \<and>
     cerr demo_updated = map2 result_line [''u'', ''v''] rs)"
proof -
  have o: "openWallet demo_am (demo_am_state []) = Some (Inr True, demo_am_state [])" by simp
  have u: "update_one demo_am ''u'' (demo_am_state []) =
      Some (Inr (), (asked_twice (new_prompt ''u'') (after_tries (new_prompt ''u'') 1 (demo_am_state [])))\<lparr>cerr := [''Re-encoded u'']\<rparr>)"
    by (simp add: update_one_def am_bind_run [where m = "createPassword demo_am (new_prompt ''u'')", OF demo_createPassword])
      (simp add: recode_one_def asked_twice_def after_tries_def demo_am_state_def am_bind_def with_km_def recoded_line_def)
  have v: "update_one demo_am ''v'' s = Some (Inr (), s\<lparr>cerr := cerr s @ [no_key_line ''v'']\<rparr>)" for s
    by (simp add: update_one_def)
  have "update_all demo_am [''u'', ''v''] (demo_am_state []) = Some (Inr (), demo_updated)"
    unfolding update_all.simps am_then_run [where m = "update_one demo_am ''u''", OF u] am_then_run [where m = "update_one demo_am ''v''", OF v]
    by (simp add: demo_updated_def asked_twice_def after_tries_def demo_am_state_def no_key_line_def numeral_2_eq_2)
  then have "account_update demo_am [''u'', ''v''] (demo_am_state []) = Some (Inr (), demo_updated)"
    unfolding account_update_def am_bind_run [where m = "openWallet demo_am", OF o] .
  then have x: "execute demo_am [[], ''account'', ''update'', ''u'', ''v''] (demo_am_state []) = Some (Inr True, demo_updated)"
    by (simp add: execute_def and_true_def am_then_run)
  have "drop 3 [[], ''account'', ''update'', ''u'', ''v''] = [''u'', ''v'']" by (simp add: numeral_3_eq_3)
  with update_reports_each [OF _ _ _ o, of "[[], ''account'', ''update'', ''u'', ''v'']" True demo_updated] x
  show ?thesis by (auto simp: demo_am_state_def)
qed

theorem wallet_import_reports_witness:
  "\<exists>b s' line. execute demo_am [[], ''wallet'', ''import'', ''f''] (demo_am_state []) = Some (Inr b, s') \<and>
     cout s' = [line]"
proof -
  have o: "openWallet demo_am (demo_am_state []) = Some (Inr True, demo_am_state [])"
    and k: "m_keyManager (demo_am_state []) = Some []" "cout (demo_am_state []) = []"
    by (simp_all add: demo_am_state_def)
  from wallet_import_reports [OF _ _ _ o k(1), of "[[], ''wallet'', ''import'', ''f'']"] k(2) show ?thesis
    by fastforce
qed

end
