(* ===== verification/ClientMain.thy ===== *)
theory ClientMain
  imports AccountManager
begin

text \<open>
  What \<open>chainx/main.cpp\<close> has of the client's entry point: the help and version texts, after
  which the process exits, and the locale. The name \<open>streamWallelp\<close> in \<open>help\<close> is taken for
  \<open>AccountManager::streamWalletHelp\<close>. A line of the output is an element of \<open>cout\<close>; the
  result is the exit code.
\<close>

record main_env =
  SensibleHttpPort :: string
  DefaultGasPrice :: string
  data_dir :: string
  miner_help :: "string list"
  evmjit :: bool
  dev_Version :: string
  protocolVersion :: string
  databaseVersion :: string
  build_platform :: string
  build_type :: string

definition outs :: "string list \<Rightarrow> ('k, unit) am" where
  "outs ls = foldr (\<lambda>l m. am_then (out l) m) ls (am_return ())"

definition usage_lines :: "main_env \<Rightarrow> string list" where
  "usage_lines M =
     [''Usage [OPTIONS]'',
      ''Options:'',
      [],
      ''Wallet usage:'']"

definition client_lines :: "main_env \<Rightarrow> string list" where
  "client_lines M =
     [[],
      ''Client mode (default):'',
      ''    --mainnet  Use the main network protocol.'',
      ''    --ropsten  Use the Ropsten testnet.'',
      ''    --private <name>  Use a private chain.'',
      ''    --test  Testing mode: Disable PoW and provide test rpc interface.'',
      ''    --config <file>  Configure specialised blockchain using given JSON information.'',
      ''    --oppose-dao-fork  Ignore DAO hard fork (default is to participate).'',
      [],
      ''    -o,--mode <full/peer>  Start a full node or a peer node (default: full).'',
      [],
      ''    -j,--json-rpc  Enable JSON-RPC server (default: off).'',
      ''    --ipc  Enable IPC server (default: on).'',
      ''    --ipcpath Set .ipc socket path (default: data directory)'',
      ''    --admin-via-http  Expose admin interface via http - UNSAFE! (default: off).'',
      ''    --no-ipc  Disable IPC server.'',
      ''    --json-rpc-port <n>  Specify JSON-RPC server port (implies '-j', default: '' @ SensibleHttpPort M @ '').'',
      ''    --rpccorsdomain <domain>  Domain on which to send Access-Control-Allow-Origin header.'',
      ''    --admin <password>  Specify admin session key for JSON-RPC (default: auto-generated and printed at start-up).'',
      ''    -K,--kill  Kill the blockchain first.'',
      ''    -R,--rebuild  Rebuild the blockchain from the existing database.'',
      ''    --rescue  Attempt to rescue a corrupt database.'',
      [],
      ''    --import-presale <file>  Import a pre-sale key; you'll need to specify the password to this key.'',
      ''    -s,--import-secret <secret>  Import a secret key into the key store.'',
      ''    --master <password>  Give the master password for the key store. Use --master \"\" to show a prompt.'',
      ''    --password <password>  Give a password for a private key.'',
      [],
      ''Client transacting:'',
      ''    --ask <wei>  Set the minimum ask gas price under which no transaction will be mined (default '' @ DefaultGasPrice M @ '' ).'',
      ''    --bid <wei>  Set the bid gas price to pay for transactions (default '' @ DefaultGasPrice M @ '' ).'',
      ''    --unsafe-transactions  Allow all transactions to proceed without verification. EXTREMELY UNSAFE.'',
      ''Client mining:'',
      ''    -a,--address <addr>  Set the author (mining payout) address to given address (default: auto).'',
      ''    -m,--mining <on/off/number>  Enable mining, optionally for a specified number of blocks (default: off).'',
      ''    -f,--force-mining  Mine even when there are no transactions to mine (default: off).'',
      ''    -C,--cpu  When mining, use the CPU.'',
      ''    -t, --mining-threads <n>  Limit number of CPU/GPU miners to n (default: use everything available on selected platform).'',
      [],
      ''Client networking:'',
      ''    --client-name <name>  Add a name to your client's version string (default: blank).'',
      ''    --bootstrap  Connect to the default  peer servers (default unless --no-discovery used).'',
      ''    --no-bootstrap  Do not connect to the default  peer servers (default only when --no-discovery is used).'',
      ''    -x,--peers <number>  Attempt to connect to a given number of peers (default: 11).'',
      ''    --peer-stretch <number>  Give the accepted connection multiplier (default: 7).'',
      ''    --public-ip <ip>  Force advertised public IP to the given IP (default: auto).'',
      ''    --listen-ip <ip>(:<port>)  Listen on the given IP for incoming connections (default: 0.0.0.0).'',
      ''    --listen <port>  Listen on the given port for incoming connections (default: 30303).'',
      ''    -r,--remote <host>(:<port>)  Connect to the given remote host (default: none).'',
      ''    --port <port>  Connect to the given remote port (default: 30303).'',
      ''    --network-id <n>  Only connect to other hosts with this network id.'',
      ''    --upnp <on/off>  Use UPnP for NAT (default: on).'',
      ''    --peerset <list>  Space delimited list of peers; element format: type:publickey@ipAddress[:port].'',
      ''        Types:'',
      ''        default'' @ [CHR 0x09] @ [CHR 0x09] @ ''Attempt connection when no other peers are available and pinning is disabled.'',
      ''        required'' @ [CHR 0x09] @ [CHR 0x09] @ ''Keep connected at all times.'',
      ''    --no-discovery  Disable node discovery, implies --no-bootstrap.'',
      ''    --pin  Only accept or connect to trusted peers.'',
      ''    --hermit  Equivalent to --no-discovery --pin.'',
      ''    --sociable  Force discovery and no pinning.'',
      []]"

definition mode_lines :: "main_env \<Rightarrow> string list" where
  "mode_lines M =
     [''Import/export modes:'',
      ''    --from <n>  Export only from block n; n may be a decimal, a '0x' prefixed hash, or 'latest'.'',
      ''    --to <n>  Export only to block n (inclusive); n may be a decimal, a '0x' prefixed hash, or 'latest'.'',
      ''    --only <n>  Equivalent to --export-from n --export-to n.'',
      ''    --dont-check  Prevent checking some block aspects. Faster importing, but to apply only when the data is known to be valid.'',
      [],
      ''General Options:'',
      ''    -d,--db-path,--datadir <path>  Load database from path (default: '' @ data_dir M @ '').'']"

definition jit_lines :: "main_env \<Rightarrow> string list" where
  "jit_lines M =
     [''    --vm <vm-kind>  Select VM; options are: interpreter, jit or smart (default: interpreter).'']"

definition general_lines :: "main_env \<Rightarrow> string list" where
  "general_lines M =
     [''    -v,--verbosity <0 - 9>  Set the log verbosity from 0 to 9 (default: 8).'',
      ''    -V,--version  Show the version and exit.'',
      ''    -h,--help  Show this help message and exit.'',
      [],
      ''Experimental / Proof of Concept:'',
      ''    --shh  Enable Whisper.'',
      []]"

definition main_help :: "main_env \<Rightarrow> ('k, int) am" where
  "main_help M =
     am_then (outs (usage_lines M)) (
     am_then streamAccountHelp (
     am_then streamWalletHelp (
     am_then (outs (client_lines M)) (
     am_then (outs (miner_help M)) (
     am_then (outs (mode_lines M)) (
     am_then (outs (if evmjit M then jit_lines M else [])) (
     am_then (outs (general_lines M)) (
       am_return 0))))))))"

definition version :: "main_env \<Rightarrow> ('k, int) am" where
  "version M =
     am_then (outs
      [''chainx version '' @ dev_Version M,
       ''chainx network protocol version: '' @ protocolVersion M,
       ''Client database version: '' @ databaseVersion M,
       ''Build: '' @ build_platform M @ ''/'' @ build_type M]) (am_return 0)"

text \<open>
  \<open>locale_set\<close> tells whether the user's locale could be set, \<open>unix\<close> whether \<open>__unix__\<close> is
  defined; the environment of the process is a map.
\<close>

definition setDefaultOrCLocale ::
    "bool \<Rightarrow> bool \<Rightarrow> (string \<Rightarrow> string option) \<Rightarrow> string \<Rightarrow> string option" where
  "setDefaultOrCLocale unix locale_set env =
     (if unix \<and> \<not> locale_set then env(''LC_ALL'' \<mapsto> ''C'') else env)"

section \<open>Lemmas\<close>

text \<open>Commands that only write lines.\<close>

definition writes :: "('k, 'a) am \<Rightarrow> 'a \<Rightarrow> bool" where
  "writes m x \<longleftrightarrow> (\<exists>ls. \<forall>s. m s = Some (Inr x, s\<lparr>cout := cout s @ ls\<rparr>))"

lemma writes_return: "writes (am_return x) x"
  unfolding writes_def by (rule exI [of _ "[]"]) simp

lemma writes_out: "writes (out l) ()"
  unfolding writes_def by (rule exI [of _ "[l]"]) simp

lemma writes_then: "writes m () \<Longrightarrow> writes n x \<Longrightarrow> writes (am_then m n) x"
  unfolding writes_def by (elim exE, rule_tac x = "ls @ lsa" in exI) (simp add: am_then_def am_bind_def)

lemma writes_outs: "writes (outs ls) ()"
  unfolding outs_def by (induction ls) (simp_all only: foldr.simps id_apply o_apply writes_return writes_then writes_out)

lemmas writes_intros = writes_return writes_out writes_then writes_outs

lemma writes_account_help: "writes streamAccountHelp ()" "writes streamWalletHelp ()"
  unfolding streamAccountHelp_def streamWalletHelp_def by (intro writes_intros)+

text \<open>Help and version always exit with code 0; they write lines and touch nothing else.\<close>

lemma help_exits: "\<exists>ls. \<forall>s. main_help M s = Some (Inr 0, s\<lparr>cout := cout s @ ls\<rparr>)"
  unfolding writes_def [symmetric] main_help_def by (intro writes_intros writes_account_help)

lemma version_exits: "\<exists>ls. \<forall>s. version M s = Some (Inr 0, s\<lparr>cout := cout s @ ls\<rparr>)"
  unfolding writes_def [symmetric] version_def by (intro writes_intros)

end
