(* ===== verification/Spec2Isabelle.thy ===== *)
theory Spec2Isabelle
  imports Script JsonReader KeyStore Governance ToolPipeline SigThreads Consensus TxnMap WalletTx Ownership
    HelpTexts ClientMain
begin

text \<open>
  A verification library for the C++ core of ChainBlockchain, a wallet and masternode code
  base of the Bitcoin and Dash family.

  \<^bold>\<open>The program.\<close> Scripts (\<open>chainx-ui.id/script.h\<close>) carry the conditions of transaction
  outputs; the interpreter's signature cache and the verification library
  (\<open>chainx-ui.id/consensus\<close>) check them. A wallet (\<open>Wallet\<close>) keeps keys, encrypted with a
  passphrase, decides which outputs are its own and stores its transactions. The governance
  manager (\<open>Maternodes/ChainX-MN/governance.h\<close>) keeps masternode objects and limits their
  rate. A masternode announces itself and pings (\<open>Maternodes/activemasternode.cpp\<close>) and takes
  part in mixing (\<open>Maternodes/SRC/darksend.h\<close>). The user asks and commands the node by RPC
  (\<open>rpcclient.cpp\<close>, \<open>rpcgovernance.cpp\<close>, \<open>rpcmasternode.cpp\<close>, \<open>rpcwallet.cpp\<close> under
  \<open>Maternodes/ChainX-MN\<close>), by a command-line tool that builds and signs transactions
  (\<open>Maternodes/SRC/chain-tx.cpp\<close>), by the account commands of a second client
  (\<open>chainx/AccountManager.cpp\<close>), and a JSON reader (\<open>Utility\<close>) parses text.

  \<^bold>\<open>The theories, in the order of their imports.\<close>

  \<^item> \<open>Prelude\<close>: what a C++ call can do besides returning (\<open>cxx_error\<close>: exceptions, failed
    asserts, undefined behaviour), the result type \<open>res\<close> with \<open>rbind\<close>, and facts on machine
    words and little-endian bytes, in the collections \<open>cxx_simps\<close> and \<open>word_facts\<close>.
  \<^item> \<open>Codec\<close>: the locales \<open>codec\<close> and \<open>canonical_codec\<close>, the contract of every encoding.
  \<^item> \<open>StdMap\<close>: \<open>std::map\<close> and \<open>std::set\<close> as ordered lists; the locale \<open>map_store\<close>, interpreted
    on them as \<open>smap\<close>; sets ordered by a comparison object, with the locale \<open>comparator\<close>,
    interpreted on \<open><\<close> here and on \<open>CompareBlocksByHeight\<close> in \<open>ChainRpc\<close>.
  \<^item> \<open>ScriptNum\<close>: class \<open>CScriptNum\<close> of \<open>script.h\<close>. A value is an \<open>int64_t\<close>, each operator
    one definition, overflow an error. The encoding is a \<open>canonical_codec\<close>.
  \<^item> \<open>Opcodes\<close>: the opcode table, \<open>DecodeOP_N\<close> and \<open>EncodeOP_N\<close>, \<open>GetOpName\<close>, the error
    codes with \<open>ScriptErrorString\<close> (\<open>scrypt/script_chainx.cpp\<close>), and the verification
    flags of \<open>interpreter.h\<close>.
  \<^item> \<open>Script\<close>: class \<open>CScript\<close>. A script is its bytes, an iterator is an index into them. The
    operators that append, \<open>GetOp2\<close>, \<open>FindAndDelete\<close>, \<open>Find\<close>, the templates. \<open>read_all\<close> and
    \<open>assemble\<close> are the abstract view of a script as its instructions.
  \<^item> \<open>Json\<close>: \<open>json_spirit_reader_template.h\<close> and \<open>json_spirit_utils.h\<close>. Escapes, the
    \<open>Semantic_actions\<close> with their stack of values (a path into the value built so far in place
    of pointers into it), for any \<open>add\<close> of a configuration, the thrown reports, the object
    helpers. \<open>JsonReader\<close>: the overloads of \<open>read\<close> and
    \<open>read_or_throw\<close> of \<open>json_spirit_reader.cpp\<close>, over the templates they call.
  \<^item> \<open>Crypter\<close>: class \<open>CCrypter\<close> and \<open>EncryptSecret\<close>/\<open>DecryptSecret\<close> of \<open>Wallet/crypter.cpp\<close>;
    the OpenSSL calls are the record \<open>evp\<close> with the contract \<open>evp_ok\<close>.
  \<^item> \<open>KeyStore\<close>: class \<open>CCryptoKeyStore\<close> of the same file, with the states that its operations
    reach, also when \<open>EncryptKeys\<close> fails.
  \<^item> \<open>Governance\<close>: \<open>CRateCheckBuffer\<close> (a ring of five time stamps, with the locale
    \<open>sliding_window\<close>) and the operations of \<open>CGovernanceManager\<close> that \<open>governance.h\<close> defines.
  \<^item> \<open>TxTool\<close>: \<open>chain-tx.cpp\<close>: registers, one definition per command, the signing loop, the
    driver. Keys, scripts, parsing of numbers and univalue are the record of the environment.
    \<open>ToolPipeline\<close>: runs of the tool that read what another run printed.
  \<^item> \<open>SigCache\<close>: \<open>consensus/sigcache.cpp\<close> and the default checker of \<open>interpreter.h\<close>.
  \<^item> \<open>SigThreads\<close>: script checks in several threads that share the cache. A call of
    \<open>VerifySignature\<close> is cut where it holds no lock, a script check is a tree of such calls, and
    \<open>system_step\<close> lets any thread go on.
  \<^item> \<open>Consensus\<close>: \<open>consensus/chainxconcensus.cpp\<close>; the decoder of transactions is a tree of
    reads, so that what it can do is bounded by the stream.
  \<^item> \<open>IsMine\<close>: \<open>Wallet/wallet_val.cpp\<close>, against an inductive description of ownership.
  \<^item> \<open>WalletTx\<close>: the serialized classes of \<open>Wallet/wallet.h\<close> and the priority of outputs.
  \<^item> \<open>Wallet\<close>: the key operations of \<open>CWallet\<close> (\<open>Wallet/wallet-tx.cpp\<close>) over \<open>KeyStore\<close>, with
    the virtual call of \<open>AddCryptedKey\<close> written out.
  \<^item> \<open>Ownership\<close>: \<open>IsMine\<close> over the key store and the wallet.
  \<^item> \<open>WalletDb\<close>: \<open>Wallet/db.cpp\<close> and \<open>Wallet/db.h\<close>. The environment with its open databases and
    use counts, an accessor (\<open>CDB\<close>) with reads, writes, cursors and transactions, \<open>Verify\<close> and
    \<open>Salvage\<close>. Berkeley DB is a parameter; \<open>env_runs\<close> is any later use of the environment.
  \<^item> \<open>TxnMap\<close>: what an accessor promises its callers, a map with transactions, as an inductive
    step relation; the locale \<open>simulation\<close>, interpreted on \<open>CDB\<close>'s operations as \<open>accessor\<close>,
    over the documented behaviour of the library (\<open>bdb_ok\<close>), whose calls may fail; what a failed
    change leaves is unknown.
  \<^item> \<open>Rpc\<close>: JSON values, errors and arguments of the RPC handlers.
  \<^item> \<open>ChainRpc\<close>: every handler of \<open>rpcclient.cpp\<close> with its helpers. One call sees one state of
    the chain, the record \<open>chain_env\<close>. \<open>RpcDocs\<close>: the results its help texts document, as
    shapes, against the answers, with the places where the two diverge.
  \<^item> \<open>Gobject\<close>: the commands of \<open>rpcgovernance.cpp\<close>; what is sent to the network is part of the
    state.
  \<^item> \<open>Mixing\<close>: the messages, the queue and the pool of \<open>darksend.h\<close>, and the alerts of
    \<open>Blockchain/alert.h\<close>.
  \<^item> \<open>ActiveMasternode\<close>: the states of \<open>CActiveMasternode\<close> and its periodic call, with a journal
    of the pings relayed and of what code outside the repository did to the masternode list.
    \<open>MasternodeRpc\<close>: the commands of \<open>rpcmasternode.cpp\<close> and the helpers of \<open>rpcwallet.cpp\<close>, and
    the relation \<open>node_step\<close> that interleaves commands and periodic calls.
  \<^item> \<open>HelpTexts\<close>: the help text of each command, line by line, and the members its lines
    document.
  \<^item> \<open>AccountManager\<close>: \<open>chainx/AccountManager.cpp\<close>; a command is a function of the state that
    may return, throw or not return, the user's answers are a sequence, and the function that
    the key manager calls back for a password is a tree of questions. \<open>ClientMain\<close>: the texts and
    the locale of \<open>chainx/main.cpp\<close>.

  \<^bold>\<open>What the lemmas show.\<close> Encodings are canonical and read back (script numbers, pushes,
  scripts, wallet transactions, governance state); iteration and deletion in scripts do what
  the abstract list of instructions says and never leave the buffer; the JSON builder
  produces the value that was read; key encryption loses no key, keeps plain and encrypted
  keys apart, and an encrypted wallet never writes a plain key; ownership, rate limits and
  the verification call meet their abstract descriptions; signing changes nothing but
  signatures, a pipe of two runs of the tool is one run of all their commands, and a cached signature check gives the result of the real one. Encrypting a
  wallet does not change which outputs it owns, and a generated key is owned. Accessors of a
  wallet file share one database, and salvage of a complete dump loses nothing. The chain
  queries follow the active chain and answer what their help texts say, member by member;
  governance commands send what they report and nothing else; a masternode's pings keep their
  distance however commands and periodic calls are interleaved, as long as other code does not
  set the list of masternodes back. The account listing is complete for a store with keys, and
  every argument of an update is accounted for. A database accessor refines a map with
  transactions, and threads that share the signature cache get the verdicts they would get
  without it.

  \<^bold>\<open>Termination and bounds.\<close> Loops over lists are structural recursion. \<open>FindAndDelete\<close> and
  \<open>GetOp2\<close> loops have a measure, the bytes left. The eviction loop of the signature cache and
  \<open>IsMine\<close> need not end by themselves and are \<open>partial_function (option)\<close>, with theorems on
  when they return, as are the search for the prune height (\<open>prune_loop\<close>, which ends on a
  chain without cycles) and the choice of a password (\<open>createPassword\<close>, which ends when the
  user enters the same text twice). The loops of the difficulty, of \<open>getblockheaders\<close>, of the
  majority count and of \<open>Salvage\<close> have measures. Floating-point numbers are abstract; the
  difficulty is related to targets in exact arithmetic. Integers keep the width of the
  source; a signed overflow is an error, an unsigned one wraps. Three counters of type \<open>int\<close> are
  natural numbers, which they equal below \<open>2 ^ 31\<close>: the matches of \<open>FindAndDelete\<close> and \<open>Find\<close>, and
  the numbers of listed accounts.

  \<^bold>\<open>What is not modelled.\<close> Code outside the repository (OpenSSL, secp256k1, Boost, univalue,
  Berkeley DB, the headers of the node that the files include) is a parameter, with what the
  code relies on as a named predicate (\<open>evp_ok\<close>, \<open>env_ok\<close>, \<open>wallet_env_ok\<close>, \<open>solver_ok\<close> and
  so on) that a concrete instance satisfies. The memory estimate and the buckets of the
  signature cache depend on its entries only, not on the size of the bucket array. Locks are modelled only in \<open>SigThreads\<close>: elsewhere
  an operation is one step. The Spirit grammar of the JSON reader is not modelled, only the
  actions it calls. Help texts are named by their command where they are thrown, and
  \<open>HelpTexts\<close> has the texts. Methods that the headers only declare (most of \<open>CDarksendPool\<close>, \<open>CGovernanceManager\<close> and \<open>CWalletTx\<close>) have no body in the
  repository. The beginning of the loop of \<open>gobject vote-alias\<close>, which is missing in the
  source, is a parameter; \<open>masternode\<close> is cut off after \<open>start\<close>, \<open>gobject getcurrentvotes\<close> and
  \<open>getnewaddress\<close> in their first statements. Statements that do not compile are left out and listed as findings.
  \<open>scrypt/script.h\<close> is a second copy of \<open>script.h\<close>. Constants that are products of a
  \<open>double\<close>, or of \<open>COIN\<close> and \<open>CENT\<close> of another header, are left out. \<open>chainx/main.cpp\<close> ends before its options are read.
  The scripts, contracts and tools in other languages are not modelled.

  \<^bold>\<open>Plan.\<close> The bodies the repository has are modelled. What remains waits for code that is
  not in it: the wallet's records over \<open>TxnMap\<close>, the mixing protocol over \<open>Mixing\<close>, and the
  bodies of the methods that are declared only.
\<close>

end
